(* ===== verification/Prelude.thy ===== *)
theory Prelude
  imports Main "HOL-Library.Sublist"
begin

text \<open>
  Shared vocabulary of the development: Python's string methods on \<open>string\<close> (one
  \<open>char\<close> is one code point; code points above 255 do not occur in the model), small
  lemmas on lists and options, the generic notion of a reachable state, and the fact
  collections the component theories extend.
\<close>

named_theorems py_string \<open>evaluation equations of the string operations\<close>

type_synonym str = string

section \<open>Python string methods\<close>

definition is_space :: "char \<Rightarrow> bool" where
  "is_space c \<longleftrightarrow> (let n = (of_char c :: nat) in
     (9 \<le> n \<and> n \<le> 13) \<or> (28 \<le> n \<and> n \<le> 32) \<or> n = 133 \<or> n = 160)"

definition lower_char :: "char \<Rightarrow> char" where
  "lower_char c = (let n = (of_char c :: nat) in
     if (65 \<le> n \<and> n \<le> 90) \<or> (192 \<le> n \<and> n \<le> 222 \<and> n \<noteq> 215) then char_of (n + 32) else c)"

definition lower :: "str \<Rightarrow> str" where
  "lower s = map lower_char s"

text \<open>Upper case of the Latin-1 letters that have one there, all other characters unchanged.\<close>

definition upper_char :: "char \<Rightarrow> char" where
  "upper_char c = (let n = (of_char c :: nat) in
     if (97 \<le> n \<and> n \<le> 122) \<or> (224 \<le> n \<and> n \<le> 254 \<and> n \<noteq> 247) then char_of (n - 32) else c)"

definition upper :: "str \<Rightarrow> str" where
  "upper s = map upper_char s"

definition lstrip :: "str \<Rightarrow> str" where
  "lstrip s = dropWhile is_space s"

definition rstrip :: "str \<Rightarrow> str" where
  "rstrip s = rev (dropWhile is_space (rev s))"

definition strip :: "str \<Rightarrow> str" where
  "strip s = rstrip (lstrip s)"

text \<open>\<open>s.rstrip(".")\<close> and \<open>s.lstrip("/")\<close>: the characters of \<open>cs\<close> at one end.\<close>

definition rstrip_chars :: "char list \<Rightarrow> str \<Rightarrow> str" where
  "rstrip_chars cs s = rev (dropWhile (\<lambda>c. c \<in> set cs) (rev s))"

definition lstrip_chars :: "char list \<Rightarrow> str \<Rightarrow> str" where
  "lstrip_chars cs s = dropWhile (\<lambda>c. c \<in> set cs) s"

definition replace_char :: "char \<Rightarrow> char \<Rightarrow> str \<Rightarrow> str" where
  "replace_char a b s = map (\<lambda>c. if c = a then b else c) s"

definition starts_with :: "str \<Rightarrow> str \<Rightarrow> bool" where
  "starts_with s p \<longleftrightarrow> prefix p s"

definition ends_with :: "str \<Rightarrow> str \<Rightarrow> bool" where
  "ends_with s p \<longleftrightarrow> prefix (rev p) (rev s)"

text \<open>The operator \<open>p in s\<close> on strings.\<close>

fun occurs_in :: "str \<Rightarrow> str \<Rightarrow> bool" where
  "occurs_in p [] \<longleftrightarrow> p = []"
| "occurs_in p (c # cs) \<longleftrightarrow> prefix p (c # cs) \<or> occurs_in p cs"

text \<open>\<open>s.split()\<close>: the maximal runs of non-space characters. \<open>cur\<close> is the word being read.\<close>

fun split_ws_aux :: "str \<Rightarrow> str \<Rightarrow> str list" where
  "split_ws_aux cur [] = (if cur = [] then [] else [cur])"
| "split_ws_aux cur (c # cs) =
     (if is_space c then (if cur = [] then split_ws_aux [] cs else cur # split_ws_aux [] cs)
      else split_ws_aux (cur @ [c]) cs)"

definition split_ws :: "str \<Rightarrow> str list" where
  "split_ws s = split_ws_aux [] s"

text \<open>\<open>s.split(sep)\<close> for a one-character separator: never empty.\<close>

fun split_on :: "char \<Rightarrow> str \<Rightarrow> str list" where
  "split_on sep [] = [[]]"
| "split_on sep (c # cs) =
     (if c = sep then [] # split_on sep cs
      else (case split_on sep cs of [] \<Rightarrow> [[c]] | w # ws \<Rightarrow> (c # w) # ws))"

fun join :: "str \<Rightarrow> str list \<Rightarrow> str" where
  "join sep [] = []"
| "join sep [w] = w"
| "join sep (w # v # ws) = w @ sep @ join sep (v # ws)"

text \<open>Collapse runs of white space to one blank: \<open>" ".join(s.split())\<close>.\<close>

definition squeeze :: "str \<Rightarrow> str" where
  "squeeze s = join '' '' (split_ws s)"

declare starts_with_def [py_string] ends_with_def [py_string] strip_def [py_string]
  lstrip_def [py_string] rstrip_def [py_string] lower_def [py_string]
  rstrip_chars_def [py_string] lstrip_chars_def [py_string] replace_char_def [py_string]
  is_space_def [py_string] lower_char_def [py_string] split_ws_def [py_string]
  squeeze_def [py_string]

lemma lstrip_Nil [simp]: "lstrip [] = []"
  by (simp add: lstrip_def)

lemma strip_Nil [simp]: "strip [] = []"
  by (simp add: strip_def lstrip_def rstrip_def)

lemma lower_Nil [simp]: "lower [] = []"
  by (simp add: lower_def)

lemma length_lower [simp]: "length (lower s) = length s"
  by (simp add: lower_def)

lemma lower_append: "lower (s @ t) = lower s @ lower t"
  by (simp add: lower_def)

lemma set_dropWhile_subset: "set (dropWhile P xs) \<subseteq> set xs"
  by (auto dest: set_dropWhileD)

lemma set_strip: "set (strip s) \<subseteq> set s"
proof -
  have "set (strip s) \<subseteq> set (lstrip s)"
    using set_dropWhile_subset [of is_space "rev (lstrip s)"] by (simp add: strip_def rstrip_def)
  also have "\<dots> \<subseteq> set s"
    by (simp add: lstrip_def set_dropWhile_subset)
  finally show ?thesis .
qed

lemma occurs_in_iff: "occurs_in p s \<longleftrightarrow> (\<exists>u v. s = u @ p @ v)"
proof (induction s)
  case Nil
  then show ?case by auto
next
  case (Cons c cs)
  show ?case
  proof
    assume "occurs_in p (c # cs)"
    then consider "prefix p (c # cs)" | "occurs_in p cs" by auto
    then show "\<exists>u v. c # cs = u @ p @ v"
    proof cases
      case 1
      then obtain v where "c # cs = p @ v" by (auto simp: prefix_def)
      then show ?thesis by (metis append_Nil)
    next
      case 2
      with Cons.IH obtain u v where "cs = u @ p @ v" by auto
      then show ?thesis by (metis append_Cons)
    qed
  next
    assume "\<exists>u v. c # cs = u @ p @ v"
    then obtain u v where eq: "c # cs = u @ p @ v" by auto
    show "occurs_in p (c # cs)"
    proof (cases u)
      case Nil
      with eq have "prefix p (c # cs)" by simp
      then show ?thesis by simp
    next
      case (Cons d u')
      with eq have "cs = u' @ p @ v" by simp
      with Cons.IH show ?thesis by auto
    qed
  qed
qed

lemma occurs_in_append: "occurs_in p s \<Longrightarrow> occurs_in p (u @ s @ v)"
  unfolding occurs_in_iff by (metis append_assoc)

lemma starts_with_append [simp]: "starts_with (p @ s) p"
  by (simp add: starts_with_def)

section \<open>Words\<close>

lemma split_ws_aux_no_space:
  "w \<in> set (split_ws_aux cur s) \<Longrightarrow> \<forall>c \<in> set cur. \<not> is_space c \<Longrightarrow> \<forall>c \<in> set w. \<not> is_space c"
proof (induction s arbitrary: cur)
  case Nil
  then show ?case by (cases "cur = []") simp_all
next
  case (Cons c cs)
  show ?case
  proof (cases "is_space c")
    case True
    with Cons.prems consider "w = cur" | "w \<in> set (split_ws_aux [] cs)"
      by (cases "cur = []") auto
    then show ?thesis
      using Cons.prems(2) Cons.IH [of "[]"] by cases simp_all
  next
    case False
    with Cons.prems show ?thesis by (intro Cons.IH [of "cur @ [c]"]) simp_all
  qed
qed

lemma split_ws_no_space: "w \<in> set (split_ws s) \<Longrightarrow> c \<in> set w \<Longrightarrow> \<not> is_space c"
  using split_ws_aux_no_space [of w "[]" s] by (auto simp: split_ws_def)

lemma split_ws_aux_nonempty: "w \<in> set (split_ws_aux cur s) \<Longrightarrow> w \<noteq> []"
proof (induction s arbitrary: cur)
  case Nil
  then show ?case by (cases "cur = []") simp_all
next
  case (Cons c cs)
  then show ?case by (cases "is_space c"; cases "cur = []") auto
qed

lemma split_ws_aux_word:
  "\<forall>c \<in> set w. \<not> is_space c \<Longrightarrow> split_ws_aux cur (w @ s) = split_ws_aux (cur @ w) s"
  by (induction w arbitrary: cur) auto

lemma split_ws_word_space:
  assumes "w \<noteq> []" and "\<forall>c \<in> set w. \<not> is_space c" and "is_space b"
  shows "split_ws (w @ b # s) = w # split_ws s"
  using assms split_ws_aux_word [of w "[]" "b # s"] by (simp add: split_ws_def)

lemma squeeze_word_space:
  assumes "w \<noteq> []" and "\<forall>c \<in> set w. \<not> is_space c" and "is_space b"
  shows "prefix w (squeeze (w @ b # s))"
  using split_ws_word_space [OF assms] by (cases "split_ws s") (simp_all add: squeeze_def)

lemma join_Cons: "ws \<noteq> [] \<Longrightarrow> join sep (w # ws) = w @ sep @ join sep ws"
  by (cases ws) auto

lemma set_join: "c \<in> set (join sep ws) \<Longrightarrow> c \<in> set sep \<or> (\<exists>w \<in> set ws. c \<in> set w)"
  by (induction sep ws rule: join.induct) auto

section \<open>Options\<close>

definition or_else :: "'a option \<Rightarrow> 'a \<Rightarrow> 'a" where
  "or_else x d = (case x of None \<Rightarrow> d | Some v \<Rightarrow> v)"

lemma or_else_simps [simp]: "or_else None d = d" "or_else (Some v) d = v"
  by (simp_all add: or_else_def)

section \<open>Reachable states of a step relation\<close>

inductive reach :: "('s \<Rightarrow> bool) \<Rightarrow> ('s \<Rightarrow> 's \<Rightarrow> bool) \<Rightarrow> 's \<Rightarrow> bool"
  for init :: "'s \<Rightarrow> bool" and step :: "'s \<Rightarrow> 's \<Rightarrow> bool" where
  reach_start: "init s \<Longrightarrow> reach init step s"
| reach_step: "reach init step s \<Longrightarrow> step s t \<Longrightarrow> reach init step t"

lemma reach_invariant:
  assumes "reach init step s"
    and "\<And>s. init s \<Longrightarrow> P s"
    and "\<And>s t. reach init step s \<Longrightarrow> P s \<Longrightarrow> step s t \<Longrightarrow> P t"
  shows "P s"
  using assms by (induction rule: reach.induct) blast+

end
