(* ===== verification/PyValue.thy ===== *)
theory PyValue
  imports Prelude
begin

text \<open>
  Python values as they travel through tool arguments, event payloads and checkpoints: JSON
  trees. A dict is an association list with distinct keys in insertion order, as Python
  keeps it. \<open>JDec m k\<close> is the float written \<open>m / 10^k\<close> in plain decimal notation
  (no exponent, infinity or NaN). The operations are the ones the sources use: \<open>d.get(k)\<close>,
  \<open>d[k] = v\<close>, truth value, \<open>x or y\<close>, \<open>str(x)\<close>, \<open>int(x)\<close> and \<open>{"type": t, **d}\<close>.
\<close>

datatype json =
    JNull
  | JBool bool
  | JInt int
  | JDec int nat
  | JStr str
  | JList "json list"
  | JObj "(str \<times> json) list"

type_synonym dict = "(str \<times> json) list"

section \<open>Dictionaries\<close>

text \<open>\<open>d.get(k)\<close> is \<open>map_of d k\<close>, with None for an absent key.\<close>

definition dict_get :: "dict \<Rightarrow> str \<Rightarrow> json" where
  "dict_get d k = (case map_of d k of None \<Rightarrow> JNull | Some v \<Rightarrow> v)"

text \<open>\<open>d.get(k, default)\<close>: the default only when the key is absent.\<close>

definition dict_get_default :: "dict \<Rightarrow> str \<Rightarrow> json \<Rightarrow> json" where
  "dict_get_default d k x = (case map_of d k of None \<Rightarrow> x | Some v \<Rightarrow> v)"

fun dict_set :: "(str \<times> 'v) list \<Rightarrow> str \<Rightarrow> 'v \<Rightarrow> (str \<times> 'v) list" where
  "dict_set [] k v = [(k, v)]"
| "dict_set ((k', v') # d) k v = (if k' = k then (k, v) # d else (k', v') # dict_set d k v)"

text \<open>\<open>{**d, **e}\<close>: the entries of \<open>e\<close> stored one after the other.\<close>

definition dict_update :: "dict \<Rightarrow> dict \<Rightarrow> dict" where
  "dict_update d e = foldl (\<lambda>acc (k, v). dict_set acc k v) d e"

lemma map_of_dict_set: "map_of (dict_set d k v) = (map_of d)(k \<mapsto> v)"
  by (induction d k v rule: dict_set.induct) auto

lemma dict_set_keys: "fst ` set (dict_set d k v) = insert k (fst ` set d)"
  by (induction d k v rule: dict_set.induct) auto

lemma distinct_dict_set: "distinct (map fst d) \<Longrightarrow> distinct (map fst (dict_set d k v))"
proof (induction d k v rule: dict_set.induct)
  case (2 k' v' d k v)
  have keys: "fst ` set (dict_set d k v) = insert k (fst ` set d)"
    by (rule dict_set_keys)
  from 2 keys show ?case by auto
qed simp

lemma dict_get_set [simp]: "dict_get (dict_set d k v) j = (if j = k then v else dict_get d j)"
  by (simp add: dict_get_def map_of_dict_set)

lemma dict_get_Nil [simp]: "dict_get [] k = JNull"
  by (simp add: dict_get_def)

lemma dict_get_Cons [simp]: "dict_get ((k, v) # d) j = (if j = k then v else dict_get d j)"
  by (simp add: dict_get_def)

lemma map_of_dict_update:
  "map_of (dict_update d e) = (map_of d ++ map_of (rev e))"
  by (induction e arbitrary: d) (auto simp: dict_update_def map_of_dict_set map_add_def fun_eq_iff
      split: option.splits)

section \<open>Truth, or, and conversions\<close>

fun truthy :: "json \<Rightarrow> bool" where
  "truthy JNull \<longleftrightarrow> False"
| "truthy (JBool b) \<longleftrightarrow> b"
| "truthy (JInt n) \<longleftrightarrow> n \<noteq> 0"
| "truthy (JDec m k) \<longleftrightarrow> m \<noteq> 0"
| "truthy (JStr s) \<longleftrightarrow> s \<noteq> []"
| "truthy (JList xs) \<longleftrightarrow> xs \<noteq> []"
| "truthy (JObj d) \<longleftrightarrow> d \<noteq> []"

definition py_or :: "json \<Rightarrow> json \<Rightarrow> json" where
  "py_or x y = (if truthy x then x else y)"

lemma py_or_simps [simp]: "truthy x \<Longrightarrow> py_or x y = x" "\<not> truthy x \<Longrightarrow> py_or x y = y"
  by (simp_all add: py_or_def)

fun show_digits :: "nat \<Rightarrow> str" where
  "show_digits n = (if n < 10 then [char_of (48 + n)]
     else show_digits (n div 10) @ [char_of (48 + n mod 10)])"

declare show_digits.simps [simp del]

definition show_int :: "int \<Rightarrow> str" where
  "show_int n = (if n < 0 then CHR ''-'' # show_digits (nat (- n)) else show_digits (nat n))"

text \<open>
  The plain decimal text of \<open>m / 10^k\<close>: at least one digit on each side of the point, the
  fraction padded to \<open>k\<close> digits.
\<close>

definition show_dec :: "int \<Rightarrow> nat \<Rightarrow> str" where
  "show_dec m k = (let a = nat \<bar>m\<bar>; w = show_digits (a div 10 ^ k); f = show_digits (a mod 10 ^ k)
     in (if m < 0 then ''-'' else []) @ w @ ''.'' @
        (if k = 0 then ''0'' else replicate (k - length f) (CHR ''0'') @ f))"

definition hex_digit :: "nat \<Rightarrow> char" where
  "hex_digit n = (if n < 10 then char_of (48 + n) else char_of (87 + n))"

text \<open>One character of \<open>repr\<close> of a string quoted with \<open>q\<close>.\<close>

definition repr_char :: "char \<Rightarrow> char \<Rightarrow> str" where
  "repr_char q c = (let n = (of_char c :: nat) in
     if c = q \<or> n = 92 then [char_of (92::nat), c]
     else if n = 10 then [char_of (92::nat), CHR ''n'']
     else if n = 13 then [char_of (92::nat), CHR ''r'']
     else if n = 9 then [char_of (92::nat), CHR ''t'']
     else if n < 32 \<or> (127 \<le> n \<and> n \<le> 160) \<or> n = 173
       then [char_of (92::nat), CHR ''x'', hex_digit (n div 16), hex_digit (n mod 16)]
     else [c])"

definition repr_str :: "str \<Rightarrow> str" where
  "repr_str s = (let q = (if char_of (39::nat) \<in> set s \<and> char_of (34::nat) \<notin> set s
       then char_of (34::nat) else char_of (39::nat))
     in q # concat (map (repr_char q) s) @ [q])"

fun py_repr :: "json \<Rightarrow> str" where
  "py_repr JNull = ''None''"
| "py_repr (JBool b) = (if b then ''True'' else ''False'')"
| "py_repr (JInt n) = show_int n"
| "py_repr (JDec m k) = show_dec m k"
| "py_repr (JStr s) = repr_str s"
| "py_repr (JList xs) = ''['' @ join '', '' (map py_repr xs) @ '']''"
| "py_repr (JObj d) =
     ''{'' @ join '', '' (map (\<lambda>(k, v). repr_str k @ '': '' @ py_repr v) d) @ ''}''"

text \<open>\<open>str(x)\<close>: the text of a string, the representation of everything else.\<close>

definition py_str :: "json \<Rightarrow> str" where
  "py_str x = (case x of JStr s \<Rightarrow> s | _ \<Rightarrow> py_repr x)"

lemma py_str_JStr [simp]: "py_str (JStr s) = s"
  by (simp add: py_str_def)

text \<open>\<open>str(d.get(k) or "")\<close>, the idiom the sources use to read a text field.\<close>

definition str_field :: "dict \<Rightarrow> str \<Rightarrow> str" where
  "str_field d k = py_str (py_or (dict_get d k) (JStr []))"

lemma str_field_Nil [simp]: "str_field [] k = []"
  by (simp add: str_field_def)

lemma str_field_Cons: "str_field ((k, JStr s) # d) j = (if j = k then s else str_field d j)"
  by (cases "s = []") (simp_all add: str_field_def)

text \<open>\<open>int(x)\<close> on the values the sources pass; None is an exception (TypeError, ValueError).\<close>

definition is_digit :: "char \<Rightarrow> bool" where
  "is_digit c \<longleftrightarrow> (let n = (of_char c :: nat) in 48 \<le> n \<and> n \<le> 57)"

fun read_digits :: "nat \<Rightarrow> str \<Rightarrow> nat option" where
  "read_digits acc [] = Some acc"
| "read_digits acc (c # cs) =
     (if is_digit c then read_digits (10 * acc + (of_char c - 48)) cs else None)"

definition read_nat :: "str \<Rightarrow> nat option" where
  "read_nat s = (if s = [] then None else read_digits 0 s)"

definition read_int :: "str \<Rightarrow> int option" where
  "read_int s = (case strip s of
     [] \<Rightarrow> None
   | c # cs \<Rightarrow> if c = CHR ''-'' then map_option (\<lambda>n. - int n) (read_nat cs)
              else if c = CHR ''+'' then map_option int (read_nat cs)
              else map_option int (read_nat (c # cs)))"

definition trunc_dec :: "int \<Rightarrow> nat \<Rightarrow> int" where
  "trunc_dec m k = sgn m * (\<bar>m\<bar> div 10 ^ k)"

fun py_int :: "json \<Rightarrow> int option" where
  "py_int (JBool b) = Some (if b then 1 else 0)"
| "py_int (JInt n) = Some n"
| "py_int (JDec m k) = Some (trunc_dec m k)"
| "py_int (JStr s) = read_int s"
| "py_int _ = None"

lemma py_int_or_zero: "py_int (py_or JNull (JInt 0)) = Some 0"
  by simp

text \<open>\<open>list(x)\<close>, and \<open>float(x)\<close> on JSON numbers (a text is refused here).\<close>

fun py_list :: "json \<Rightarrow> json list option" where
  "py_list (JList xs) = Some xs"
| "py_list (JStr s) = Some (map (\<lambda>c. JStr [c]) s)"
| "py_list (JObj d) = Some (map (\<lambda>(k, v). JStr k) d)"
| "py_list _ = None"

fun py_float :: "json \<Rightarrow> json option" where
  "py_float (JBool b) = Some (JDec (if b then 1 else 0) 0)"
| "py_float (JInt n) = Some (JDec n 0)"
| "py_float (JDec m k) = Some (JDec m k)"
| "py_float _ = None"

section \<open>Digits read back\<close>

lemma is_digit_show: "n < 10 \<Longrightarrow> is_digit (char_of (48 + n :: nat))"
  by (simp add: is_digit_def)

lemma show_digits_all: "c \<in> set (show_digits n) \<Longrightarrow> is_digit c"
proof (induction n rule: show_digits.induct)
  case (1 n)
  then show ?case
    by (subst (asm) show_digits.simps) (auto simp: is_digit_show split: if_splits)
qed

lemma read_digits_append:
  "read_digits acc (s @ t) = (case read_digits acc s of None \<Rightarrow> None | Some n \<Rightarrow> read_digits n t)"
  by (induction acc s rule: read_digits.induct) auto

lemma show_digits_nonempty [simp]: "show_digits n \<noteq> []"
  by (subst show_digits.simps) simp

lemma read_show_digits: "read_digits 0 (show_digits n) = Some n"
proof (induction n rule: show_digits.induct)
  case (1 n)
  show ?case
  proof (cases "n < 10")
    case True
    then show ?thesis by (subst show_digits.simps) (simp add: is_digit_show)
  next
    case False
    with 1 have "read_digits 0 (show_digits (n div 10)) = Some (n div 10)" by simp
    with False show ?thesis
      by (subst show_digits.simps) (simp add: read_digits_append is_digit_show)
  qed
qed

end
