(* ===== verification/Projector.thy ===== *)
theory Projector
  imports PyValue "HOL-Library.Monad_Syntax"
begin

text \<open>
  \<open>services/api/app/services/projection/projector.py\<close> and \<open>run_status.py\<close>: the fold of a turn's
  events into the client's read model, and the transaction that stores it in \<open>turns\<close>, \<open>runs\<close>,
  \<open>turn_views\<close> and \<open>approval_views\<close>. Payloads, timeline rows and artifacts are Python dicts;
  rows changed in place are replaced at their position. A step returns None where the source
  raises (a number that cannot be read, a sum of a text and another type). The local
  \<open>pending_interrupt\<close>, which is written and never read, and the lag metric are left out.
\<close>

section \<open>More of Python's values\<close>

text \<open>\<open>==\<close>: numbers compare by value, everything else structurally.\<close>

fun num_of :: "json \<Rightarrow> (int \<times> nat) option" where
  "num_of (JBool b) = Some (if b then 1 else 0, 0)"
| "num_of (JInt n) = Some (n, 0)"
| "num_of (JDec m k) = Some (m, k)"
| "num_of _ = None"

definition py_eq :: "json \<Rightarrow> json \<Rightarrow> bool" where
  "py_eq x y = (case (num_of x, num_of y) of
      (Some (m, k), Some (m', k')) \<Rightarrow> m * 10 ^ k' = m' * 10 ^ k
    | _ \<Rightarrow> x = y)"

text \<open>\<open>x + y\<close>.\<close>

definition py_add :: "json \<Rightarrow> json \<Rightarrow> json option" where
  "py_add x y = (case (x, y) of
      (JStr a, JStr b) \<Rightarrow> Some (JStr (a @ b))
    | (JList a, JList b) \<Rightarrow> Some (JList (a @ b))
    | _ \<Rightarrow> (case (num_of x, num_of y) of
          (Some (m, k), Some (m', k')) \<Rightarrow>
            if k = 0 \<and> k' = 0 then Some (JInt (m + m'))
            else Some (JDec (m * 10 ^ k' + m' * 10 ^ k) (k + k'))
        | _ \<Rightarrow> None))"

fun hashable :: "json \<Rightarrow> bool" where
  "hashable (JList _) \<longleftrightarrow> False"
| "hashable (JObj _) \<longleftrightarrow> False"
| "hashable _ \<longleftrightarrow> True"

text \<open>\<open>int(d.get(k) or 0)\<close>, \<open>str(d.get(k) or s)\<close>, \<open>d.get(k) if isinstance(..., dict) else {}\<close>.\<close>

definition int_field :: "dict \<Rightarrow> str \<Rightarrow> json option" where
  "int_field d k = map_option JInt (py_int (py_or (dict_get d k) (JInt 0)))"

definition text_or :: "dict \<Rightarrow> str \<Rightarrow> str \<Rightarrow> json" where
  "text_or d k s = JStr (py_str (py_or (dict_get d k) (JStr s)))"

definition obj_field :: "dict \<Rightarrow> str \<Rightarrow> dict" where
  "obj_field d k = (case dict_get d k of JObj e \<Rightarrow> e | _ \<Rightarrow> [])"

definition list_field :: "dict \<Rightarrow> str \<Rightarrow> json option" where
  "list_field d k = map_option JList (py_list (py_or (dict_get d k) (JList [])))"

text \<open>The first, or the last, element a test accepts is replaced: the loops with \<open>break\<close>.\<close>

fun update_first :: "('a \<Rightarrow> bool) \<Rightarrow> ('a \<Rightarrow> 'a) \<Rightarrow> 'a list \<Rightarrow> 'a list" where
  "update_first P f [] = []"
| "update_first P f (x # xs) = (if P x then f x # xs else x # update_first P f xs)"

definition update_last :: "('a \<Rightarrow> bool) \<Rightarrow> ('a \<Rightarrow> 'a) \<Rightarrow> 'a list \<Rightarrow> 'a list" where
  "update_last P f xs = rev (update_first P f (rev xs))"

section \<open>run_status.py\<close>

definition TURN_TO_RUN_STATUS :: "(str \<times> str) list" where
  "TURN_TO_RUN_STATUS =
     [(''completed'', ''succeeded''), (''failed'', ''failed''), (''cancelled'', ''cancelled''),
      (''waiting_approval'', ''interrupted''), (''waiting_child'', ''running''),
      (''pending'', ''accepted''), (''running'', ''running'')]"

definition map_turn_to_run_status :: "str \<Rightarrow> str" where
  "map_turn_to_run_status turn_status = or_else (map_of TURN_TO_RUN_STATUS turn_status) ''running''"

definition extract_termination_reason :: "str \<Rightarrow> str \<Rightarrow> dict \<Rightarrow> str option" where
  "extract_termination_reason turn_status terminal_event_type payload =
     (if turn_status \<notin> {''completed'', ''failed'', ''cancelled''} then None
      else if truthy (dict_get payload ''termination_reason'')
        then Some (py_str (dict_get payload ''termination_reason''))
      else if terminal_event_type = ''turn.failed'' then
        Some (if payload = [] then ''fatal_error''
              else py_str (dict_get_default payload ''termination_reason'' (JStr ''fatal_error'')))
      else if terminal_event_type = ''turn.cancelled'' then Some ''cancelled''
      else if turn_status = ''completed'' then Some ''final''
      else None)"

section \<open>File write artifacts\<close>

definition RUNNING_STATUSES :: "str list" where
  "RUNNING_STATUSES = [''pending'', ''running'', ''waiting_approval'', ''waiting_child'']"

definition TERMINAL_STATUS_MAP :: "(str \<times> str) list" where
  "TERMINAL_STATUS_MAP = [(''turn.completed'', ''completed''), (''turn.failed'', ''failed''),
     (''turn.cancelled'', ''cancelled'')]"

definition FILE_PREVIEW_LIMIT :: nat where
  "FILE_PREVIEW_LIMIT = 8000"

definition preview_text :: "str \<Rightarrow> str \<times> bool" where
  "preview_text txt =
     (if length txt \<le> FILE_PREVIEW_LIMIT then (txt, False)
      else (take FILE_PREVIEW_LIMIT txt @ CHR 0x0A # ''...[preview truncated]'', True))"

abbreviation write_tools :: "json set" where
  "write_tools \<equiv> {JStr ''write_file'', JStr ''edit_file''}"

text \<open>\<open>str(payload.get(k) or args.get(k') or "")\<close>\<close>

definition payload_text :: "dict \<Rightarrow> str \<Rightarrow> dict \<Rightarrow> str \<Rightarrow> str" where
  "payload_text payload k args k' =
     py_str (py_or (py_or (dict_get payload k) (dict_get args k')) (JStr []))"

definition file_write_artifact :: "dict \<Rightarrow> str \<Rightarrow> dict option" where
  "file_write_artifact payload status =
     (let tool_name = str_field payload ''tool_name'' in
      if tool_name \<noteq> ''write_file'' \<and> tool_name \<noteq> ''edit_file'' then None
      else
        let args = obj_field payload ''arguments'';
            new_raw = (if tool_name = ''edit_file'' then payload_text payload ''new_text'' args ''new_text''
                       else payload_text payload ''new_text'' args ''content'');
            old_raw = (if tool_name = ''edit_file'' then payload_text payload ''old_text'' args ''old_text''
                       else str_field payload ''old_text'');
            path = py_or (py_or (dict_get payload ''path'') (dict_get args ''path'')) (JStr [])
        in if \<not> truthy path \<and> new_raw = [] \<and> old_raw = [] then None
           else let (new_text, new_trunc) = preview_text new_raw;
                    (old_text, old_trunc) = preview_text old_raw;
                    art = [(''type'', JStr ''file_write''), (''kind'', JStr tool_name),
                       (''tool_name'', JStr tool_name),
                       (''tool_call_id'', dict_get_default payload ''tool_call_id'' (JStr [])),
                       (''path'', path), (''old_text'', JStr old_text), (''new_text'', JStr new_text),
                       (''status'', JStr status), (''truncated'', JBool (new_trunc \<or> old_trunc)),
                       (''new_size'', JInt (int (length new_raw)))]
                in Some (if dict_get payload ''bytes_written'' \<noteq> JNull
                         then dict_set art ''bytes_written'' (dict_get payload ''bytes_written'') else art))"

definition file_write_applied_status :: "json \<Rightarrow> str" where
  "file_write_applied_status payload_status =
     (let st = py_str (py_or payload_status (JStr []))
      in if st \<in> {''ok'', ''edited'', ''written''} then ''applied''
         else if st = [] then ''error'' else st)"

definition is_file_write :: "json \<Rightarrow> dict \<Rightarrow> bool" where
  "is_file_write tool_call_id art \<longleftrightarrow>
     dict_get art ''type'' = JStr ''file_write'' \<and> py_eq (dict_get art ''tool_call_id'') tool_call_id"

text \<open>The update of the artifact found: status, size, and texts the approval event lacked.\<close>

definition apply_file_write :: "dict \<Rightarrow> str \<Rightarrow> dict \<Rightarrow> dict" where
  "apply_file_write payload status art =
     (let art1 = dict_set art ''status'' (JStr status);
          art2 = (if dict_get payload ''bytes_written'' \<noteq> JNull
                  then dict_set art1 ''bytes_written'' (dict_get payload ''bytes_written'') else art1);
          art3 = (if \<not> truthy (dict_get art2 ''old_text'') \<and> truthy (dict_get payload ''old_text'')
                  then let (old_text, old_trunc) = preview_text (str_field payload ''old_text'')
                       in dict_set (dict_set art2 ''old_text'' (JStr old_text)) ''truncated''
                            (JBool (truthy (dict_get art2 ''truncated'') \<or> old_trunc))
                  else art2)
      in if \<not> truthy (dict_get art3 ''new_text'')
            \<and> (truthy (dict_get payload ''new_text'') \<or> truthy (dict_get payload ''arguments''))
         then let args = obj_field payload ''arguments'';
                  new_raw = payload_text payload ''new_text'' args
                    (if dict_get payload ''tool_name'' = JStr ''edit_file'' then ''new_text'' else ''content'')
              in if new_raw = [] then art3
                 else let (new_text, new_trunc) = preview_text new_raw
                      in dict_set (dict_set (dict_set art3 ''new_text'' (JStr new_text))
                           ''new_size'' (JInt (int (length new_raw))))
                           ''truncated'' (JBool (truthy (dict_get art3 ''truncated'') \<or> new_trunc))
         else art3)"

definition mark_file_write_applied :: "dict list \<Rightarrow> dict \<Rightarrow> str \<Rightarrow> dict list option" where
  "mark_file_write_applied artifacts payload status =
     (let tool_name = dict_get payload ''tool_name'' in
      if \<not> hashable tool_name then None
      else if tool_name \<notin> write_tools then Some artifacts
      else let found = is_file_write (dict_get payload ''tool_call_id'')
           in if list_ex found artifacts
              then Some (update_first found (apply_file_write payload status) artifacts)
              else Some (case file_write_artifact payload status of
                           None \<Rightarrow> artifacts | Some art \<Rightarrow> artifacts @ [art]))"

section \<open>The fold\<close>

record turn_event =
  ev_sequence :: int
  ev_type :: str
  ev_payload :: dict

record projection =
  pj_status :: str
  pj_output :: json
  pj_timeline :: "dict list"
  pj_artifacts :: "dict list"
  pj_last_sequence :: int
  pj_drafts :: "(str \<times> str) list"
  pj_steps :: nat
  pj_outcome :: json
  pj_approval :: "dict option"
  pj_reason :: "str option"
  pj_context :: "dict option"
  pj_tokens :: "dict option"

definition start_projection :: "str \<Rightarrow> projection" where
  "start_projection status = \<lparr>pj_status = status, pj_output = JNull, pj_timeline = [], pj_artifacts = [],
     pj_last_sequence = 0, pj_drafts = [], pj_steps = 0, pj_outcome = JNull, pj_approval = None,
     pj_reason = None, pj_context = None, pj_tokens = None\<rparr>"

definition tool_row :: "turn_event \<Rightarrow> dict" where
  "tool_row e =
     [(''tool_call_id'', dict_get_default (ev_payload e) ''tool_call_id''
         (JStr (''tool-'' @ show_int (ev_sequence e)))),
      (''tool_name'', dict_get_default (ev_payload e) ''tool_name'' (JStr ''tool'')),
      (''status'', JStr ''running'')]"

definition has_call_id :: "json \<Rightarrow> dict \<Rightarrow> bool" where
  "has_call_id tool_call_id item \<longleftrightarrow> py_eq (dict_get item ''tool_call_id'') tool_call_id"

definition stream_delta :: "dict \<Rightarrow> dict \<Rightarrow> dict" where
  "stream_delta payload item =
     dict_set item ''stream_output''
       (JStr (py_str (dict_get_default item ''stream_output'' (JStr []))
              @ py_str (dict_get_default payload ''delta'' (JStr []))))"

text \<open>\<open>d[k] = payload.get(k)\<close> when the payload has it.\<close>

definition copy_field :: "dict \<Rightarrow> str \<Rightarrow> dict \<Rightarrow> dict" where
  "copy_field payload k item =
     (if dict_get payload k \<noteq> JNull then dict_set item k (dict_get payload k) else item)"

definition drop_type :: "str \<Rightarrow> dict list \<Rightarrow> dict list" where
  "drop_type t artifacts = filter (\<lambda>a. dict_get a ''type'' \<noteq> JStr t) artifacts"

definition resolve_artifacts :: "dict \<Rightarrow> dict list \<Rightarrow> dict list" where
  "resolve_artifacts payload artifacts =
     (let decision = dict_get_default payload ''decision'' (JStr ''approved'')
      in map (\<lambda>art. if is_file_write (dict_get payload ''tool_call_id'') art
           then dict_set art ''status'' (JStr (if decision = JStr ''approved'' then ''applied'' else ''denied''))
           else art) artifacts)"

text \<open>
  \<open>approval.requested\<close> and \<open>approval.resolved\<close>; \<open>extra\<close> is the \<open>subagent_id\<close> entry of the nested
  form, empty for the parent's own approvals.
\<close>

definition approval_requested :: "dict \<Rightarrow> dict \<Rightarrow> projection \<Rightarrow> projection" where
  "approval_requested extra payload p =
     p\<lparr>pj_status := ''waiting_approval'',
       pj_approval := Some ([(''tool_call_id'', dict_get_default payload ''tool_call_id'' (JStr [])),
          (''tool_name'', dict_get payload ''tool_name''), (''status'', JStr ''pending''),
          (''reason'', JNull)] @ extra),
       pj_artifacts := (case file_write_artifact payload ''pending'' of
          None \<Rightarrow> pj_artifacts p
        | Some art \<Rightarrow> pj_artifacts p @ [dict_update art extra])\<rparr>"

definition approval_resolved :: "dict \<Rightarrow> dict \<Rightarrow> projection \<Rightarrow> projection" where
  "approval_resolved extra payload p =
     (let decision = dict_get_default payload ''decision'' (JStr ''approved'') in
      p\<lparr>pj_status := (if pj_status p \<in> set RUNNING_STATUSES then ''running'' else pj_status p),
        pj_approval := Some ([(''tool_call_id'', dict_get_default payload ''tool_call_id'' (JStr [])),
          (''tool_name'', (case pj_approval p of None \<Rightarrow> JNull | Some a \<Rightarrow> dict_get a ''tool_name'')),
          (''status'', JStr (if decision = JStr ''approved'' then ''approved'' else ''denied'')),
          (''reason'', dict_get payload ''reason'')] @ extra),
        pj_artifacts := resolve_artifacts payload (pj_artifacts p)\<rparr>)"

text \<open>Events of a nested delegate: tools and approvals only, everything else is live UI.\<close>

definition nested_event :: "turn_event \<Rightarrow> projection \<Rightarrow> projection option" where
  "nested_event e p =
     (let payload = ev_payload e; sub = dict_get payload ''subagent_id''; t = ev_type e;
          call_id = dict_get payload ''tool_call_id'' in
      if t = ''tool.started'' then
        Some (p\<lparr>pj_timeline := pj_timeline p @ [tool_row e @ [(''subagent_id'', sub)]]\<rparr>)
      else if t = ''tool.completed'' then do {
        artifacts \<leftarrow> mark_file_write_applied (pj_artifacts p) payload
                       (file_write_applied_status (dict_get payload ''status''));
        Some (p\<lparr>pj_artifacts := artifacts,
          pj_timeline := update_last (has_call_id call_id)
            (\<lambda>item. dict_set (copy_field payload ''policy''
               (dict_set (dict_set item ''status'' (dict_get_default payload ''status'' (JStr ''ok'')))
                 ''summary'' (dict_get payload ''summary''))) ''subagent_id'' sub) (pj_timeline p)\<rparr>)
      }
      else if t = ''tool.delta'' then
        Some (p\<lparr>pj_timeline := update_last (has_call_id call_id) (stream_delta payload) (pj_timeline p)\<rparr>)
      else if t = ''approval.requested'' then Some (approval_requested [(''subagent_id'', sub)] payload p)
      else if t = ''approval.resolved'' then Some (approval_resolved [(''subagent_id'', sub)] payload p)
      else Some p)"

text \<open>The row a completion writes, and where: the last row of its call, a new row, the last row.\<close>

definition complete_row :: "dict \<Rightarrow> dict \<Rightarrow> dict option" where
  "complete_row payload item = do {
     issues \<leftarrow> (if dict_get payload ''delivery_issues'' = JNull then Some None
               else map_option Some (list_field payload ''delivery_issues''));
     let i1 = dict_set (dict_set item ''status'' (dict_get_default payload ''status'' (JStr ''ok'')))
                ''summary'' (dict_get payload ''summary'');
     let i2 = (if truthy (dict_get payload ''tool_name'')
               then dict_set i1 ''tool_name'' (dict_get payload ''tool_name'') else i1);
     let i3 = copy_field payload ''delivery_status'' (copy_field payload ''policy'' i2);
     let i4 = (case issues of None \<Rightarrow> i3 | Some xs \<Rightarrow> dict_set i3 ''delivery_issues'' xs);
     Some (copy_field payload ''bytes_written'' (copy_field payload ''output_path'' i4))
   }"

fun update_last_opt :: "('a \<Rightarrow> bool) \<Rightarrow> ('a \<Rightarrow> 'a option) \<Rightarrow> 'a list \<Rightarrow> 'a list option" where
  "update_last_opt P f [] = Some []"
| "update_last_opt P f (x # xs) =
     (if list_ex P xs then map_option (Cons x) (update_last_opt P f xs)
      else if P x then map_option (\<lambda>y. y # xs) (f x)
      else Some (x # xs))"

definition complete_tool :: "turn_event \<Rightarrow> dict list \<Rightarrow> dict list option" where
  "complete_tool e timeline =
     (let payload = ev_payload e; call_id = dict_get payload ''tool_call_id'' in
      if truthy call_id \<and> list_ex (has_call_id call_id) timeline
        then update_last_opt (has_call_id call_id) (complete_row payload) timeline
      else if truthy call_id \<or> timeline = [] then
        map_option (\<lambda>row. timeline @ [row]) (complete_row payload
          [(''tool_call_id'', py_or call_id (JStr (''tool-'' @ show_int (ev_sequence e)))),
           (''tool_name'', dict_get_default payload ''tool_name'' (JStr ''tool'')),
           (''status'', JStr ''running'')])
      else map_option (\<lambda>row. butlast timeline @ [row]) (complete_row payload (last timeline)))"

definition tool_completed :: "turn_event \<Rightarrow> projection \<Rightarrow> projection option" where
  "tool_completed e p = do {
     let payload = ev_payload e;
     timeline \<leftarrow> complete_tool e (pj_timeline p);
     artifacts \<leftarrow> mark_file_write_applied (pj_artifacts p) payload
                    (file_write_applied_status (dict_get payload ''status''));
     Some (p\<lparr>pj_timeline := timeline, pj_artifacts := artifacts,
       pj_output := (if dict_get payload ''status'' \<noteq> JStr ''skipped''
                     then py_or (dict_get payload ''summary'') (pj_output p) else pj_output p)\<rparr>)
   }"

definition tool_delta :: "dict \<Rightarrow> dict list \<Rightarrow> dict list" where
  "tool_delta payload timeline =
     (let call_id = dict_get payload ''tool_call_id'' in
      if truthy call_id \<and> list_ex (has_call_id call_id) timeline
        then update_last (has_call_id call_id) (stream_delta payload) timeline
      else if timeline = [] then []
      else butlast timeline @ [stream_delta payload (last timeline)])"

definition section_draft_delta :: "dict \<Rightarrow> projection \<Rightarrow> projection" where
  "section_draft_delta payload p =
     (let sid = py_str (dict_get_default payload ''section_id'' (JStr ''01''));
          draft = or_else (map_of (pj_drafts p) sid) []
                  @ py_str (dict_get_default payload ''delta'' (JStr []));
          here = (\<lambda>art. dict_get art ''type'' = JStr ''section_draft'' \<and> dict_get art ''section_id'' = JStr sid)
      in p\<lparr>pj_drafts := dict_set (pj_drafts p) sid draft, pj_output := JStr draft,
           pj_artifacts := (if list_ex here (pj_artifacts p)
             then update_first here (\<lambda>art. dict_set art ''content'' (JStr draft)) (pj_artifacts p)
             else pj_artifacts p @ [[(''type'', JStr ''section_draft''), (''section_id'', JStr sid),
                                     (''content'', JStr draft)]])\<rparr>)"

definition terminal_event :: "turn_event \<Rightarrow> str \<Rightarrow> projection \<Rightarrow> projection" where
  "terminal_event e status p =
     (let payload = ev_payload e;
          p1 = p\<lparr>pj_status := status, pj_reason := extract_termination_reason status (ev_type e) payload\<rparr>
      in if ev_type e = ''turn.failed''
         then p1\<lparr>pj_artifacts := pj_artifacts p1 @ [[(''type'', JStr ''error''),
                    (''termination_reason'', dict_get payload ''termination_reason''),
                    (''message'', dict_get payload ''message'')]],
                 pj_output := py_or (dict_get payload ''message'') (pj_output p1)\<rparr>
         else p1)"

text \<open>\<open>artifacts.append({"type": t, **payload})\<close>, after dropping older ones of the type \<open>t\<close> or not.\<close>

definition add_artifact :: "str \<Rightarrow> dict \<Rightarrow> projection \<Rightarrow> projection" where
  "add_artifact t payload p =
     p\<lparr>pj_artifacts := pj_artifacts p @ [dict_update [(''type'', JStr t)] payload]\<rparr>"

definition replace_artifact :: "str \<Rightarrow> dict \<Rightarrow> projection \<Rightarrow> projection" where
  "replace_artifact t payload p = add_artifact t payload (p\<lparr>pj_artifacts := drop_type t (pj_artifacts p)\<rparr>)"

definition patch_decided :: "dict \<Rightarrow> (dict \<Rightarrow> dict) \<Rightarrow> projection \<Rightarrow> projection" where
  "patch_decided payload f p =
     p\<lparr>pj_artifacts := map (\<lambda>art. if py_eq (dict_get art ''patch_id'') (dict_get payload ''patch_id'')
         then f art else art) (pj_artifacts p)\<rparr>"

definition context_report :: "dict \<Rightarrow> dict option" where
  "context_report payload = do {
     before \<leftarrow> int_field payload ''tokens_before'';
     after \<leftarrow> int_field payload ''tokens_after'';
     budget \<leftarrow> int_field payload ''token_budget'';
     reserve \<leftarrow> int_field payload ''reserve_tokens'';
     fill \<leftarrow> py_float (py_or (dict_get payload ''fill_ratio'') (JDec 0 0));
     strategies \<leftarrow> list_field payload ''strategies'';
     stp \<leftarrow> int_field payload ''step_index'';
     sys \<leftarrow> int_field payload ''system_tokens'';
     tools \<leftarrow> int_field payload ''tools_tokens'';
     msgs \<leftarrow> int_field payload ''messages_tokens'';
     Some [(''tokens_before'', before), (''tokens_after'', after), (''token_budget'', budget),
       (''reserve_tokens'', reserve), (''fill_ratio'', fill), (''strategies'', strategies),
       (''step_index'', stp), (''system_tokens'', sys), (''tools_tokens'', tools),
       (''messages_tokens'', msgs), (''breakdown'', dict_get payload ''breakdown''),
       (''source'', text_or payload ''source'' ''estimated'')]
   }"

definition usage_report :: "dict \<Rightarrow> json \<Rightarrow> dict option" where
  "usage_report usage source = do {
     inp \<leftarrow> int_field usage ''input_tokens'';
     outp \<leftarrow> int_field usage ''output_tokens'';
     Some [(''input_tokens'', inp), (''output_tokens'', outp), (''source'', source)]
   }"

text \<open>The last block of the loop body, for \<open>turn.completed\<close> only.\<close>

definition completed_extras :: "dict \<Rightarrow> projection \<Rightarrow> projection option" where
  "completed_extras payload p = do {
     let p1 = p\<lparr>pj_output := dict_get_default payload ''summary'' (pj_output p)\<rparr>;
     p2 \<leftarrow> (if truthy (dict_get payload ''delivery_status'') then
              map_option (\<lambda>issues. p1\<lparr>pj_artifacts := drop_type ''delivery'' (pj_artifacts p1) @
                 [[(''type'', JStr ''delivery''), (''status'', dict_get payload ''delivery_status''),
                   (''issues'', issues), (''export_path'', dict_get payload ''export_path'')]]\<rparr>)
                (list_field payload ''delivery_issues'')
            else Some p1);
     (case dict_get payload ''token_usage'' of
        JObj usage \<Rightarrow>
          map_option (\<lambda>u. p2\<lparr>pj_tokens := Some u\<rparr>)
            (usage_report usage (JStr (py_str
              (py_or (py_or (dict_get (or_else (pj_tokens p2) []) ''source'') (dict_get usage ''source''))
                 (JStr ''estimated'')))))
      | _ \<Rightarrow> Some p2)
   }"

definition main_event :: "turn_event \<Rightarrow> projection \<Rightarrow> projection option" where
  "main_event e p =
     (let payload = ev_payload e; t = ev_type e in
      if t = ''turn.accepted'' then Some (p\<lparr>pj_status := ''running''\<rparr>)
      else if t = ''approval.requested'' then Some (approval_requested [] payload p)
      else if t = ''approval.resolved'' then Some (approval_resolved [] payload p)
      else if t = ''turn.completed'' then completed_extras payload (terminal_event e ''completed'' p)
      else if t = ''turn.failed'' then Some (terminal_event e ''failed'' p)
      else if t = ''turn.cancelled'' then Some (terminal_event e ''cancelled'' p)
      else if t = ''tool.started'' then Some (p\<lparr>pj_timeline := pj_timeline p @ [tool_row e]\<rparr>)
      else if t = ''tool.completed'' then tool_completed e p
      else if t = ''tool.delta'' then Some (p\<lparr>pj_timeline := tool_delta payload (pj_timeline p)\<rparr>)
      else if t = ''turn.token'' then
        map_option (\<lambda>out. p\<lparr>pj_output := out\<rparr>)
          (py_add (py_or (pj_output p) (JStr [])) (dict_get_default payload ''delta'' (JStr [])))
      else if t = ''section.draft.delta'' then Some (section_draft_delta payload p)
      else if t = ''step.completed'' then
        Some (p\<lparr>pj_steps := pj_steps p + 1,
                pj_outcome := dict_get_default payload ''outcome'' (pj_outcome p)\<rparr>)
      else if t = ''patch.proposed'' then
        Some (p\<lparr>pj_artifacts := pj_artifacts p @
           [dict_set (dict_update [(''type'', JStr ''patch'')] payload) ''status'' (JStr ''pending'')]\<rparr>)
      else if t = ''patch.applied'' then
        Some (patch_decided payload (\<lambda>art. dict_set art ''status'' (JStr ''applied'')) p)
      else if t = ''patch.rejected'' then
        Some (patch_decided payload (\<lambda>art. dict_set (dict_set art ''status'' (JStr ''rejected''))
           ''reject_reason'' (dict_get payload ''reason'')) p)
      else if t = ''outline.updated'' then Some (add_artifact ''outline'' payload p)
      else if t = ''turn.plan'' then Some (replace_artifact ''plan'' payload p)
      else if t = ''opening.ponds'' then Some (replace_artifact ''opening_ponds'' payload p)
      else if t = ''retrieval.completed'' then Some (add_artifact ''retrieval'' payload p)
      else if t = ''cards.pinned'' then Some (replace_artifact ''writing_cards'' payload p)
      else if t = ''subagent.started'' \<or> t = ''subagent.completed'' then
        Some (p\<lparr>pj_artifacts := pj_artifacts p @
           [dict_update [(''type'', JStr ''subagent''), (''event'', JStr t)] payload]\<rparr>)
      else if t = ''context.reported'' then map_option (\<lambda>c. p\<lparr>pj_context := Some c\<rparr>) (context_report payload)
      else if t = ''usage.reported'' then
        map_option (\<lambda>u. p\<lparr>pj_tokens := Some u\<rparr>)
          (usage_report payload (text_or payload ''source'' ''estimated''))
      else Some p)"

definition is_nested :: "turn_event \<Rightarrow> bool" where
  "is_nested e \<longleftrightarrow> truthy (dict_get (ev_payload e) ''subagent_id'')
     \<and> ev_type e \<noteq> ''subagent.started'' \<and> ev_type e \<noteq> ''subagent.completed''"

definition project_event :: "projection \<Rightarrow> turn_event \<Rightarrow> projection option" where
  "project_event p e =
     (let p = p\<lparr>pj_last_sequence := ev_sequence e\<rparr>
      in if is_nested e then nested_event e p else main_event e p)"

fun project_events :: "projection \<Rightarrow> turn_event list \<Rightarrow> projection option" where
  "project_events p [] = Some p"
| "project_events p (e # es) = (case project_event p e of None \<Rightarrow> None | Some p' \<Rightarrow> project_events p' es)"

definition finish_projection :: "projection \<Rightarrow> projection" where
  "finish_projection p =
     (let a1 = pj_artifacts p @ (if pj_steps p > 0 then [[(''type'', JStr ''progress''),
            (''steps_completed'', JInt (int (pj_steps p))), (''last_outcome'', pj_outcome p)]] else []);
          a2 = (case pj_context p of None \<Rightarrow> a1 | Some c \<Rightarrow>
                  drop_type ''context_usage'' a1 @ [dict_update [(''type'', JStr ''context_usage'')] c]);
          a3 = (case pj_tokens p of None \<Rightarrow> a2 | Some u \<Rightarrow>
                  drop_type ''token_usage'' a2 @ [dict_update [(''type'', JStr ''token_usage'')] u])
      in p\<lparr>pj_artifacts := a3\<rparr>)"

section \<open>The tables\<close>

text \<open>The rows of one turn in \<open>turn_views\<close>, \<open>turns\<close>, \<open>runs\<close> and \<open>approval_views\<close>.\<close>

record turn_view_row =
  tv_status :: str
  tv_output :: json
  tv_timeline :: "dict list"
  tv_artifacts :: "dict list"
  tv_sequence :: int

record turn_tables =
  tt_status :: str
  tt_run_status :: str
  tt_run_reason :: "str option"
  tt_view :: "turn_view_row option"
  tt_approval :: "dict option"

definition view_of :: "projection \<Rightarrow> turn_view_row" where
  "view_of p = \<lparr>tv_status = pj_status p, tv_output = pj_output p, tv_timeline = pj_timeline p,
     tv_artifacts = pj_artifacts p, tv_sequence = pj_last_sequence p\<rparr>"

text \<open>The read and the fold of \<open>_project_turn_impl\<close>; None for no event or an exception.\<close>

definition read_projection :: "turn_tables \<Rightarrow> turn_event list \<Rightarrow> projection option" where
  "read_projection db rows =
     (if rows = [] then None
      else map_option finish_projection (project_events (start_projection (tt_status db)) rows))"

text \<open>\<open>tool_name = COALESCE(EXCLUDED.tool_name, approval_views.tool_name)\<close> and the other columns.\<close>

definition merge_approval :: "dict option \<Rightarrow> dict \<Rightarrow> dict" where
  "merge_approval old new =
     (let tool_name = dict_get new ''tool_name'';
          old_name = (case old of None \<Rightarrow> JNull | Some o' \<Rightarrow> dict_get o' ''tool_name'')
      in [(''tool_call_id'', dict_get new ''tool_call_id''),
          (''tool_name'', if tool_name \<noteq> JNull then tool_name else old_name),
          (''status'', dict_get new ''status''), (''reason'', dict_get new ''reason'')])"

text \<open>The transaction: \<open>turns\<close> and \<open>runs\<close> always, the view unless it is newer.\<close>

definition write_projection :: "turn_tables \<Rightarrow> projection \<Rightarrow> turn_tables" where
  "write_projection db p =
     db\<lparr>tt_status := pj_status p,
        tt_run_status := map_turn_to_run_status (pj_status p),
        tt_run_reason := (case pj_reason p of Some r \<Rightarrow> Some r | None \<Rightarrow> tt_run_reason db),
        tt_view := (case tt_view db of
            None \<Rightarrow> Some (view_of p)
          | Some v \<Rightarrow> if tv_sequence v \<le> pj_last_sequence p then Some (view_of p) else Some v),
        tt_approval := (case pj_approval p of
            None \<Rightarrow> tt_approval db | Some a \<Rightarrow> Some (merge_approval (tt_approval db) a))\<rparr>"

definition project_turn :: "turn_tables \<Rightarrow> turn_event list \<Rightarrow> turn_tables option" where
  "project_turn db rows =
     (if rows = [] then Some db
      else map_option (write_projection db) (read_projection db rows))"




section \<open>The view the client gets\<close>

definition find_running :: "dict list \<Rightarrow> json option" where
  "find_running timeline =
     (case filter (\<lambda>item. dict_get item ''status'' = JStr ''running'') (rev timeline) of
        [] \<Rightarrow> None
      | item # _ \<Rightarrow> Some (dict_get_default item ''tool_call_id'' (JStr [])))"

definition view_interrupt :: "turn_tables \<Rightarrow> turn_view_row \<Rightarrow> dict option" where
  "view_interrupt db v =
     (let approval = or_else (tt_approval db) [];
          pending = dict_get approval ''status'' \<in> {JNull, JStr ''pending''};
          call_id = dict_get approval ''tool_call_id'';
          interrupt = (if tv_status v = ''waiting_approval'' \<and> pending then
             (if truthy call_id then
                Some [(''kind'', JStr ''approval''), (''tool_call_id'', call_id),
                      (''tool_name'', dict_get approval ''tool_name'')]
              else (case find_running (tv_timeline v) of
                  Some c \<Rightarrow> Some [(''kind'', JStr ''approval''), (''tool_call_id'', c)]
                | None \<Rightarrow> if tv_artifacts v \<noteq> []
                    then Some [(''kind'', JStr ''approval''), (''tool_call_id'', JStr ''pending'')] else None))
             else None)
      in if tv_status v = ''waiting_child''
         then Some [(''kind'', JStr ''child''), (''tool_call_id'', JStr ''pending'')] else interrupt)"

definition display_artifacts :: "dict list \<Rightarrow> dict list" where
  "display_artifacts artifacts = drop_type ''token_usage'' (drop_type ''context_usage'' artifacts)"

definition cancellable :: "turn_view_row \<Rightarrow> bool" where
  "cancellable v \<longleftrightarrow> tv_status v \<in> set RUNNING_STATUSES"

section \<open>Facts\<close>

text \<open>The event types that change the status, outside nested delegates and inside.\<close>

definition status_event :: "turn_event \<Rightarrow> bool" where
  "status_event e \<longleftrightarrow> ev_type e \<in> {''turn.accepted'', ''approval.requested'', ''approval.resolved'',
     ''turn.completed'', ''turn.failed'', ''turn.cancelled''}"

lemma map_option_Some_iff: "map_option f x = Some y \<longleftrightarrow> (\<exists>z. x = Some z \<and> y = f z)"
  by (cases x) auto

lemma nested_status:
  "nested_event e p = Some p' \<Longrightarrow> \<not> status_event e \<Longrightarrow> pj_status p' = pj_status p"
  by (auto simp: nested_event_def status_event_def Let_def split: if_splits bind_splits)

lemma main_status:
  "main_event e p = Some p' \<Longrightarrow> \<not> status_event e \<Longrightarrow> pj_status p' = pj_status p"
  by (auto simp: main_event_def status_event_def Let_def map_option_Some_iff tool_completed_def
      section_draft_delta_def patch_decided_def add_artifact_def replace_artifact_def
      split: if_splits bind_splits)

lemma project_status:
  "project_events p es = Some p' \<Longrightarrow> \<forall>e \<in> set es. \<not> status_event e \<Longrightarrow> pj_status p' = pj_status p"
proof (induction es arbitrary: p)
  case (Cons e es)
  then obtain q where q: "project_event p e = Some q" "project_events q es = Some p'"
    by (auto split: option.splits)
  have "pj_status q = pj_status p"
    using q(1) Cons.prems(2) nested_status main_status
    by (fastforce simp: project_event_def Let_def split: if_splits)
  with Cons q show ?case by simp
qed simp

text \<open>The fold never returns to the initial status.\<close>

lemma main_begun: "main_event e p = Some p' \<Longrightarrow> pj_status p \<noteq> ''pending'' \<Longrightarrow> pj_status p' \<noteq> ''pending''"
proof (cases "status_event e")
  case True
  moreover assume "main_event e p = Some p'" "pj_status p \<noteq> ''pending''"
  ultimately show ?thesis
    by (auto simp: main_event_def status_event_def Let_def approval_requested_def approval_resolved_def
        terminal_event_def completed_extras_def map_option_Some_iff split: if_splits bind_splits json.splits)
qed (auto dest: main_status)

lemma nested_begun: "nested_event e p = Some p' \<Longrightarrow> pj_status p \<noteq> ''pending'' \<Longrightarrow> pj_status p' \<noteq> ''pending''"
  by (auto simp: nested_event_def approval_requested_def approval_resolved_def Let_def
      split: if_splits bind_splits)

lemma project_begun:
  "project_events p es = Some p' \<Longrightarrow> pj_status p \<noteq> ''pending'' \<Longrightarrow> pj_status p' \<noteq> ''pending''"
proof (induction es arbitrary: p)
  case (Cons e es)
  then obtain q where q: "project_event p e = Some q" "project_events q es = Some p'"
    by (auto split: option.splits)
  have "pj_status q \<noteq> ''pending''"
    using q(1) Cons.prems(2) by (auto simp: project_event_def Let_def dest: main_begun nested_begun split: if_splits)
  with Cons.IH q(2) show ?case by blast
qed simp

lemma finish_fields [simp]:
  "pj_status (finish_projection p) = pj_status p"
  "pj_last_sequence (finish_projection p) = pj_last_sequence p"
  by (simp_all add: finish_projection_def Let_def)

lemma complete_row_id: "complete_row payload item = Some row \<Longrightarrow> dict_get row ''tool_call_id'' = dict_get item ''tool_call_id''"
  by (auto simp: complete_row_def copy_field_def Let_def split: bind_splits if_splits option.splits)

lemma complete_row_status:
  "complete_row payload item = Some row
     \<Longrightarrow> dict_get row ''status'' = dict_get_default payload ''status'' (JStr ''ok'')"
  by (auto simp: complete_row_def copy_field_def Let_def split: bind_splits if_splits option.splits)

lemma update_last_opt_others:
  assumes "update_last_opt P f xs = Some ys" and "\<And>x y. P x \<Longrightarrow> f x = Some y \<Longrightarrow> P y"
  shows "filter (\<lambda>x. \<not> P x) ys = filter (\<lambda>x. \<not> P x) xs \<and> length ys = length xs"
  using assms(1)
  by (induction xs arbitrary: ys) (auto simp: map_option_Some_iff dest: assms(2) split: if_splits)

lemma update_last_opt_hit:
  assumes "update_last_opt P f xs = Some ys" and "list_ex P xs"
  obtains x y where "x \<in> set xs" "P x" "f x = Some y" "y \<in> set ys"
  using assms
proof (induction xs arbitrary: ys thesis)
  case (Cons a xs)
  show ?case
  proof (cases "list_ex P xs")
    case True
    with Cons.prems(2) obtain zs where "update_last_opt P f xs = Some zs" "ys = a # zs"
      by (auto simp: map_option_Some_iff)
    with Cons.IH [of zs] True Cons.prems(1) show ?thesis by auto
  next
    case False
    with Cons.prems(2,3) obtain z where "P a" "f a = Some z" "ys = z # xs"
      by (auto simp: map_option_Some_iff)
    then show ?thesis by (intro Cons.prems(1) [of a z]) simp_all
  qed
qed simp

text \<open>A completion with a call id touches the rows of that id, or adds one.\<close>

lemma complete_tool_rows:
  assumes "complete_tool e timeline = Some timeline'"
    and "dict_get (ev_payload e) ''tool_call_id'' = JStr cid" "cid \<noteq> []"
  shows "filter (\<lambda>r. \<not> has_call_id (JStr cid) r) timeline' = filter (\<lambda>r. \<not> has_call_id (JStr cid) r) timeline
     \<and> (\<exists>r \<in> set timeline'. has_call_id (JStr cid) r
          \<and> dict_get r ''status'' = dict_get_default (ev_payload e) ''status'' (JStr ''ok''))"
proof (cases "list_ex (has_call_id (JStr cid)) timeline")
  case True
  with assms have u: "update_last_opt (has_call_id (JStr cid)) (complete_row (ev_payload e)) timeline = Some timeline'"
    by (simp add: complete_tool_def)
  have keep: "has_call_id (JStr cid) y" if "has_call_id (JStr cid) x" "complete_row (ev_payload e) x = Some y" for x y
    using that complete_row_id [OF that(2)] by (simp add: has_call_id_def)
  obtain x y where y: "has_call_id (JStr cid) x" "complete_row (ev_payload e) x = Some y" "y \<in> set timeline'"
    by (rule update_last_opt_hit [OF u True])
  have "filter (\<lambda>r. \<not> has_call_id (JStr cid) r) timeline' = filter (\<lambda>r. \<not> has_call_id (JStr cid) r) timeline"
    using update_last_opt_others [OF u] keep by simp
  with keep [OF y(1,2)] complete_row_status [OF y(2)] y(3) show ?thesis by auto
next
  case False
  have "complete_tool e timeline = map_option (\<lambda>row. timeline @ [row]) (complete_row (ev_payload e)
      [(''tool_call_id'', JStr cid),
       (''tool_name'', dict_get_default (ev_payload e) ''tool_name'' (JStr ''tool'')),
       (''status'', JStr ''running'')])"
    using False assms(2,3) by (simp add: complete_tool_def Let_def)
  with assms(1) obtain row where row: "timeline' = timeline @ [row]"
    "complete_row (ev_payload e) [(''tool_call_id'', JStr cid),
        (''tool_name'', dict_get_default (ev_payload e) ''tool_name'' (JStr ''tool'')),
        (''status'', JStr ''running'')] = Some row"
    by (auto simp: map_option_Some_iff)
  have "has_call_id (JStr cid) row"
    using complete_row_id [OF row(2)] by (simp add: has_call_id_def py_eq_def)
  with row complete_row_status [OF row(2)] show ?thesis by simp
qed




lemma read_projection_begun:
  "read_projection db es = Some p \<Longrightarrow> tt_status db \<noteq> ''pending'' \<Longrightarrow> pj_status p \<noteq> ''pending''"
  using project_begun [of "start_projection (tt_status db)"]
  by (auto simp: read_projection_def map_option_Some_iff start_projection_def split: if_splits)

lemma write_view:
  "tt_view (write_projection db p) = (case tt_view db of None \<Rightarrow> Some (view_of p)
     | Some v \<Rightarrow> if tv_sequence v \<le> pj_last_sequence p then Some (view_of p) else Some v)"
  by (simp add: write_projection_def)

lemma view_of_sequence [simp]: "tv_sequence (view_of p) = pj_last_sequence p"
  by (simp add: view_of_def)

section \<open>Properties\<close>

text \<open>
  C10: the view is the newest projection. From the view row that the creation of the turn
  inserts (sequence 0), or any later one: however many projectors read different prefixes of
  the log, and in whatever order their transactions commit, the stored view is that row or one
  of the projections written, and none of them has a higher sequence number.
\<close>

theorem view_is_newest_projection:
  assumes "tt_view db = Some v"
  shows "\<exists>w \<in> set (v # map view_of ps). tt_view (foldl write_projection db ps) = Some w
     \<and> (\<forall>u \<in> set (v # map view_of ps). tv_sequence u \<le> tv_sequence w)"
proof (induction ps rule: rev_induct)
  case Nil
  with assms show ?case by simp
next
  case (snoc q ps)
  then obtain w where w: "w \<in> set (v # map view_of ps)" "tt_view (foldl write_projection db ps) = Some w"
    "\<forall>u \<in> set (v # map view_of ps). tv_sequence u \<le> tv_sequence w" by blast
  show ?case
  proof (cases "tv_sequence w \<le> pj_last_sequence q")
    case True
    with w have "tt_view (foldl write_projection db (ps @ [q])) = Some (view_of q)"
      by (simp add: write_view)
    with w(3) True show ?thesis by (intro bexI [of _ "view_of q"]) auto
  next
    case False
    with w have "tt_view (foldl write_projection db (ps @ [q])) = Some w"
      by (simp add: write_view)
    with w False show ?thesis by (intro bexI [of _ w]) auto
  qed
qed


text \<open>
  A projection loses \<open>waiting_child\<close>. No event carries that status: the runtime writes it
  into \<open>turns\<close> directly. The log of a turn starts with \<open>turn.accepted\<close>, so a projection made while
  the children run (a read of the view after one of their events) sets the turn back to
  \<open>running\<close>, and the stall watchdog no longer spares it.
\<close>

theorem projection_overwrites_waiting_child:
  assumes "ev_type e = ''turn.accepted''" "\<not> truthy (dict_get (ev_payload e) ''subagent_id'')"
    and "\<forall>x \<in> set es. \<not> status_event x"
    and "project_turn (db\<lparr>tt_status := ''waiting_child''\<rparr>) (e # es) = Some db'"
  shows "tt_status db' = ''running''"
proof -
  have first: "project_event p e = Some (p\<lparr>pj_last_sequence := ev_sequence e, pj_status := ''running''\<rparr>)" for p
    using assms(1,2) by (simp add: project_event_def is_nested_def main_event_def)
  obtain p where p: "project_events (start_projection ''waiting_child'') (e # es) = Some p"
    "db' = write_projection (db\<lparr>tt_status := ''waiting_child''\<rparr>) (finish_projection p)"
    using assms(4) by (auto simp: project_turn_def read_projection_def map_option_Some_iff)
  then have "pj_status p = ''running''"
    using project_status [OF _ assms(3)] by (fastforce simp: first)
  with p show ?thesis by (simp add: write_projection_def)
qed

text \<open>
  A nested delegate leaves the parent's meters alone. An event that carries a subagent id
  never changes the parent's output, step count, drafts, context and token usage or
  termination reason, and changes its status only for an approval.
\<close>

theorem nested_events_keep_parent_meters:
  assumes "is_nested e" and "project_event p e = Some p'"
  shows "pj_output p' = pj_output p \<and> pj_steps p' = pj_steps p \<and> pj_outcome p' = pj_outcome p
     \<and> pj_drafts p' = pj_drafts p \<and> pj_context p' = pj_context p \<and> pj_tokens p' = pj_tokens p
     \<and> pj_reason p' = pj_reason p
     \<and> (pj_status p' = pj_status p \<or> ev_type e \<in> {''approval.requested'', ''approval.resolved''})"
  using assms
  by (auto simp: project_event_def nested_event_def approval_requested_def approval_resolved_def Let_def
      split: if_splits bind_splits)

text \<open>
  A completion never overwrites the row of another call. A \<open>tool.completed\<close> that names a
  call leaves every timeline row of the other calls as it was, in order, and afterwards a row
  of this call holds the reported status.
\<close>

theorem completion_keeps_other_rows:
  assumes "project_event p e = Some p'" and "ev_type e = ''tool.completed''" and "\<not> is_nested e"
    and "dict_get (ev_payload e) ''tool_call_id'' = JStr cid" "cid \<noteq> []"
  shows "filter (\<lambda>r. \<not> has_call_id (JStr cid) r) (pj_timeline p')
       = filter (\<lambda>r. \<not> has_call_id (JStr cid) r) (pj_timeline p)
     \<and> (\<exists>r \<in> set (pj_timeline p'). has_call_id (JStr cid) r
          \<and> dict_get r ''status'' = dict_get_default (ev_payload e) ''status'' (JStr ''ok''))"
proof -
  have "complete_tool e (pj_timeline p) = Some (pj_timeline p')"
    using assms(1-3) by (auto simp: project_event_def main_event_def tool_completed_def Let_def split: bind_splits)
  from complete_tool_rows [OF this assms(4,5)] show ?thesis .
qed

section \<open>A sample turn\<close>

definition sample_event :: "int \<Rightarrow> str \<Rightarrow> dict \<Rightarrow> turn_event" where
  "sample_event n t payload = \<lparr>ev_sequence = n, ev_type = t, ev_payload = payload\<rparr>"

definition sample_log :: "turn_event list" where
  "sample_log = [sample_event 1 ''turn.accepted'' [],
     sample_event 2 ''tool.started'' [(''tool_call_id'', JStr ''c1''), (''tool_name'', JStr ''read_file'')]]"

definition sample_tables :: turn_tables where
  "sample_tables = \<lparr>tt_status = ''pending'', tt_run_status = ''running'', tt_run_reason = None,
     tt_view = Some \<lparr>tv_status = ''pending'', tv_output = JNull, tv_timeline = [], tv_artifacts = [],
       tv_sequence = 0\<rparr>, tt_approval = None\<rparr>"

definition sample_end :: turn_event where
  "sample_end = sample_event 3 ''turn.completed'' [(''summary'', JStr ''done'')]"

definition sample_stale :: projection where
  "sample_stale = the (read_projection sample_tables sample_log)"

definition sample_whole :: projection where
  "sample_whole = the (read_projection sample_tables (sample_log @ [sample_end]))"


lemma sample_sequences: "pj_last_sequence sample_stale = 2" "pj_last_sequence sample_whole = 3"
  by code_simp+

lemma view_is_newest_projection_witness:
  "tt_view (foldl write_projection sample_tables [sample_whole, sample_stale]) = Some (view_of sample_whole)"
  using view_is_newest_projection [of sample_tables "the (tt_view sample_tables)" "[sample_whole, sample_stale]"]
  by (auto simp: sample_tables_def sample_sequences)


lemma projection_overwrites_waiting_child_witness:
  "\<exists>db'. project_turn (sample_tables\<lparr>tt_status := ''waiting_child''\<rparr>) sample_log = Some db'
     \<and> tt_status db' = ''running''"
proof -
  have quiet: "\<forall>x \<in> set (tl sample_log). \<not> status_event x"
    by (simp add: sample_log_def sample_event_def status_event_def)
  have "project_turn (sample_tables\<lparr>tt_status := ''waiting_child''\<rparr>) sample_log \<noteq> None"
    by code_simp
  then obtain db' where "project_turn (sample_tables\<lparr>tt_status := ''waiting_child''\<rparr>) sample_log = Some db'"
    by blast
  then show ?thesis
    using projection_overwrites_waiting_child [of "hd sample_log" "tl sample_log" sample_tables db'] quiet
    by (simp add: sample_log_def sample_event_def)
qed

lemma nested_events_keep_parent_meters_witness:
  "\<exists>p'. project_event sample_whole (sample_event 4 ''turn.token''
       [(''subagent_id'', JStr ''s1''), (''delta'', JStr ''x'')]) = Some p'
    \<and> pj_output p' = pj_output sample_whole"
proof -
  let ?e = "sample_event 4 ''turn.token'' [(''subagent_id'', JStr ''s1''), (''delta'', JStr ''x'')]"
  have n: "is_nested ?e" by (simp add: is_nested_def sample_event_def)
  have "project_event sample_whole ?e = Some (sample_whole\<lparr>pj_last_sequence := 4\<rparr>)"
    using n by (simp add: project_event_def nested_event_def sample_event_def)
  with nested_events_keep_parent_meters [OF n this] show ?thesis by auto
qed

lemma completion_keeps_other_rows_witness:
  "\<exists>p'. project_event sample_stale (sample_event 3 ''tool.completed''
       [(''tool_call_id'', JStr ''c2''), (''tool_name'', JStr ''verify_receipt'')]) = Some p'
    \<and> filter (\<lambda>r. \<not> has_call_id (JStr ''c2'') r) (pj_timeline p')
       = filter (\<lambda>r. \<not> has_call_id (JStr ''c2'') r) (pj_timeline sample_stale)"
proof -
  let ?e = "sample_event 3 ''tool.completed'' [(''tool_call_id'', JStr ''c2''), (''tool_name'', JStr ''verify_receipt'')]"
  have "project_event sample_stale ?e \<noteq> None" by code_simp
  then obtain p' where p': "project_event sample_stale ?e = Some p'" by blast
  have "\<not> is_nested ?e" by (simp add: is_nested_def sample_event_def)
  with completion_keeps_other_rows [OF p'] p' show ?thesis
    by (simp add: sample_event_def)
qed

end
