(* ===== verification/RunStore.thy ===== *)
theory RunStore
  imports Projector
begin

text \<open>
  The life of a run in the tables \<open>turns\<close>, \<open>runs\<close> and \<open>turn_events\<close>. One row holds a run with the
  columns of its turn and its events; a table is a list of rows and an
  \<open>UPDATE ... WHERE\<close> is \<open>update_where\<close>. From services/runtime: \<open>controller/run_lock.py\<close> (claim,
  lease, cancel flags), \<open>controller/turn_dispatch.py\<close> (pull), \<open>controller/child_join.py\<close> and the
  write-backs of \<open>controller/turn_controller.py\<close>; from services/api: \<open>resource/turns.py\<close>,
  \<open>command/admission.py\<close>, \<open>projection/lease_reclaim.py\<close>, \<open>claim_timeout.py\<close> and
  \<open>event_sequence.py\<close>, \<open>events_retention.py\<close>, \<open>event_partitions.py\<close> and the projector. Identifiers
  are numbers, times are seconds. Notifications, metrics, the key escrow, the texts of the turn and
  the deletion of whole sessions are left out.
\<close>

section \<open>Rows\<close>

record run_row =
  rn_run :: nat
  rn_turn :: nat
  rn_session :: nat
  rn_owner :: "nat option"
  rn_request :: "nat option"
  rn_status :: str
  rn_turn_status :: str
  rn_runner :: "str option"
  rn_lease :: "int option"
  rn_pull :: bool
  rn_created :: int
  rn_cancel :: "int option"
  rn_force :: bool
  rn_reason :: "str option"
  rn_phase :: "str option"
  rn_intent :: "dict option"
  rn_ops_eval :: bool
  rn_mode :: "str option"
  rn_events :: "turn_event list"

type_synonym run_table = "run_row list"

definition update_where :: "(run_row \<Rightarrow> bool) \<Rightarrow> (run_row \<Rightarrow> run_row) \<Rightarrow> run_table \<Rightarrow> run_table" where
  "update_where P f rows = map (\<lambda>r. if P r then f r else r) rows"

definition count_where :: "(run_row \<Rightarrow> bool) \<Rightarrow> run_table \<Rightarrow> nat" where
  "count_where P rows = length (filter P rows)"

section \<open>event_sequence.py\<close>

definition next_sequence :: "turn_event list \<Rightarrow> int" where
  "next_sequence events = foldr max (map ev_sequence events) 0 + 1"

text \<open>\<open>append_event\<close> and \<open>insert_terminal_event\<close>: the event of the next sequence number.\<close>

definition insert_event :: "str \<Rightarrow> dict \<Rightarrow> run_row \<Rightarrow> run_row" where
  "insert_event event_type payload r = r\<lparr>rn_events := rn_events r
     @ [\<lparr>ev_sequence = next_sequence (rn_events r), ev_type = event_type, ev_payload = payload\<rparr>]\<rparr>"

section \<open>Settings\<close>

record run_settings =
  st_runner :: str
  st_lease_enabled :: bool
  st_lease_seconds :: int
  st_touch_gap :: int
  st_dispatch :: str
  st_claim_timeout :: int
  st_queue_max :: int
  st_tenant_max :: int
  st_max_inflight :: int

definition lease_seconds :: "run_settings \<Rightarrow> int" where
  "lease_seconds cfg = max 1 (if st_lease_seconds cfg = 0 then 180 else st_lease_seconds cfg)"

definition pull_enabled :: "run_settings \<Rightarrow> bool" where
  "pull_enabled cfg \<longleftrightarrow> lower (strip (if st_dispatch cfg = [] then ''push'' else st_dispatch cfg)) = ''pull''"

section \<open>run_lock.py\<close>

text \<open>\<open>runner_id or settings.runtime_runner_id\<close>\<close>

definition owner_of :: "run_settings \<Rightarrow> str option \<Rightarrow> str" where
  "owner_of cfg runner_id = (case runner_id of Some (c # cs) \<Rightarrow> c # cs | _ \<Rightarrow> st_runner cfg)"

definition claimable :: "nat \<Rightarrow> run_row \<Rightarrow> bool" where
  "claimable run_id r \<longleftrightarrow> rn_run r = run_id \<and> rn_status r = ''accepted''"

definition claim_row :: "run_settings \<Rightarrow> int \<Rightarrow> str \<Rightarrow> run_row \<Rightarrow> run_row" where
  "claim_row cfg now owner r =
     (let r1 = r\<lparr>rn_status := ''running'', rn_runner := Some owner\<rparr>
      in if st_lease_enabled cfg then r1\<lparr>rn_lease := Some (now + lease_seconds cfg)\<rparr> else r1)"

definition ensure_run_owned_by_runner ::
  "run_settings \<Rightarrow> int \<Rightarrow> nat \<Rightarrow> str option \<Rightarrow> run_table \<Rightarrow> bool \<times> run_table" where
  "ensure_run_owned_by_runner cfg now run_id runner_id rows =
     (let owner = owner_of cfg runner_id
      in (list_ex (claimable run_id) rows, update_where (claimable run_id) (claim_row cfg now owner) rows))"

definition renewable :: "str \<Rightarrow> run_row \<Rightarrow> bool" where
  "renewable owner r \<longleftrightarrow> rn_runner r = Some owner \<and> rn_status r \<in> {''running'', ''interrupted''}"

definition renew_run_leases ::
  "run_settings \<Rightarrow> int \<Rightarrow> str option \<Rightarrow> nat list option \<Rightarrow> run_table \<Rightarrow> nat \<times> run_table" where
  "renew_run_leases cfg now runner_id run_ids rows =
     (let owner = owner_of cfg runner_id;
          P = (\<lambda>r. renewable owner r \<and> (case run_ids of None \<Rightarrow> True | Some ids \<Rightarrow> rn_run r \<in> set ids))
      in if \<not> st_lease_enabled cfg \<or> run_ids = Some [] then (0, rows)
         else (count_where P rows,
               update_where P (\<lambda>r. r\<lparr>rn_lease := Some (now + lease_seconds cfg)\<rparr>) rows))"

text \<open>
  \<open>touch_run_lease\<close> with its table of last touches. The gap is \<open>max(0.5, min_gap)\<close> seconds; the
  clock here counts whole seconds, so half a second is rounded up.
\<close>

definition touch_run_lease ::
  "run_settings \<Rightarrow> int \<Rightarrow> nat \<Rightarrow> bool \<Rightarrow> (nat \<rightharpoonup> int) \<Rightarrow> run_table \<Rightarrow> bool \<times> (nat \<rightharpoonup> int) \<times> run_table" where
  "touch_run_lease cfg now run_id force touched rows =
     (let gap = max 1 (if st_touch_gap cfg = 0 then 5 else st_touch_gap cfg);
          recent = (case touched run_id of None \<Rightarrow> False | Some t \<Rightarrow> now - t < gap);
          P = (\<lambda>r. rn_run r = run_id \<and> renewable (st_runner cfg) r)
      in if \<not> st_lease_enabled cfg \<or> (\<not> force \<and> recent) then (False, touched, rows)
         else (list_ex P rows, touched(run_id \<mapsto> now),
               update_where P (\<lambda>r. r\<lparr>rn_lease := Some (now + lease_seconds cfg)\<rparr>) rows))"

definition persist_cancel_request :: "int \<Rightarrow> nat \<Rightarrow> bool \<Rightarrow> run_table \<Rightarrow> run_table" where
  "persist_cancel_request now turn_id force rows =
     update_where (\<lambda>r. rn_turn r = turn_id)
       (\<lambda>r. r\<lparr>rn_cancel := Some (or_else (rn_cancel r) now), rn_force := (force \<or> rn_force r)\<rparr>) rows"

definition read_cancel_state :: "nat \<Rightarrow> run_table \<Rightarrow> bool \<times> bool" where
  "read_cancel_state turn_id rows =
     (case filter (\<lambda>r. rn_turn r = turn_id) rows of
        r # _ \<Rightarrow> if rn_cancel r \<noteq> None then (True, rn_force r) else (False, False)
      | [] \<Rightarrow> (False, False))"

section \<open>lease_reclaim.py and claim_timeout.py\<close>

definition RECLAIM_BATCH :: nat where
  "RECLAIM_BATCH = 50"

definition lease_expired :: "int \<Rightarrow> run_row \<Rightarrow> bool" where
  "lease_expired now r \<longleftrightarrow> rn_status r \<in> {''running'', ''interrupted''}
     \<and> (case rn_lease r of None \<Rightarrow> False | Some t \<Rightarrow> t < now)"

text \<open>The message names the runner and is a parameter, as it holds a dash that is not ASCII.\<close>

definition reclaim_row :: "str \<Rightarrow> run_row \<Rightarrow> run_row" where
  "reclaim_row message r = insert_event ''turn.failed''
     [(''termination_reason'', JStr ''runner_lost''), (''message'', JStr (take 1024 message))]
     (r\<lparr>rn_status := ''failed'', rn_reason := Some ''runner_lost'', rn_lease := None,
        rn_turn_status := ''failed''\<rparr>)"

text \<open>The rows the query picks, oldest lease first, then one transaction per row.\<close>

definition expired_runs :: "int \<Rightarrow> run_table \<Rightarrow> run_row list" where
  "expired_runs now rows = take RECLAIM_BATCH (sort_key (\<lambda>r. or_else (rn_lease r) 0)
     (filter (\<lambda>r. lease_expired now r
        \<and> rn_turn_status r \<in> {''pending'', ''running'', ''waiting_approval'', ''waiting_child''}) rows))"

definition reclaim_one :: "int \<Rightarrow> str \<Rightarrow> nat \<Rightarrow> run_table \<Rightarrow> run_table" where
  "reclaim_one now message run_id rows =
     update_where (\<lambda>r. rn_run r = run_id \<and> lease_expired now r) (reclaim_row message) rows"

definition reconcile_expired_leases ::
  "run_settings \<Rightarrow> int \<Rightarrow> (run_row \<Rightarrow> str) \<Rightarrow> run_table \<Rightarrow> run_table" where
  "reconcile_expired_leases cfg now message rows =
     (if \<not> st_lease_enabled cfg then rows
      else fold (\<lambda>r. reclaim_one now (message r) (rn_run r)) (expired_runs now rows) rows)"

definition timeout_row :: "str \<Rightarrow> run_row \<Rightarrow> run_row" where
  "timeout_row message r = insert_event ''turn.failed''
     [(''termination_reason'', JStr ''start_timeout''), (''message'', JStr message)]
     (r\<lparr>rn_status := ''failed'', rn_reason := Some ''start_timeout'', rn_turn_status := ''failed''\<rparr>)"

definition unclaimed :: "run_row \<Rightarrow> bool" where
  "unclaimed r \<longleftrightarrow> rn_status r = ''accepted'' \<and> rn_pull r \<and> rn_turn_status r = ''pending''"

definition claim_timeout :: "run_settings \<Rightarrow> int" where
  "claim_timeout cfg = max 1 (if st_claim_timeout cfg = 0 then 15 else st_claim_timeout cfg)"

definition unclaimed_runs :: "run_settings \<Rightarrow> int \<Rightarrow> run_table \<Rightarrow> run_row list" where
  "unclaimed_runs cfg now rows = take RECLAIM_BATCH (sort_key rn_created
     (filter (\<lambda>r. unclaimed r \<and> rn_created r < now - claim_timeout cfg) rows))"

definition time_out_one :: "run_settings \<Rightarrow> nat \<Rightarrow> run_table \<Rightarrow> run_table" where
  "time_out_one cfg run_id rows = update_where (claimable run_id)
     (timeout_row (''no runtime claimed run within '' @ show_int (claim_timeout cfg) @ ''s'')) rows"

definition reconcile_unclaimed_turns :: "run_settings \<Rightarrow> int \<Rightarrow> run_table \<Rightarrow> run_table" where
  "reconcile_unclaimed_turns cfg now rows =
     (if \<not> pull_enabled cfg then rows
      else fold (\<lambda>r. time_out_one cfg (rn_run r)) (unclaimed_runs cfg now rows) rows)"

section \<open>admission.py\<close>

definition count_unclaimed_accepted :: "run_table \<Rightarrow> nat" where
  "count_unclaimed_accepted rows = count_where unclaimed rows"

definition count_unclaimed_for_principal :: "nat option \<Rightarrow> run_table \<Rightarrow> nat" where
  "count_unclaimed_for_principal owner rows =
     (case owner of None \<Rightarrow> 0 | Some u \<Rightarrow> count_where (\<lambda>r. unclaimed r \<and> rn_owner r = Some u) rows)"

definition oldest_unclaimed_wait_seconds :: "int \<Rightarrow> run_table \<Rightarrow> int" where
  "oldest_unclaimed_wait_seconds now rows =
     (case map rn_created (filter unclaimed rows) of
        [] \<Rightarrow> 0
      | t # ts \<Rightarrow> now - fold min ts t)"

definition check_dispatch_admission :: "run_settings \<Rightarrow> nat option \<Rightarrow> run_table \<Rightarrow> bool \<times> str \<times> nat" where
  "check_dispatch_admission cfg owner rows =
     (if \<not> pull_enabled cfg then (True, [], 0)
      else
        let depth = int (count_unclaimed_accepted rows);
            global_max = (if st_queue_max cfg \<le> 0 then 32 else st_queue_max cfg)
        in if depth \<ge> global_max then (False, ''dispatch_queue_full'', 5)
           else if st_tenant_max cfg > 0 \<and> owner \<noteq> None
                \<and> int (count_unclaimed_for_principal owner rows) \<ge> st_tenant_max cfg
             then (False, ''per_tenant_queue_full'', 5)
           else (True, [], 0))"

section \<open>turns.py\<close>

definition INTENT_KINDS :: "str list" where
  "INTENT_KINDS = [''select_pond'', ''more_ponds'', ''confirm_plan'', ''accept_patch'', ''reject_patch'']"

text \<open>\<open>_normalize_intent\<close>, and \<open>_intent_from_row\<close> on the stored object.\<close>

definition normalize_intent :: "json \<Rightarrow> dict option" where
  "normalize_intent intent = (case intent of
      JObj d \<Rightarrow>
        (let kind = strip (str_field d ''kind'') in
         if kind \<notin> set INTENT_KINDS then None
         else Some ((''kind'', JStr kind) #
           concat (map (\<lambda>key. case dict_get d key of
               JStr value \<Rightarrow> if strip value = [] then [] else [(key, JStr (strip value))]
             | _ \<Rightarrow> []) [''ponds_id'', ''item_id'', ''plan_id'', ''patch_id''])))
    | _ \<Rightarrow> None)"

definition normalize_choice :: "str list \<Rightarrow> str option \<Rightarrow> str option" where
  "normalize_choice allowed value = (case value of
      None \<Rightarrow> None
    | Some v \<Rightarrow> let c = lower (strip v) in if c \<in> set allowed then Some c else None)"

definition normalize_plan_phase :: "str option \<Rightarrow> str option" where
  "normalize_plan_phase = normalize_choice [''planning'', ''executing'']"

definition normalize_model_mode :: "str option \<Rightarrow> str option" where
  "normalize_model_mode = normalize_choice [''stub'', ''live'', ''recorded'']"

definition resolve_pull_eligible :: "bool \<Rightarrow> bool option \<Rightarrow> bool" where
  "resolve_pull_eligible dispatch_notify pull_eligible =
     (let eligible = or_else pull_eligible dispatch_notify
      in if \<not> dispatch_notify then False else eligible)"

text \<open>What a caller of \<open>create_turn\<close> passes and the identifiers drawn for it.\<close>

record turn_request =
  rq_session :: nat
  rq_owner :: "nat option"
  rq_request :: "nat option"
  rq_notify :: bool
  rq_pull :: "bool option"
  rq_phase :: "str option"
  rq_intent :: json
  rq_ops_eval :: bool
  rq_mode :: "str option"
  rq_api_key :: bool
  rq_turn :: nat
  rq_run :: nat

definition same_request :: "turn_request \<Rightarrow> run_row \<Rightarrow> bool" where
  "same_request q r \<longleftrightarrow> rn_session r = rq_session q \<and> rq_request q \<noteq> None \<and> rn_request r = rq_request q"

definition find_existing_turn :: "turn_request \<Rightarrow> run_table \<Rightarrow> run_row option" where
  "find_existing_turn q rows = (case filter (same_request q) rows of [] \<Rightarrow> None | r # _ \<Rightarrow> Some r)"

definition new_row :: "int \<Rightarrow> turn_request \<Rightarrow> run_row" where
  "new_row now q =
     (let mode = normalize_model_mode (rq_mode q);
          want_ops = rq_ops_eval q \<or> rq_api_key q
      in \<lparr>rn_run = rq_run q, rn_turn = rq_turn q, rn_session = rq_session q, rn_owner = rq_owner q,
          rn_request = rq_request q, rn_status = ''accepted'', rn_turn_status = ''pending'',
          rn_runner = None, rn_lease = None,
          rn_pull = resolve_pull_eligible (rq_notify q) (rq_pull q), rn_created = now,
          rn_cancel = None, rn_force = False, rn_reason = None,
          rn_phase = normalize_plan_phase (rq_phase q), rn_intent = normalize_intent (rq_intent q),
          rn_ops_eval = want_ops,
          rn_mode = (if want_ops \<and> mode = None then Some ''live'' else mode), rn_events = []\<rparr>)"

text \<open>
  \<open>create_turn\<close>: the lookup runs on the table \<open>seen\<close>, the insertion with \<open>ON CONFLICT DO NOTHING\<close>
  on the table as it is then; None is the RuntimeError of a winner that is not found. The
  result is the row and whether it was created.
\<close>

definition create_turn ::
  "int \<Rightarrow> turn_request \<Rightarrow> run_table \<Rightarrow> run_table \<Rightarrow> ((run_row \<times> bool) \<times> run_table) option" where
  "create_turn now q seen rows =
     (case find_existing_turn q seen of
        Some r \<Rightarrow> Some ((r, False), rows)
      | None \<Rightarrow>
          if list_ex (same_request q) rows then
            (case find_existing_turn q rows of None \<Rightarrow> None | Some r \<Rightarrow> Some ((r, False), rows))
          else Some ((new_row now q, True), rows @ [new_row now q]))"

definition mark_turn_start_failed :: "nat \<Rightarrow> run_table \<Rightarrow> run_table" where
  "mark_turn_start_failed run_id rows = update_where (\<lambda>r. rn_run r = run_id)
     (\<lambda>r. r\<lparr>rn_turn_status := ''failed'', rn_status := ''failed'', rn_reason := Some ''start_failed''\<rparr>) rows"

section \<open>turn_dispatch.py\<close>

definition has_capacity :: "run_settings \<Rightarrow> nat \<Rightarrow> bool" where
  "has_capacity cfg active \<longleftrightarrow> st_max_inflight cfg \<le> 0 \<or> int active < st_max_inflight cfg"

definition load_accepted :: "nat option \<Rightarrow> run_table \<Rightarrow> run_row option" where
  "load_accepted run_id rows =
     (case sort_key rn_created (filter (\<lambda>r. rn_status r = ''accepted'' \<and> rn_pull r
        \<and> (case run_id of None \<Rightarrow> True | Some i \<Rightarrow> rn_run r = i)) rows) of
        [] \<Rightarrow> None | r # _ \<Rightarrow> Some r)"

text \<open>
  \<open>try_claim_and_start\<close> up to the call of \<open>start_turn\<close>: the row it starts, None when it does not.
  \<open>seen\<close> is the table the lookup read.
\<close>

definition try_claim ::
  "run_settings \<Rightarrow> int \<Rightarrow> nat \<Rightarrow> nat option \<Rightarrow> run_table \<Rightarrow> run_table \<Rightarrow> run_row option \<times> run_table" where
  "try_claim cfg now active run_id seen rows =
     (if \<not> pull_enabled cfg \<or> \<not> has_capacity cfg active then (None, rows)
      else (case load_accepted run_id seen of
          None \<Rightarrow> (None, rows)
        | Some r \<Rightarrow>
            let (claimed, rows') = ensure_run_owned_by_runner cfg now (rn_run r) None rows
            in (if claimed then Some r else None, rows')))"

section \<open>The runtime's write-backs\<close>

text \<open>
  \<open>start_turn\<close>: the turn is accepted; the run only if this runner still owns it. The payloads of
  the events, made from the input and the counters of the turn, are parameters.
\<close>

definition accept_row :: "str \<Rightarrow> dict \<Rightarrow> run_row \<Rightarrow> run_row" where
  "accept_row runner payload r = insert_event ''turn.accepted'' payload
     (r\<lparr>rn_turn_status := ''running'',
        rn_status := (if rn_runner r = Some runner then ''running'' else rn_status r)\<rparr>)"

definition accept_turn :: "run_settings \<Rightarrow> nat \<Rightarrow> dict \<Rightarrow> run_table \<Rightarrow> run_table" where
  "accept_turn cfg run_id payload rows =
     update_where (\<lambda>r. rn_run r = run_id) (accept_row (st_runner cfg) payload) rows"

definition fail_row :: "str \<Rightarrow> dict \<Rightarrow> run_row \<Rightarrow> run_row" where
  "fail_row reason extra r = (insert_event ''turn.failed'' ((''termination_reason'', JStr reason) # extra) r)
     \<lparr>rn_turn_status := ''failed'', rn_status := ''failed'', rn_reason := Some reason\<rparr>"

definition fail_turn :: "nat \<Rightarrow> str \<Rightarrow> dict \<Rightarrow> run_table \<Rightarrow> run_table" where
  "fail_turn run_id reason extra rows = update_where (\<lambda>r. rn_run r = run_id) (fail_row reason extra) rows"

text \<open>
  \<open>_finalize_turn\<close> and the local answers of \<open>start_turn\<close>; the summary is one of the two waiting
  marks or the final text.
\<close>

definition cancel_row :: "dict \<Rightarrow> dict \<Rightarrow> run_row \<Rightarrow> run_row" where
  "cancel_row phase payload r =
     (insert_event ''turn.cancelled'' payload (insert_event ''turn.cancelling'' phase r))
       \<lparr>rn_turn_status := ''cancelled'', rn_status := ''cancelled''\<rparr>"

definition complete_turn_row :: "dict \<Rightarrow> str option \<Rightarrow> run_row \<Rightarrow> run_row" where
  "complete_turn_row payload reason r = (insert_event ''turn.completed'' payload r)
     \<lparr>rn_turn_status := ''completed'', rn_status := ''succeeded'', rn_reason := reason\<rparr>"

definition finalize_turn ::
  "nat \<Rightarrow> bool \<Rightarrow> str \<Rightarrow> str option \<Rightarrow> dict \<Rightarrow> dict \<Rightarrow> run_table \<Rightarrow> run_table" where
  "finalize_turn run_id cancelled summary reason phase payload rows = update_where (\<lambda>r. rn_run r = run_id)
     (\<lambda>r. if cancelled then cancel_row phase payload r
        else if summary = ''waiting_child'' then r\<lparr>rn_turn_status := ''waiting_child'', rn_status := ''running''\<rparr>
        else if summary = ''waiting_approval''
          then r\<lparr>rn_turn_status := ''waiting_approval'', rn_status := ''interrupted''\<rparr>
        else complete_turn_row payload reason r) rows"

text \<open>
  \<open>maybe_finalize_orphan_cancel\<close>; \<open>silent\<close> tells that the last event is old enough (there is
  none, or its age reaches the bound), which \<open>force\<close> overrides.
\<close>

definition finalize_orphan_cancel :: "nat \<Rightarrow> bool \<Rightarrow> bool \<Rightarrow> dict \<Rightarrow> dict \<Rightarrow> run_table \<Rightarrow> run_table" where
  "finalize_orphan_cancel turn_id force silent phase payload rows =
     (if \<not> force \<and> \<not> silent then rows
      else update_where (\<lambda>r. rn_turn r = turn_id \<and> rn_status r \<in> {''running'', ''interrupted''})
        (cancel_row phase payload) rows)"

text \<open>\<open>_mark_turn\<close> of \<open>child_join.py\<close>, and one event of the running turn.\<close>

definition mark_turn :: "nat \<Rightarrow> str \<Rightarrow> str \<Rightarrow> run_table \<Rightarrow> run_table" where
  "mark_turn run_id turn_status run_status rows = update_where (\<lambda>r. rn_run r = run_id)
     (\<lambda>r. r\<lparr>rn_turn_status := turn_status, rn_status := run_status\<rparr>) rows"

definition append_turn_event :: "nat \<Rightarrow> str \<Rightarrow> dict \<Rightarrow> run_table \<Rightarrow> run_table" where
  "append_turn_event run_id event_type payload rows =
     update_where (\<lambda>r. rn_run r = run_id) (insert_event event_type payload) rows"

text \<open>
  \<open>_resume_after_approval\<close>: the rows when the decision arrives, and when the approved call asks
  again (the run stays running).
\<close>

definition resume_row :: "dict \<Rightarrow> run_row \<Rightarrow> run_row" where
  "resume_row payload r = insert_event ''approval.resolved'' payload
     (r\<lparr>rn_turn_status := ''running'', rn_status := ''running''\<rparr>)"

definition resume_turn :: "nat \<Rightarrow> dict \<Rightarrow> run_table \<Rightarrow> run_table" where
  "resume_turn run_id payload rows = update_where (\<lambda>r. rn_run r = run_id) (resume_row payload) rows"

definition wait_again :: "nat \<Rightarrow> run_table \<Rightarrow> run_table" where
  "wait_again run_id rows = update_where (\<lambda>r. rn_run r = run_id) (\<lambda>r. r\<lparr>rn_turn_status := ''waiting_approval''\<rparr>) rows"

section \<open>events_retention.py and event_partitions.py\<close>

definition STREAM_TYPES :: "str list" where
  "STREAM_TYPES = [''turn.thinking.delta'', ''turn.token'', ''tool.delta'', ''section.draft.delta'']"

text \<open>
  The two \<open>DELETE\<close> statements: of the turns that ended and are old (\<open>aged\<close> stands for the test
  of \<open>updated_at\<close>), the events \<open>LIMIT\<close> picks, first of the streamed types, later of any type.
\<close>

definition ended_turn :: "run_row \<Rightarrow> bool" where
  "ended_turn r \<longleftrightarrow> rn_turn_status r \<in> {''completed'', ''failed'', ''cancelled''}"

definition delete_events :: "(turn_event \<Rightarrow> bool) \<Rightarrow> run_row \<Rightarrow> run_row" where
  "delete_events picked r = r\<lparr>rn_events := filter (\<lambda>e. \<not> picked e) (rn_events r)\<rparr>"

definition retain_stream :: "(run_row \<Rightarrow> bool) \<Rightarrow> (nat \<Rightarrow> turn_event \<Rightarrow> bool) \<Rightarrow> run_table \<Rightarrow> run_table" where
  "retain_stream aged picked rows = update_where (\<lambda>r. ended_turn r \<and> aged r)
     (\<lambda>r. delete_events (\<lambda>e. ev_type e \<in> set STREAM_TYPES \<and> picked (rn_turn r) e) r) rows"

definition retain_structural :: "(run_row \<Rightarrow> bool) \<Rightarrow> (nat \<Rightarrow> turn_event \<Rightarrow> bool) \<Rightarrow> run_table \<Rightarrow> run_table" where
  "retain_structural aged picked rows = update_where (\<lambda>r. ended_turn r \<and> aged r)
     (\<lambda>r. delete_events (picked (rn_turn r)) r) rows"

text \<open>
  \<open>classify_partition\<close>, times in seconds, and the \<open>DROP TABLE\<close> of a partition, which holds the
  events of the turns created in its month.
\<close>

definition classify_partition :: "bool \<Rightarrow> int option \<Rightarrow> int option \<Rightarrow> int \<Rightarrow> int \<Rightarrow> str" where
  "classify_partition non_terminal newest_update upper_bound now retention_days =
     (let horizon = now - 86400 * retention_days
      in if non_terminal then ''pinned''
         else case upper_bound of
             None \<Rightarrow> ''keep''
           | Some u \<Rightarrow> if u > horizon \<or> (case newest_update of None \<Rightarrow> False | Some t \<Rightarrow> t \<ge> horizon) then ''keep''
               else ''drop'')"

definition month_non_terminal :: "(int \<Rightarrow> bool) \<Rightarrow> run_table \<Rightarrow> bool" where
  "month_non_terminal month rows \<longleftrightarrow> list_ex (\<lambda>r. month (rn_created r) \<and> \<not> ended_turn r) rows"

definition drop_partition :: "(int \<Rightarrow> bool) \<Rightarrow> run_table \<Rightarrow> run_table" where
  "drop_partition month rows = update_where (\<lambda>r. month (rn_created r)) (delete_events (\<lambda>_. True)) rows"

text \<open>The status columns of \<open>write_projection\<close>.\<close>

definition project_status :: "nat \<Rightarrow> str \<Rightarrow> str option \<Rightarrow> run_table \<Rightarrow> run_table" where
  "project_status turn_id status reason rows = update_where (\<lambda>r. rn_turn r = turn_id)
     (\<lambda>r. r\<lparr>rn_turn_status := status, rn_status := map_turn_to_run_status status,
        rn_reason := (case reason of Some x \<Rightarrow> Some x | None \<Rightarrow> rn_reason r)\<rparr>) rows"

section \<open>What every row operation keeps\<close>

definition ordered :: "turn_event list \<Rightarrow> bool" where
  "ordered events \<longleftrightarrow> sorted_wrt (<) (map ev_sequence events)"

definition contiguous :: "turn_event list \<Rightarrow> bool" where
  "contiguous events \<longleftrightarrow> map ev_sequence events = [1..int (length events)]"

definition request_keys :: "run_table \<Rightarrow> (nat \<times> nat) list" where
  "request_keys rows = concat (map (\<lambda>r. case rn_request r of None \<Rightarrow> [] | Some q \<Rightarrow> [(rn_session r, q)]) rows)"

text \<open>A turn has begun when its status has left the initial one or its log is not empty.\<close>

definition begun :: "run_row \<Rightarrow> bool" where
  "begun r \<longleftrightarrow> rn_turn_status r \<noteq> ''pending''"

lemma next_sequence_contiguous: "contiguous es \<Longrightarrow> next_sequence es = int (length es) + 1"
proof -
  assume c: "contiguous es"
  have "foldr max [1..int n] 0 = int n" for n
  proof (induction n)
    case (Suc n)
    have upto: "[1..int (Suc n)] = [1..int n] @ [int n + 1]"
      using upto_rec2 [of 1 "int n + 1"] by (simp add: add.commute)
    have fold: "foldr max xs (int n + 1) = (int n + 1)" if "\<forall>x \<in> set xs. x \<le> int n" for xs
      using that by (induction xs) auto
    show ?case unfolding upto using fold [of "[1..int n]"] by simp
  qed simp
  with c show ?thesis by (simp add: next_sequence_def contiguous_def)
qed

lemma contiguous_insert: "contiguous (rn_events r) \<Longrightarrow> contiguous (rn_events (insert_event t d r))"
proof -
  assume c: "contiguous (rn_events r)"
  have "[1..int (length (rn_events r)) + 1] = [1..int (length (rn_events r))] @ [int (length (rn_events r)) + 1]"
    using upto_rec2 [of 1 "int (length (rn_events r)) + 1"] by simp
  with c next_sequence_contiguous [OF c] show ?thesis
    by (simp add: insert_event_def contiguous_def add.commute)
qed

lemma next_sequence_above: "e \<in> set es \<Longrightarrow> ev_sequence e < next_sequence es"
proof -
  have "x \<in> set xs \<Longrightarrow> x \<le> foldr max xs (0::int)" for x xs
    by (induction xs) auto
  then show "e \<in> set es \<Longrightarrow> ev_sequence e < next_sequence es"
    by (force simp: next_sequence_def)
qed

lemma ordered_insert: "ordered (rn_events r) \<Longrightarrow> ordered (rn_events (insert_event t d r))"
  using next_sequence_above by (simp add: insert_event_def ordered_def sorted_wrt_append)

lemma insert_event_frame [simp]:
  "rn_run (insert_event t d r) = rn_run r" "rn_turn (insert_event t d r) = rn_turn r"
  "rn_status (insert_event t d r) = rn_status r" "rn_session (insert_event t d r) = rn_session r"
  "rn_request (insert_event t d r) = rn_request r" "rn_turn_status (insert_event t d r) = rn_turn_status r"
  "rn_lease (insert_event t d r) = rn_lease r" "rn_runner (insert_event t d r) = rn_runner r"
  "rn_reason (insert_event t d r) = rn_reason r" "rn_pull (insert_event t d r) = rn_pull r"
  "rn_owner (insert_event t d r) = rn_owner r"
  by (simp_all add: insert_event_def)

text \<open>
  The contract of a row operation: it keeps the identity of the run and of the request, makes no
  run claimable again and no turn pending again, leaves no event in the log of a turn that has not
  begun, and keeps the log in order. A logging operation also appends without a gap.
\<close>

locale row_operation =
  fixes g :: "run_row \<Rightarrow> run_row"
  assumes keeps_run: "rn_run (g r) = rn_run r" "rn_turn (g r) = rn_turn r"
    and keeps_request: "rn_session (g r) = rn_session r \<and> rn_request (g r) = rn_request r"
    and never_accepts: "rn_status (g r) = ''accepted'' \<Longrightarrow> rn_status r = ''accepted''"
    and stays_begun: "begun r \<Longrightarrow> begun (g r)"
    and logs_begun: "rn_events (g r) \<noteq> [] \<Longrightarrow> rn_events r = [] \<Longrightarrow> begun (g r)"
    and keeps_ordered: "ordered (rn_events r) \<Longrightarrow> ordered (rn_events (g r))"
begin

lemma update_runs: "map rn_run (update_where P g rows) = map rn_run rows"
  "map rn_turn (update_where P g rows) = map rn_turn rows"
  by (simp_all add: update_where_def keeps_run)

lemma update_requests: "request_keys (update_where P g rows) = request_keys rows"
  unfolding request_keys_def update_where_def
  by (rule arg_cong [of _ _ concat]) (auto simp: keeps_request split: option.split)

lemma update_origin:
  assumes "r \<in> set (update_where P g rows)"
  obtains r' where "r' \<in> set rows" "rn_run r = rn_run r'" "rn_turn r = rn_turn r'" "r = g r' \<or> r = r'"
    "P r' \<longrightarrow> r = g r'" "\<not> P r' \<longrightarrow> r = r'"
  using assms keeps_run by (auto simp: update_where_def split: if_splits)

end

locale logging_operation = row_operation +
  assumes keeps_contiguous: "contiguous (rn_events r) \<Longrightarrow> contiguous (rn_events (g r))"

section \<open>The protocol\<close>

text \<open>
  The tables, the clock, a record of every claim that succeeded (run and runner) and of the
  turns whose log was trimmed, the runs whose \<open>start_turn\<close> has accepted the turn, and the
  projectors at work: those that read a log, and those that also read the status and folded.
  Runners, projectors and the api act in any order, each step one statement or transaction;
  the identifiers of runs and turns are fresh.
\<close>

record run_state =
  rs_rows :: run_table
  rs_now :: int
  rs_claims :: "(nat \<times> str) list"
  rs_trimmed :: "nat set"
  rs_started :: "nat set"
  rs_reads :: "(nat \<times> turn_event list) set"
  rs_folds :: "(nat \<times> projection) set"

definition run_init :: "run_state \<Rightarrow> bool" where
  "run_init s \<longleftrightarrow> rs_rows s = [] \<and> rs_claims s = [] \<and> rs_trimmed s = {} \<and> rs_started s = {}
     \<and> rs_reads s = {} \<and> rs_folds s = {}"

text \<open>
  \<open>start_turn\<close> accepts a turn only after a claim, and everything that appends other events to a
  log comes after that transaction. A projector reads the log, which is not empty, then the
  status of the turn, and writes what \<open>read_projection\<close> made of both, each at any later time.
  A partition is dropped on what an earlier statement saw (\<open>seen\<close>, any table).
\<close>

inductive run_step :: "run_state \<Rightarrow> run_state \<Rightarrow> bool" where
  Tick: "t \<ge> rs_now s \<Longrightarrow> run_step s (s\<lparr>rs_now := t\<rparr>)"
| Create: "create_turn (rs_now s) q seen (rs_rows s) = Some (res, rows) \<Longrightarrow> rq_run q \<notin> rn_run ` set (rs_rows s)
     \<Longrightarrow> rq_turn q \<notin> rn_turn ` set (rs_rows s) \<Longrightarrow> run_step s (s\<lparr>rs_rows := rows\<rparr>)"
| Claim: "ensure_run_owned_by_runner cfg (rs_now s) i who (rs_rows s) = (True, rows)
     \<Longrightarrow> run_step s (s\<lparr>rs_rows := rows, rs_claims := rs_claims s @ [(i, owner_of cfg who)]\<rparr>)"
| Renew: "run_step s (s\<lparr>rs_rows := snd (renew_run_leases cfg (rs_now s) who ids (rs_rows s))\<rparr>)"
| Touch: "run_step s (s\<lparr>rs_rows := snd (snd (touch_run_lease cfg (rs_now s) i force touched (rs_rows s)))\<rparr>)"
| Cancel: "run_step s (s\<lparr>rs_rows := persist_cancel_request (rs_now s) turn force (rs_rows s)\<rparr>)"
| Reclaim: "run_step s (s\<lparr>rs_rows := reclaim_one (rs_now s) message i (rs_rows s)\<rparr>)"
| TimeOut: "run_step s (s\<lparr>rs_rows := time_out_one cfg i (rs_rows s)\<rparr>)"
| StartFailed: "run_step s (s\<lparr>rs_rows := mark_turn_start_failed i (rs_rows s)\<rparr>)"
| Accept: "i \<in> fst ` set (rs_claims s)
     \<Longrightarrow> run_step s (s\<lparr>rs_rows := accept_turn cfg i payload (rs_rows s), rs_started := insert i (rs_started s)\<rparr>)"
| Fail: "run_step s (s\<lparr>rs_rows := fail_turn i reason extra (rs_rows s)\<rparr>)"
| Finalize: "run_step s (s\<lparr>rs_rows := finalize_turn i cancelled summary rsn phase payload (rs_rows s)\<rparr>)"
| Orphan: "run_step s (s\<lparr>rs_rows := finalize_orphan_cancel turn force silent phase payload (rs_rows s)\<rparr>)"
| Children: "tst \<in> {''waiting_child'', ''running''}
     \<Longrightarrow> run_step s (s\<lparr>rs_rows := mark_turn i tst ''running'' (rs_rows s)\<rparr>)"
| Resume: "run_step s (s\<lparr>rs_rows := resume_turn i payload (rs_rows s)\<rparr>)"
| WaitAgain: "run_step s (s\<lparr>rs_rows := wait_again i (rs_rows s)\<rparr>)"
| Append: "i \<in> rs_started s \<Longrightarrow> run_step s (s\<lparr>rs_rows := append_turn_event i t payload (rs_rows s)\<rparr>)"
| ReadLog: "r \<in> set (rs_rows s) \<Longrightarrow> rn_events r \<noteq> []
     \<Longrightarrow> run_step s (s\<lparr>rs_reads := insert (rn_turn r, rn_events r) (rs_reads s)\<rparr>)"
| ReadStatus: "(turn, es) \<in> rs_reads s \<Longrightarrow> r \<in> set (rs_rows s) \<Longrightarrow> rn_turn r = turn
     \<Longrightarrow> tt_status db = rn_turn_status r \<Longrightarrow> read_projection db es = Some p
     \<Longrightarrow> run_step s (s\<lparr>rs_folds := insert (turn, p) (rs_folds s)\<rparr>)"
| Project: "(turn, p) \<in> rs_folds s
     \<Longrightarrow> run_step s (s\<lparr>rs_rows := project_status turn (pj_status p) (pj_reason p) (rs_rows s)\<rparr>)"
| TrimStream: "run_step s (s\<lparr>rs_rows := retain_stream aged picked (rs_rows s),
     rs_trimmed := rs_trimmed s \<union> rn_turn ` {r \<in> set (rs_rows s). ended_turn r \<and> aged r}\<rparr>)"
| TrimStructural: "run_step s (s\<lparr>rs_rows := retain_structural aged picked (rs_rows s),
     rs_trimmed := rs_trimmed s \<union> rn_turn ` {r \<in> set (rs_rows s). ended_turn r \<and> aged r}\<rparr>)"
| DropMonth: "classify_partition (month_non_terminal month seen) newest until (rs_now s) days = ''drop''
     \<Longrightarrow> run_step s (s\<lparr>rs_rows := drop_partition month (rs_rows s),
           rs_trimmed := rs_trimmed s \<union> rn_turn ` {r \<in> set (rs_rows s). month (rn_created r)}\<rparr>)"

definition claims_inv :: "run_state \<Rightarrow> bool" where
  "claims_inv s \<longleftrightarrow> distinct (map rn_run (rs_rows s)) \<and> distinct (map rn_turn (rs_rows s))
     \<and> distinct (map fst (rs_claims s)) \<and> fst ` set (rs_claims s) \<subseteq> rn_run ` set (rs_rows s)
     \<and> (\<forall>r \<in> set (rs_rows s). rn_run r \<in> fst ` set (rs_claims s) \<longrightarrow> rn_status r \<noteq> ''accepted'')
     \<and> distinct (request_keys (rs_rows s))"

definition logs_inv :: "run_state \<Rightarrow> bool" where
  "logs_inv s \<longleftrightarrow> (\<forall>r \<in> set (rs_rows s). ordered (rn_events r)
     \<and> (rn_turn r \<notin> rs_trimmed s \<longrightarrow> contiguous (rn_events r)))"

text \<open>No projector can write the initial status: what it read had begun, and stays so.\<close>

definition begun_inv :: "run_state \<Rightarrow> bool" where
  "begun_inv s \<longleftrightarrow>
     (\<forall>r \<in> set (rs_rows s). rn_events r \<noteq> [] \<or> rn_run r \<in> rs_started s
          \<or> rn_turn r \<in> fst ` rs_reads s \<longrightarrow> begun r)
     \<and> rs_started s \<subseteq> fst ` set (rs_claims s) \<and> fst ` rs_reads s \<subseteq> rn_turn ` set (rs_rows s)
     \<and> (\<forall>(turn, p) \<in> rs_folds s. pj_status p \<noteq> ''pending'')"

definition run_inv :: "run_state \<Rightarrow> bool" where
  "run_inv s \<longleftrightarrow> claims_inv s \<and> logs_inv s \<and> begun_inv s"

lemma inv_frames [simp]:
  "claims_inv (s\<lparr>rs_now := t\<rparr>) = claims_inv s" "logs_inv (s\<lparr>rs_now := t\<rparr>) = logs_inv s"
  "begun_inv (s\<lparr>rs_now := t\<rparr>) = begun_inv s"
  "claims_inv (s\<lparr>rs_trimmed := T\<rparr>) = claims_inv s" "begun_inv (s\<lparr>rs_trimmed := T\<rparr>) = begun_inv s"
  "claims_inv (s\<lparr>rs_started := I\<rparr>) = claims_inv s" "logs_inv (s\<lparr>rs_started := I\<rparr>) = logs_inv s"
  "claims_inv (s\<lparr>rs_reads := R\<rparr>) = claims_inv s" "logs_inv (s\<lparr>rs_reads := R\<rparr>) = logs_inv s"
  "claims_inv (s\<lparr>rs_folds := F\<rparr>) = claims_inv s" "logs_inv (s\<lparr>rs_folds := F\<rparr>) = logs_inv s"
  "logs_inv (s\<lparr>rs_claims := C\<rparr>) = logs_inv s"
  by (simp_all add: claims_inv_def logs_inv_def begun_inv_def)

context row_operation begin

lemma update_image:
  "rn_run ` set (update_where P g rows) = rn_run ` set rows"
  "rn_turn ` set (update_where P g rows) = rn_turn ` set rows"
  using update_runs [of P rows] by (metis list.set_map)+

lemma update_claims:
  assumes "claims_inv s"
  shows "claims_inv (s\<lparr>rs_rows := update_where P g (rs_rows s)\<rparr>)"
proof -
  have "rn_status r \<noteq> ''accepted''"
    if r: "r \<in> set (update_where P g (rs_rows s))" "rn_run r \<in> fst ` set (rs_claims s)" for r
  proof
    assume a: "rn_status r = ''accepted''"
    obtain r' where r': "r' \<in> set (rs_rows s)" "rn_run r = rn_run r'" "r = g r' \<or> r = r'"
      by (rule update_origin [OF r(1)]) blast
    then have "rn_status r' = ''accepted''"
      using a never_accepts by blast
    with assms r(2) r'(1,2) show False by (simp add: claims_inv_def)
  qed
  then show ?thesis
    using assms update_runs [of P] update_requests [of P] update_image [of P]
    by (simp add: claims_inv_def)
qed

lemma update_begun:
  assumes "begun_inv s"
  shows "begun_inv (s\<lparr>rs_rows := update_where P g (rs_rows s)\<rparr>)"
proof -
  have "begun r" if r: "r \<in> set (update_where P g (rs_rows s))"
    and c: "rn_events r \<noteq> [] \<or> rn_run r \<in> rs_started s \<or> rn_turn r \<in> fst ` rs_reads s" for r
  proof -
    obtain r' where r': "r' \<in> set (rs_rows s)" "rn_run r = rn_run r'" "rn_turn r = rn_turn r'"
      "r = g r' \<or> r = r'"
      by (rule update_origin [OF r]) blast
    show ?thesis
    proof (cases "begun r'")
      case True
      with r'(4) stays_begun show ?thesis by auto
    next
      case False
      with assms r'(1) have "rn_events r' = [] \<and> rn_run r' \<notin> rs_started s \<and> rn_turn r' \<notin> fst ` rs_reads s"
        unfolding begun_inv_def by blast
      with c r'(2-4) have "rn_events r \<noteq> []" "r = g r'" by auto
      with \<open>rn_events r' = [] \<and> _\<close> logs_begun show ?thesis by blast
    qed
  qed
  then show ?thesis
    using assms update_image [of P] by (simp add: begun_inv_def)
qed

lemma update_ordered:
  "\<forall>r \<in> set rows. ordered (rn_events r) \<Longrightarrow> \<forall>r \<in> set (update_where P g rows). ordered (rn_events r)"
  using keeps_ordered by (auto simp: update_where_def)

end

context logging_operation begin

lemma update_logs:
  assumes "logs_inv s"
  shows "logs_inv (s\<lparr>rs_rows := update_where P g (rs_rows s)\<rparr>)"
  using assms keeps_ordered keeps_contiguous keeps_run
  by (auto simp: logs_inv_def update_where_def)

lemma update_inv: "run_inv s \<Longrightarrow> run_inv (s\<lparr>rs_rows := update_where P g (rs_rows s)\<rparr>)"
  unfolding run_inv_def by (intro conjI update_claims update_logs update_begun) simp_all

end

section \<open>The operations meet the contract\<close>

lemmas op_intros = contiguous_insert ordered_insert

interpretation claim_op: logging_operation "claim_row cfg now owner" for cfg now owner
  by unfold_locales (auto simp: claim_row_def begun_def Let_def split: if_splits)

interpretation renew_op: logging_operation "\<lambda>r. r\<lparr>rn_lease := t\<rparr>" for t
  by unfold_locales (auto simp: begun_def)

interpretation cancel_op: logging_operation
  "\<lambda>r. r\<lparr>rn_cancel := Some (or_else (rn_cancel r) now), rn_force := (force \<or> rn_force r)\<rparr>" for now force
  by unfold_locales (auto simp: begun_def)

interpretation reclaim_op: logging_operation "reclaim_row message" for message
  by unfold_locales (auto simp: reclaim_row_def begun_def intro!: op_intros)

interpretation timeout_op: logging_operation "timeout_row message" for message
  by unfold_locales (auto simp: timeout_row_def begun_def intro!: op_intros)

interpretation start_failed_op: logging_operation
  "\<lambda>r. r\<lparr>rn_turn_status := ''failed'', rn_status := ''failed'', rn_reason := Some ''start_failed''\<rparr>"
  by unfold_locales (auto simp: begun_def)

interpretation accept_op: logging_operation "accept_row runner payload" for runner payload
  by unfold_locales (auto simp: accept_row_def begun_def intro!: op_intros split: if_splits)

interpretation fail_op: logging_operation "fail_row reason extra" for reason extra
  by unfold_locales (auto simp: fail_row_def begun_def intro: op_intros)

interpretation cancelled_op: logging_operation "cancel_row phase payload" for phase payload
  by unfold_locales (auto simp: cancel_row_def begun_def intro!: op_intros)

interpretation finalize_op: logging_operation
  "\<lambda>r. if cancelled then cancel_row phase payload r
        else if summary = ''waiting_child'' then r\<lparr>rn_turn_status := ''waiting_child'', rn_status := ''running''\<rparr>
        else if summary = ''waiting_approval''
          then r\<lparr>rn_turn_status := ''waiting_approval'', rn_status := ''interrupted''\<rparr>
        else complete_turn_row payload reason r" for cancelled summary reason phase payload
  by unfold_locales
    (auto simp: cancel_row_def complete_turn_row_def begun_def intro!: op_intros split: if_splits)

interpretation resume_op: logging_operation "resume_row payload" for payload
  by unfold_locales (auto simp: resume_row_def begun_def intro!: op_intros)

interpretation wait_op: logging_operation "\<lambda>r. r\<lparr>rn_turn_status := ''waiting_approval''\<rparr>"
  by unfold_locales (auto simp: begun_def)

interpretation running_op: logging_operation "\<lambda>r. r\<lparr>rn_turn_status := ''running'', rn_status := ''running''\<rparr>"
  by unfold_locales (auto simp: begun_def)

interpretation child_op: logging_operation "\<lambda>r. r\<lparr>rn_turn_status := ''waiting_child'', rn_status := ''running''\<rparr>"
  by unfold_locales (auto simp: begun_def)

text \<open>An event of a running turn, seen as an operation that leaves the turns that have not begun.\<close>

interpretation append_op: logging_operation "\<lambda>r. if begun r then insert_event t payload r else r" for t payload
  by unfold_locales (auto simp: begun_def intro!: op_intros split: if_splits)

interpretation delete_op: row_operation "\<lambda>r. delete_events (picked (rn_turn r)) r" for picked
proof unfold_locales
  show "ordered (rn_events r) \<Longrightarrow> ordered (rn_events (delete_events (picked (rn_turn r)) r))" for r
    by (simp add: delete_events_def ordered_def sorted_wrt_map sorted_wrt_filter)
qed (auto simp: delete_events_def begun_def)

lemma map_status_accepted: "map_turn_to_run_status st = ''accepted'' \<longleftrightarrow> st = ''pending''"
  by (auto simp: map_turn_to_run_status_def TURN_TO_RUN_STATUS_def split: if_splits)

lemma project_operation: "st \<noteq> ''pending'' \<Longrightarrow> logging_operation (\<lambda>r. r\<lparr>rn_turn_status := st,
    rn_status := map_turn_to_run_status st, rn_reason := f r\<rparr>)"
  by unfold_locales (auto simp: map_status_accepted begun_def)

lemma update_where_cong:
  "(\<And>r. r \<in> set rows \<Longrightarrow> P r = Q r) \<Longrightarrow> (\<And>r. r \<in> set rows \<Longrightarrow> P r \<Longrightarrow> f r = g r)
     \<Longrightarrow> update_where P f rows = update_where Q g rows"
  by (simp add: update_where_def)

lemma create_inv:
  assumes "run_inv s" and "create_turn (rs_now s) q seen (rs_rows s) = Some (res, rows)"
    and "rq_run q \<notin> rn_run ` set (rs_rows s)" and "rq_turn q \<notin> rn_turn ` set (rs_rows s)"
  shows "run_inv (s\<lparr>rs_rows := rows\<rparr>)"
proof (cases "rows = rs_rows s")
  case True
  with assms(1) show ?thesis by simp
next
  case False
  let ?n = "new_row (rs_now s) q"
  from assms(2) False have rows: "rows = rs_rows s @ [?n]" and new: "\<not> list_ex (same_request q) (rs_rows s)"
    by (auto simp: create_turn_def split: option.splits if_splits)
  have n: "rn_run ?n = rq_run q" "rn_session ?n = rq_session q" "rn_request ?n = rq_request q"
    "rn_events ?n = []" "rn_turn ?n = rq_turn q"
    by (simp_all add: new_row_def Let_def)
  have notin: "\<And>k. rq_request q = Some k \<Longrightarrow> (rq_session q, k) \<notin> set (request_keys (rs_rows s))"
    using new by (auto simp: request_keys_def list_ex_iff same_request_def split: option.splits)
  have keys: "request_keys rows = request_keys (rs_rows s)
      @ (case rq_request q of None \<Rightarrow> [] | Some k \<Rightarrow> [(rq_session q, k)])"
    by (cases "rq_request q") (simp_all add: rows request_keys_def n)
  have inv: "claims_inv s" "logs_inv s" "begun_inv s"
    using assms(1) by (simp_all add: run_inv_def)
  have "fst ` set (rs_claims s) \<subseteq> rn_run ` set (rs_rows s)" "rs_started s \<subseteq> fst ` set (rs_claims s)"
    "fst ` rs_reads s \<subseteq> rn_turn ` set (rs_rows s)"
    using inv by (simp_all add: claims_inv_def begun_inv_def)
  then have fresh: "rq_run q \<notin> fst ` set (rs_claims s)" "rq_run q \<notin> rs_started s" "rq_turn q \<notin> fst ` rs_reads s"
    using assms(3,4) by (meson subsetD)+
  have "distinct (request_keys rows)"
    using inv(1) notin by (auto simp: keys claims_inv_def split: option.split)
  then have "claims_inv (s\<lparr>rs_rows := rows\<rparr>)"
    using inv(1) fresh(1) assms(3,4) unfolding claims_inv_def rows by (auto simp: n)
  moreover have "logs_inv (s\<lparr>rs_rows := rows\<rparr>)"
    using inv(2) by (simp add: logs_inv_def rows n ordered_def contiguous_def)
  moreover have "begun_inv (s\<lparr>rs_rows := rows\<rparr>)"
    using inv(3) fresh by (simp add: begun_inv_def rows n subset_insertI2)
  ultimately show ?thesis by (simp add: run_inv_def)
qed

lemma claim_row_status: "rn_status (claim_row cfg now owner r) = ''running''"
  by (simp add: claim_row_def Let_def)

lemma claim_inv:
  assumes "run_inv s" and "ensure_run_owned_by_runner cfg (rs_now s) i who (rs_rows s) = (True, rows)"
  shows "run_inv (s\<lparr>rs_rows := rows, rs_claims := rs_claims s @ [(i, o')]\<rparr>)"
proof -
  from assms(2) have ex: "list_ex (claimable i) (rs_rows s)"
    and rows: "rows = update_where (claimable i) (claim_row cfg (rs_now s) (owner_of cfg who)) (rs_rows s)"
    by (auto simp: ensure_run_owned_by_runner_def)
  from ex obtain r where r: "r \<in> set (rs_rows s)" "rn_run r = i" "rn_status r = ''accepted''"
    by (auto simp: list_ex_iff claimable_def)
  have fresh: "i \<notin> fst ` set (rs_claims s)"
    using assms(1) r by (auto simp: run_inv_def claims_inv_def)
  have inv: "run_inv (s\<lparr>rs_rows := rows\<rparr>)"
    unfolding rows by (rule claim_op.update_inv) (rule assms(1))
  have "rn_status x \<noteq> ''accepted''" if hx: "x \<in> set rows" "rn_run x = i" for x
  proof -
    obtain r' where r': "rn_run x = rn_run r'"
      "claimable i r' \<longrightarrow> x = claim_row cfg (rs_now s) (owner_of cfg who) r'" "\<not> claimable i r' \<longrightarrow> x = r'"
      by (rule claim_op.update_origin [OF hx(1) [unfolded rows]]) blast
    with hx(2) show ?thesis
      by (cases "claimable i r'") (auto simp: claim_row_status claimable_def)
  qed
  then have status: "\<forall>x \<in> set rows. rn_run x = i \<or> rn_run x \<in> fst ` set (rs_claims s) \<longrightarrow> rn_status x \<noteq> ''accepted''"
    using inv unfolding run_inv_def claims_inv_def by simp
  have "i \<in> rn_run ` set rows"
    using r claim_op.update_image(1) unfolding rows by force
  with inv fresh status show ?thesis
    by (simp add: run_inv_def claims_inv_def begun_inv_def subset_insertI2)
qed

lemma accept_inv:
  assumes "run_inv s" and "i \<in> fst ` set (rs_claims s)"
  shows "run_inv (s\<lparr>rs_rows := accept_turn cfg i payload (rs_rows s), rs_started := insert i (rs_started s)\<rparr>)"
proof -
  let ?rows = "accept_turn cfg i payload (rs_rows s)"
  have inv: "run_inv (s\<lparr>rs_rows := ?rows\<rparr>)"
    unfolding accept_turn_def by (rule accept_op.update_inv) (rule assms(1))
  have "begun (accept_row (st_runner cfg) payload r)" for r
    by (simp add: accept_row_def begun_def)
  then have new: "\<forall>r \<in> set ?rows. rn_run r = i \<longrightarrow> begun r"
    by (auto simp: accept_turn_def update_where_def)
  have "begun_inv (s\<lparr>rs_rows := ?rows\<rparr>)"
    using inv by (simp add: run_inv_def)
  then have "begun_inv (s\<lparr>rs_rows := ?rows, rs_started := insert i (rs_started s)\<rparr>)"
    using assms(2) new by (simp add: begun_inv_def) (intro ballI impI, metis)
  with inv show ?thesis by (simp add: run_inv_def)
qed

lemma append_inv:
  assumes "run_inv s" and "i \<in> rs_started s"
  shows "run_inv (s\<lparr>rs_rows := append_turn_event i t payload (rs_rows s)\<rparr>)"
proof -
  have "append_turn_event i t payload (rs_rows s)
      = update_where (\<lambda>r. rn_run r = i) (\<lambda>r. if begun r then insert_event t payload r else r) (rs_rows s)"
    unfolding append_turn_event_def
    using assms by (intro update_where_cong) (simp_all add: run_inv_def begun_inv_def)
  with append_op.update_inv [OF assms(1)] show ?thesis by simp
qed

lemma trim_inv:
  assumes "run_inv s" and "\<And>r. P r \<Longrightarrow> f r = delete_events (picked (rn_turn r)) r"
  shows "run_inv (s\<lparr>rs_rows := update_where P f (rs_rows s),
     rs_trimmed := rs_trimmed s \<union> rn_turn ` {r \<in> set (rs_rows s). P r}\<rparr>)"
proof -
  let ?rows = "update_where P (\<lambda>r. delete_events (picked (rn_turn r)) r) (rs_rows s)"
  have rows: "update_where P f (rs_rows s) = ?rows"
    using assms(2) by (intro update_where_cong) simp_all
  have "claims_inv (s\<lparr>rs_rows := ?rows\<rparr>)" "begun_inv (s\<lparr>rs_rows := ?rows\<rparr>)"
    using assms(1) delete_op.update_claims delete_op.update_begun by (simp_all add: run_inv_def)
  moreover have "logs_inv (s\<lparr>rs_rows := ?rows, rs_trimmed := rs_trimmed s \<union> rn_turn ` {r \<in> set (rs_rows s). P r}\<rparr>)"
    using assms(1) delete_op.keeps_ordered delete_op.keeps_run
    by (auto simp: run_inv_def logs_inv_def update_where_def)
  ultimately show ?thesis
    by (simp add: run_inv_def rows)
qed

lemma read_log_inv:
  assumes "run_inv s" and "r \<in> set (rs_rows s)" "rn_events r \<noteq> []"
  shows "run_inv (s\<lparr>rs_reads := insert (rn_turn r, es) (rs_reads s)\<rparr>)"
proof -
  have "begun x" if "x \<in> set (rs_rows s)" "rn_turn x = rn_turn r" for x
  proof -
    have "x = r" using assms(1,2) that by (auto simp: run_inv_def claims_inv_def distinct_map inj_on_def)
    with assms show ?thesis by (simp add: run_inv_def begun_inv_def)
  qed
  moreover have "rn_turn r \<in> rn_turn ` set (rs_rows s)" using assms(2) by blast
  ultimately have "begun_inv (s\<lparr>rs_reads := insert (rn_turn r, es) (rs_reads s)\<rparr>)"
    using assms(1) unfolding run_inv_def begun_inv_def by (simp add: ball_conj_distrib) blast
  with assms(1) show ?thesis
    by (simp add: run_inv_def)
qed

lemma read_status_inv:
  assumes "run_inv s" and "(turn, es) \<in> rs_reads s" "r \<in> set (rs_rows s)" "rn_turn r = turn"
    and "tt_status db = rn_turn_status r" "read_projection db es = Some p"
  shows "run_inv (s\<lparr>rs_folds := insert (turn, p) (rs_folds s)\<rparr>)"
proof -
  have "turn \<in> fst ` rs_reads s"
    using assms(2) by force
  with assms(1,3,4) have "begun r"
    unfolding run_inv_def begun_inv_def by blast
  with assms(5,6) have "pj_status p \<noteq> ''pending''"
    by (auto simp: begun_def dest: read_projection_begun)
  with assms(1) show ?thesis
    by (simp add: run_inv_def begun_inv_def)
qed

lemma step_inv: "run_step s s' \<Longrightarrow> run_inv s \<Longrightarrow> run_inv s'"
proof (induction rule: run_step.induct)
  case (Tick t s)
  then show ?case by (simp add: run_inv_def)
next
  case (Create s q seen res rows)
  then show ?case by (auto intro: create_inv)
next
  case (Claim cfg s i who rows)
  then show ?case by (auto intro: claim_inv)
next
  case (Renew s cfg who ids)
  then show ?case
    using renew_op.update_inv [of s] by (auto simp: renew_run_leases_def Let_def)
next
  case (Touch s cfg i force touched)
  then show ?case
    using renew_op.update_inv [of s] by (auto simp: touch_run_lease_def Let_def)
next
  case (Accept i s cfg payload)
  then show ?case by (intro accept_inv)
next
  case (Orphan s turn force silent phase payload)
  then show ?case
    using cancelled_op.update_inv [of s] by (auto simp: finalize_orphan_cancel_def)
next
  case (Children tst s i)
  then show ?case
    using running_op.update_inv [of s] child_op.update_inv [of s] by (auto simp: mark_turn_def)
next
  case (Append i s t payload)
  then show ?case by (intro append_inv)
next
  case (ReadLog r s)
  then show ?case by (intro read_log_inv)
next
  case (ReadStatus turn es s r db p)
  then show ?case by (intro read_status_inv)
next
  case (Project turn p s)
  then have "pj_status p \<noteq> ''pending''"
    by (auto simp: run_inv_def begun_inv_def)
  with Project show ?case
    unfolding project_status_def by (intro logging_operation.update_inv [OF project_operation])
next
  case (TrimStream s aged picked)
  then show ?case
    unfolding retain_stream_def
    by (intro trim_inv [where picked = "\<lambda>turn e. ev_type e \<in> set STREAM_TYPES \<and> picked turn e"]) simp_all
next
  case (TrimStructural s aged picked)
  then show ?case
    unfolding retain_structural_def by (intro trim_inv [where picked = picked]) simp_all
next
  case (DropMonth month seen newest until s days)
  then show ?case
    unfolding drop_partition_def by (intro trim_inv [where picked = "\<lambda>_ _. True"]) simp_all
qed (simp_all add: persist_cancel_request_def reclaim_one_def time_out_one_def mark_turn_start_failed_def
    fail_turn_def finalize_turn_def resume_turn_def wait_again_def
    cancel_op.update_inv reclaim_op.update_inv timeout_op.update_inv start_failed_op.update_inv
    fail_op.update_inv finalize_op.update_inv resume_op.update_inv wait_op.update_inv)

lemma reach_inv: "reach run_init run_step s \<Longrightarrow> run_inv s"
proof (erule reach_invariant)
  show "run_init t \<Longrightarrow> run_inv t" for t
    by (simp add: run_init_def run_inv_def claims_inv_def logs_inv_def begun_inv_def request_keys_def)
qed (rule step_inv)

lemma update_where_spared: "r \<in> set rows \<Longrightarrow> \<not> P r \<Longrightarrow> r \<in> set (update_where P f rows)"
  by (force simp: update_where_def)

lemma reclaim_fold_spared:
  "r \<in> set rows \<Longrightarrow> \<not> lease_expired now r
     \<Longrightarrow> r \<in> set (fold (\<lambda>x. reclaim_one now (message x) (rn_run x)) xs rows)"
proof (induction xs arbitrary: rows)
  case (Cons x xs)
  then have "r \<in> set (reclaim_one now (message x) (rn_run x) rows)"
    unfolding reclaim_one_def by (intro update_where_spared) simp_all
  with Cons show ?case by simp
qed simp

lemma one_request:
  assumes "distinct (request_keys rows)" and "r \<in> set rows"
    and "rn_session r = rq_session q" "rn_request r = Some k" "rq_request q = Some k"
  shows "filter (same_request q) rows = [r]"
  using assms(1,2)
proof (induction rows)
  case (Cons x xs)
  have key: "same_request q y \<longleftrightarrow> rn_session y = rq_session q \<and> rn_request y = Some k" for y
    using assms(5) by (simp add: same_request_def)
  have inkeys: "(rq_session q, k) \<in> set (request_keys xs)" if "y \<in> set xs" "same_request q y" for y
    using that by (force simp: key request_keys_def)
  show ?case
  proof (cases "same_request q x")
    case True
    then have "(rq_session q, k) \<notin> set (request_keys xs)"
      using Cons.prems(1) by (auto simp: key request_keys_def)
    with inkeys have "\<forall>y \<in> set xs. \<not> same_request q y" by blast
    moreover have "same_request q r" using assms(3,4) by (simp add: key)
    ultimately show ?thesis
      using True Cons.prems(2) by (auto simp: filter_empty_conv)
  next
    case False
    moreover have "same_request q r" using assms(3,4) by (simp add: key)
    ultimately have "r \<in> set xs" using Cons.prems(2) by auto
    with False Cons show ?thesis by (simp add: request_keys_def)
  qed
qed simp

section \<open>Properties\<close>

text \<open>
  C1: a run is executed at most once. However the runners, the projectors and the api interleave
  claims, renewals, reclaims, restarts, approvals, finalisations, trimming of the log and stale
  projections, no run is claimed twice, and a run that was claimed never becomes claimable
  again. A projector may read the log, the status and write at any distance in between; that it
  never writes the initial status back is proved from the fold, not assumed.
\<close>

theorem run_claimed_at_most_once:
  assumes "reach run_init run_step s"
  shows "distinct (map fst (rs_claims s))
     \<and> (\<forall>r \<in> set (rs_rows s). rn_run r \<in> fst ` set (rs_claims s)
          \<longrightarrow> \<not> fst (ensure_run_owned_by_runner cfg now (rn_run r) who (rs_rows s)))"
proof -
  have inv: "claims_inv s" using reach_inv [OF assms] by (simp add: run_inv_def)
  have "\<not> claimable (rn_run r) x"
    if "r \<in> set (rs_rows s)" "x \<in> set (rs_rows s)" "rn_run r \<in> fst ` set (rs_claims s)" for r x
    using inv that by (auto simp: claims_inv_def claimable_def)
  with inv show ?thesis
    by (auto simp: claims_inv_def ensure_run_owned_by_runner_def list_ex_iff)
qed

text \<open>
  C11: the event log of a turn has no duplicate and no gap of its own. In every reachable state
  the sequence numbers of a turn's events increase strictly, whoever appended them, and unless
  the retention of events or the drop of a partition has touched this log they are 1, 2, 3 up to
  their count.
\<close>

theorem event_log_numbering:
  assumes "reach run_init run_step s" and "r \<in> set (rs_rows s)"
  shows "sorted_wrt (<) (map ev_sequence (rn_events r))
     \<and> (rn_turn r \<notin> rs_trimmed s \<longrightarrow> map ev_sequence (rn_events r) = [1..int (length (rn_events r))])"
  using reach_inv [OF assms(1)] assms(2) by (auto simp: run_inv_def logs_inv_def contiguous_def ordered_def)

text \<open>
  C25: a client request creates one turn. While a row of the session holds the request's key,
  creating the turn again returns exactly that row, not as a new one, and changes nothing;
  both when the lookup finds the row, and when it ran on an earlier table without the row and
  the insertion meets the conflict.
\<close>

theorem request_creates_one_turn:
  assumes "reach run_init run_step s" and "r \<in> set (rs_rows s)"
    and "rn_session r = rq_session q" "rn_request r = rq_request q" "rq_request q = Some k"
    and "seen = rs_rows s \<or> find_existing_turn q seen = None"
  shows "create_turn now q seen (rs_rows s) = Some ((r, False), rs_rows s)"
proof -
  have "distinct (request_keys (rs_rows s))"
    using reach_inv [OF assms(1)] by (simp add: run_inv_def claims_inv_def)
  then have "filter (same_request q) (rs_rows s) = [r]"
    using assms(2-5) by (intro one_request) auto
  moreover have "list_ex (same_request q) (rs_rows s)"
    using assms(2-5) by (auto simp: list_ex_iff same_request_def)
  ultimately show ?thesis
    using assms(6) by (auto simp: create_turn_def find_existing_turn_def)
qed

text \<open>
  C29: a living runner keeps its runs. A run whose runner renewed its lease at \<open>t\<close> is left alone
  by every lease sweep up to \<open>t\<close> plus the lease time.
\<close>

theorem renewed_run_survives_sweep:
  assumes "r \<in> set rows" and "renewable (owner_of cfg who) r" and "st_lease_enabled cfg"
    and "now \<le> t + lease_seconds cfg"
  shows "r\<lparr>rn_lease := Some (t + lease_seconds cfg)\<rparr>
     \<in> set (reconcile_expired_leases cfg' now message (snd (renew_run_leases cfg t who None rows)))"
proof -
  let ?r = "r\<lparr>rn_lease := Some (t + lease_seconds cfg)\<rparr>"
  have "?r \<in> set (snd (renew_run_leases cfg t who None rows))"
    using assms(1-3) by (force simp: renew_run_leases_def update_where_def Let_def)
  moreover have "\<not> lease_expired now ?r"
    using assms(4) by (simp add: lease_expired_def)
  ultimately show ?thesis
    by (simp add: reconcile_expired_leases_def reclaim_fold_spared)
qed

text \<open>
  C34: a reclaim does not fence the old runner. When a sweep fails a run whose lease ran out and
  the runner, late but alive, finishes the turn afterwards, the run ends as succeeded and its
  log holds two terminal events, \<open>turn.failed\<close> and then \<open>turn.completed\<close>: the write-back names
  the run only, not the runner or the status it expects.
\<close>

theorem reclaimed_run_can_still_complete:
  assumes "r \<in> set rows" and "lease_expired now r"
    and "summary \<noteq> ''waiting_child''" "summary \<noteq> ''waiting_approval''"
  shows "\<exists>r' \<in> set (finalize_turn (rn_run r) False summary reason phase payload
                     (reclaim_one now message (rn_run r) rows)).
     rn_run r' = rn_run r \<and> rn_status r' = ''succeeded''
     \<and> map ev_type (rn_events r') = map ev_type (rn_events r) @ [''turn.failed'', ''turn.completed'']"
proof -
  have "reclaim_row message r \<in> set (reclaim_one now message (rn_run r) rows)"
    using assms(1,2) by (force simp: reclaim_one_def update_where_def)
  then have "complete_turn_row payload reason (reclaim_row message r)
      \<in> set (finalize_turn (rn_run r) False summary reason phase payload (reclaim_one now message (rn_run r) rows))"
    using assms(3,4) unfolding finalize_turn_def update_where_def set_map
    by (rule_tac image_eqI) (simp_all add: reclaim_row_def)
  then show ?thesis
    by (rule bexI [rotated]) (simp add: reclaim_row_def complete_turn_row_def insert_event_def)
qed

text \<open>
  Admission bounds the dispatch queue. A turn created after a positive admission check on
  the same table leaves at most the configured number of unclaimed turns (32 by default), and
  at most the tenant's share of them for its owner.
\<close>

theorem admission_bounds_queue:
  assumes "fst (check_dispatch_admission cfg (rq_owner q) rows)" and "pull_enabled cfg"
    and "create_turn now q seen rows = Some (res, rows')"
  shows "int (count_unclaimed_accepted rows') \<le> (if st_queue_max cfg \<le> 0 then 32 else st_queue_max cfg)
     \<and> (st_tenant_max cfg > 0 \<and> rq_owner q \<noteq> None
          \<longrightarrow> int (count_unclaimed_for_principal (rq_owner q) rows') \<le> st_tenant_max cfg)"
proof -
  have rows': "rows' = rows \<or> rows' = rows @ [new_row now q]"
    using assms(3) by (auto simp: create_turn_def split: option.splits if_splits)
  have depth: "int (count_unclaimed_accepted rows) < (if st_queue_max cfg \<le> 0 then 32 else st_queue_max cfg)"
    and tenant: "st_tenant_max cfg > 0 \<Longrightarrow> rq_owner q \<noteq> None
        \<Longrightarrow> int (count_unclaimed_for_principal (rq_owner q) rows) < st_tenant_max cfg"
    using assms(1,2) by (auto simp: check_dispatch_admission_def Let_def split: if_splits)
  have "count_unclaimed_accepted rows' \<le> count_unclaimed_accepted rows + 1"
    using rows' by (auto simp: count_unclaimed_accepted_def count_where_def)
  moreover have "count_unclaimed_for_principal (rq_owner q) rows' \<le> count_unclaimed_for_principal (rq_owner q) rows + 1"
    using rows' by (auto simp: count_unclaimed_for_principal_def count_where_def split: option.split)
  ultimately show ?thesis using depth tenant by fastforce
qed

section \<open>A sample run\<close>

definition sample_settings :: run_settings where
  "sample_settings = \<lparr>st_runner = ''r1'', st_lease_enabled = True, st_lease_seconds = 180, st_touch_gap = 5,
     st_dispatch = ''pull'', st_claim_timeout = 15, st_queue_max = 0, st_tenant_max = 2, st_max_inflight = 4\<rparr>"

definition sample_request :: turn_request where
  "sample_request = \<lparr>rq_session = 7, rq_owner = Some 3, rq_request = Some 9, rq_notify = True, rq_pull = None,
     rq_phase = None, rq_intent = JNull, rq_ops_eval = False, rq_mode = None, rq_api_key = False,
     rq_turn = 1, rq_run = 1\<rparr>"

definition sample_row :: run_row where
  "sample_row = new_row 100 sample_request"

definition sample_running :: run_row where
  "sample_running = claim_row sample_settings 100 ''r1'' sample_row"

definition sample_claimed :: run_state where
  "sample_claimed = \<lparr>rs_rows = [sample_running], rs_now = 100, rs_claims = [(1, ''r1'')],
     rs_trimmed = {}, rs_started = {}, rs_reads = {}, rs_folds = {}\<rparr>"

definition sample_started :: run_state where
  "sample_started = sample_claimed\<lparr>rs_rows := [accept_row ''r1'' [] sample_running], rs_started := {1}\<rparr>"

lemma sample_fields:
  "rn_run sample_running = 1" "rn_status sample_running = ''running''" "rn_lease sample_running = Some 280"
  "rn_session sample_running = 7" "rn_request sample_running = Some 9" "rn_events sample_running = []"
  "rn_runner sample_running = Some ''r1''"
  by (simp_all add: sample_running_def sample_row_def new_row_def sample_request_def claim_row_def
      sample_settings_def lease_seconds_def Let_def)

lemma sample_reachable: "reach run_init run_step sample_claimed"
proof -
  let ?s0 = "sample_claimed\<lparr>rs_rows := [], rs_claims := []\<rparr>"
  let ?s1 = "?s0\<lparr>rs_rows := [sample_row]\<rparr>"
  have "reach run_init run_step ?s0"
    by (rule reach.intros) (simp add: run_init_def sample_claimed_def)
  moreover have "run_step ?s0 ?s1"
  proof (rule Create)
    show "create_turn (rs_now ?s0) sample_request [] (rs_rows ?s0) = Some ((sample_row, True), [sample_row])"
      by (simp add: create_turn_def find_existing_turn_def sample_row_def sample_claimed_def)
  qed simp_all
  moreover have "run_step ?s1 sample_claimed"
  proof -
    have c: "claimable 1 sample_row"
      by (simp add: claimable_def sample_row_def new_row_def sample_request_def Let_def)
    then have "ensure_run_owned_by_runner sample_settings (rs_now ?s1) 1 None (rs_rows ?s1) = (True, [sample_running])"
      by (simp add: ensure_run_owned_by_runner_def update_where_def sample_running_def owner_of_def
          sample_settings_def sample_claimed_def)
    from Claim [OF this] show ?thesis
      by (simp add: sample_claimed_def owner_of_def sample_settings_def)
  qed
  ultimately show ?thesis by (metis reach.intros(2))
qed

lemma sample_started_reachable: "reach run_init run_step sample_started"
proof -
  have "run_step sample_claimed sample_started"
    using Accept [of 1 sample_claimed sample_settings "[]"]
    by (simp add: sample_started_def sample_claimed_def accept_turn_def update_where_def sample_fields
        sample_settings_def)
  with sample_reachable show ?thesis by (metis reach.intros(2))
qed

lemma run_claimed_at_most_once_witness:
  "distinct (map fst (rs_claims sample_claimed))
   \<and> \<not> fst (ensure_run_owned_by_runner sample_settings 100 1 None (rs_rows sample_claimed))"
  using run_claimed_at_most_once [OF sample_reachable, of sample_settings 100 None]
  by (simp add: sample_claimed_def sample_fields)

lemma event_log_numbering_witness:
  "map ev_sequence (rn_events (accept_row ''r1'' [] sample_running)) = [1..1]"
  using event_log_numbering [OF sample_started_reachable, of "accept_row ''r1'' [] sample_running"]
  by (simp add: sample_started_def sample_claimed_def accept_row_def insert_event_def sample_fields)

lemma request_creates_one_turn_witness:
  "create_turn 101 (sample_request\<lparr>rq_run := 2, rq_turn := 2\<rparr>) [] (rs_rows sample_claimed)
     = Some ((sample_running, False), rs_rows sample_claimed)
   \<and> create_turn 101 (sample_request\<lparr>rq_run := 2, rq_turn := 2\<rparr>) (rs_rows sample_claimed) (rs_rows sample_claimed)
     = Some ((sample_running, False), rs_rows sample_claimed)"
  by (intro conjI; rule request_creates_one_turn [OF sample_reachable, where k = 9])
    (simp_all add: sample_claimed_def sample_fields sample_request_def find_existing_turn_def)

lemma renewed_run_survives_sweep_witness:
  "sample_running\<lparr>rn_lease := Some (200 + lease_seconds sample_settings)\<rparr>
     \<in> set (reconcile_expired_leases sample_settings 380 (\<lambda>r. [])
          (snd (renew_run_leases sample_settings 200 None None [sample_running])))"
  by (rule renewed_run_survives_sweep)
    (simp_all add: renewable_def owner_of_def sample_fields, simp_all add: sample_settings_def lease_seconds_def)

lemma reclaimed_run_can_still_complete_witness:
  "\<exists>r' \<in> set (finalize_turn 1 False ''done'' None [] [] (reclaim_one 300 [] 1 [sample_running])).
     rn_status r' = ''succeeded'' \<and> map ev_type (rn_events r') = [''turn.failed'', ''turn.completed'']"
  using reclaimed_run_can_still_complete [of sample_running "[sample_running]" 300 "''done''" None "[]" "[]" "[]"]
  by (auto simp: lease_expired_def sample_fields)

lemma admission_bounds_queue_witness:
  "int (count_unclaimed_accepted [sample_row]) \<le> 32"
proof -
  have a: "fst (check_dispatch_admission sample_settings (rq_owner sample_request) [])"
    by (simp add: check_dispatch_admission_def count_unclaimed_accepted_def count_unclaimed_for_principal_def
        count_where_def sample_settings_def Let_def split: option.split)
  have p: "pull_enabled sample_settings" by code_simp
  have c: "create_turn 100 sample_request [] [] = Some ((sample_row, True), [sample_row])"
    by (simp add: create_turn_def find_existing_turn_def sample_row_def)
  from admission_bounds_queue [OF a p c] show ?thesis by (simp add: sample_settings_def)
qed

end
