(* ===== verification/TurnState.thy ===== *)
theory TurnState
  imports PyValue
begin

text \<open>
  The fields of \<open>services/runtime/app/engine/state.py\<close>'s \<open>TurnState\<close> that the modelled
  components read or write, with the defaults of the class, and the message constructors of
  the same file. \<open>audit_log\<close> stands for the lines this turn appends to the security log
  file: (previous window, new window).
\<close>

record turn_state =
  scenario_id :: str
  messages :: "json list"
  step_count :: int
  max_steps :: int
  cancelled :: bool
  plan_phase :: "str option"
  ops_eval :: bool
  saw_external :: bool
  window_taint :: str
  last_external_tool :: str
  s1_snapshots :: "(str \<times> json) list"
  shadow_snapshot_id :: str
  permission_mode :: str
  s1_granted_this_turn :: bool
  s2_granted_this_turn :: bool
  turn_user_text :: str
  audit_log :: "(str \<times> str) list"

definition new_turn_state :: "str \<Rightarrow> turn_state" where
  "new_turn_state sid =
     \<lparr>scenario_id = sid, messages = [], step_count = 0, max_steps = 40, cancelled = False,
      plan_phase = None, ops_eval = False, saw_external = False, window_taint = ''user'',
      last_external_tool = [], s1_snapshots = [], shadow_snapshot_id = [],
      permission_mode = ''ask'', s1_granted_this_turn = False, s2_granted_this_turn = False,
      turn_user_text = [], audit_log = []\<rparr>"

definition user_message :: "str \<Rightarrow> json" where
  "user_message txt = JObj [(''role'', JStr ''user''),
     (''content'', JList [JObj [(''type'', JStr ''text''), (''text'', JStr txt)]]),
     (''_taint'', JStr ''user'')]"

definition assistant_text :: "str \<Rightarrow> json" where
  "assistant_text txt = JObj [(''role'', JStr ''assistant''),
     (''content'', JList [JObj [(''type'', JStr ''text''), (''text'', JStr txt)]])]"

definition assistant_tool_use :: "str \<Rightarrow> str \<Rightarrow> json \<Rightarrow> json" where
  "assistant_tool_use tool_call_id tool_name arguments = JObj [(''role'', JStr ''assistant''),
     (''content'', JList [JObj [(''type'', JStr ''tool_use''), (''id'', JStr tool_call_id),
        (''name'', JStr tool_name), (''input'', arguments)]])]"

text \<open>\<open>call["id"]\<close> and \<open>call["name"]\<close> raise KeyError when absent: None.\<close>

fun tool_use_blocks :: "dict list \<Rightarrow> json list option" where
  "tool_use_blocks [] = Some []"
| "tool_use_blocks (call # calls) =
     (case (map_of call ''id'', map_of call ''name'', tool_use_blocks calls) of
        (Some i, Some n, Some bs) \<Rightarrow>
          Some (JObj [(''type'', JStr ''tool_use''), (''id'', i), (''name'', n),
                      (''input'', dict_get_default call ''input'' (JObj []))] # bs)
      | _ \<Rightarrow> None)"

definition assistant_tool_uses :: "dict list \<Rightarrow> str \<Rightarrow> json option" where
  "assistant_tool_uses tool_calls txt =
     map_option (\<lambda>bs. JObj [(''role'', JStr ''assistant''),
        (''content'', JList ((if strip txt \<noteq> []
            then [JObj [(''type'', JStr ''text''), (''text'', JStr txt)]] else []) @ bs))])
       (tool_use_blocks tool_calls)"

definition tool_result_message :: "str \<Rightarrow> str \<Rightarrow> bool \<Rightarrow> str option \<Rightarrow> json" where
  "tool_result_message tool_call_id result is_error taint =
     JObj ([(''role'', JStr ''tool''),
       (''content'', JList [JObj [(''type'', JStr ''tool_result''),
          (''tool_use_id'', JStr tool_call_id), (''content'', JStr result),
          (''is_error'', JBool is_error)]])] @
       (case taint of Some (t # ts) \<Rightarrow> [(''_taint'', JStr (t # ts))] | _ \<Rightarrow> []))"

end
