(* ===== verification/Json.thy ===== *)
theory Json
  imports PyValue
begin

text \<open>
  Python's \<open>json.dumps(x, ensure_ascii=False)\<close> and \<open>json.loads(s)\<close> on the values of PyValue,
  as the sources use them to store results, checkpoints and command payloads as text. Floats
  are exact decimals (\<open>JDec\<close>), so rounding to double precision, \<open>NaN\<close> and the infinities
  are outside the model; an escape \<open>\\uXXXX\<close> above \<open>\\u00ff\<close> has no character here and is
  rejected. The main result is the round trip: reading back a dumped value gives the value.
\<close>

section \<open>Writing\<close>

abbreviation quote_char :: char where "quote_char \<equiv> CHR 0x22"
abbreviation backslash :: char where "backslash \<equiv> CHR 0x5C"

definition json_escape :: "char \<Rightarrow> str" where
  "json_escape c = (let n = (of_char c :: nat) in
     if n = 34 \<or> n = 92 then [backslash, c]
     else if n = 8 then [backslash, CHR ''b'']
     else if n = 12 then [backslash, CHR ''f'']
     else if n = 10 then [backslash, CHR ''n'']
     else if n = 13 then [backslash, CHR ''r'']
     else if n = 9 then [backslash, CHR ''t'']
     else if n < 32 then [backslash, CHR ''u'', CHR ''0'', CHR ''0'', hex_digit (n div 16), hex_digit (n mod 16)]
     else [c])"

text \<open>\<open>ensure_ascii=True\<close>, the default, escapes everything outside printable ASCII.\<close>

definition json_escape_ascii :: "char \<Rightarrow> str" where
  "json_escape_ascii c = (let n = (of_char c :: nat) in
     if 127 \<le> n
     then [backslash, CHR ''u'', CHR ''0'', CHR ''0'', hex_digit (n div 16), hex_digit (n mod 16)]
     else json_escape c)"

definition json_dumps_str :: "(char \<Rightarrow> str) \<Rightarrow> str \<Rightarrow> str" where
  "json_dumps_str esc s = quote_char # concat (map esc s) @ [quote_char]"

fun json_dumps_with :: "(char \<Rightarrow> str) \<Rightarrow> json \<Rightarrow> str" where
  "json_dumps_with esc JNull = ''null''"
| "json_dumps_with esc (JBool b) = (if b then ''true'' else ''false'')"
| "json_dumps_with esc (JInt n) = show_int n"
| "json_dumps_with esc (JDec m k) = show_dec m k"
| "json_dumps_with esc (JStr s) = json_dumps_str esc s"
| "json_dumps_with esc (JList xs) = ''['' @ join '', '' (map (json_dumps_with esc) xs) @ '']''"
| "json_dumps_with esc (JObj d) =
     ''{'' @ join '', '' (map (\<lambda>(k, v). json_dumps_str esc k @ '': '' @ json_dumps_with esc v) d) @ ''}''"

definition json_dumps :: "json \<Rightarrow> str" where
  "json_dumps v = json_dumps_with json_escape v"

definition json_dumps_ascii :: "json \<Rightarrow> str" where
  "json_dumps_ascii v = json_dumps_with json_escape_ascii v"

section \<open>Reading\<close>

definition json_space :: "char \<Rightarrow> bool" where
  "json_space c \<longleftrightarrow> (let n = (of_char c :: nat) in n = 32 \<or> n = 9 \<or> n = 10 \<or> n = 13)"

definition skip_space :: "str \<Rightarrow> str" where
  "skip_space s = dropWhile json_space s"

definition unescape :: "char \<Rightarrow> char option" where
  "unescape e = (let n = (of_char e :: nat) in
     if n = 34 \<or> n = 92 \<or> n = 47 then Some e
     else if e = CHR ''b'' then Some (char_of (8::nat))
     else if e = CHR ''f'' then Some (char_of (12::nat))
     else if e = CHR ''n'' then Some (char_of (10::nat))
     else if e = CHR ''r'' then Some (char_of (13::nat))
     else if e = CHR ''t'' then Some (char_of (9::nat))
     else None)"

definition hex_value :: "char \<Rightarrow> nat option" where
  "hex_value c = (let n = (of_char c :: nat) in
     if 48 \<le> n \<and> n \<le> 57 then Some (n - 48)
     else if 97 \<le> n \<and> n \<le> 102 then Some (n - 87)
     else if 65 \<le> n \<and> n \<le> 70 then Some (n - 55)
     else None)"

definition unicode_escape :: "char \<Rightarrow> char \<Rightarrow> char \<Rightarrow> char \<Rightarrow> char option" where
  "unicode_escape a b c d = (case (hex_value a, hex_value b, hex_value c, hex_value d) of
      (Some w, Some x, Some y, Some z) \<Rightarrow>
        (let n = 4096 * w + 256 * x + 16 * y + z in if n < 256 then Some (char_of n) else None)
    | _ \<Rightarrow> None)"

text \<open>The text of a string after its opening quote, and what follows the closing one.\<close>

fun string_body :: "str \<Rightarrow> (str \<times> str) option" where
  "string_body [] = None"
| "string_body (c # cs) = (let n = (of_char c :: nat) in
     if n = 34 then Some ([], cs)
     else if n < 32 then None
     else if n \<noteq> 92 then map_option (\<lambda>(s, r). (c # s, r)) (string_body cs)
     else (case cs of [] \<Rightarrow> None
       | e # es \<Rightarrow> if e \<noteq> CHR ''u''
           then (case unescape e of None \<Rightarrow> None
             | Some u \<Rightarrow> map_option (\<lambda>(s, r). (u # s, r)) (string_body es))
           else (case es of a # b # x # y # fs \<Rightarrow>
               (case unicode_escape a b x y of None \<Rightarrow> None
                | Some u \<Rightarrow> map_option (\<lambda>(s, r). (u # s, r)) (string_body fs))
             | _ \<Rightarrow> None)))"

definition digits_value :: "str \<Rightarrow> nat" where
  "digits_value ds = foldl (\<lambda>acc c. 10 * acc + (of_char c - 48)) 0 ds"

text \<open>
  The canonical decimal: the shortest fraction that is not empty, as Python prints it.
\<close>

fun canonical_dec :: "int \<Rightarrow> nat \<Rightarrow> json" where
  "canonical_dec m 0 = JDec (10 * m) 1"
| "canonical_dec m (Suc 0) = JDec m 1"
| "canonical_dec m (Suc (Suc k)) =
     (if m mod 10 = 0 then canonical_dec (m div 10) (Suc k) else JDec m (Suc (Suc k)))"

text \<open>The integer part: a single zero, or digits that do not begin with zero.\<close>

definition int_part :: "str \<Rightarrow> (str \<times> str) option" where
  "int_part s = (case s of [] \<Rightarrow> None
     | c # cs \<Rightarrow> if \<not> is_digit c then None
         else if c = CHR ''0'' then Some ([c], cs)
         else Some (takeWhile is_digit s, dropWhile is_digit s))"

text \<open>The fraction \<open>\.\d+\<close> and the exponent \<open>[eE][-+]?\d+\<close>, empty when absent.\<close>

definition frac_part :: "str \<Rightarrow> str \<times> str" where
  "frac_part s = (case s of c # cs \<Rightarrow>
       if c = CHR ''.'' \<and> takeWhile is_digit cs \<noteq> []
       then (takeWhile is_digit cs, dropWhile is_digit cs) else ([], s)
     | [] \<Rightarrow> ([], s))"

definition exp_part :: "str \<Rightarrow> int option \<times> str" where
  "exp_part s = (case s of c # cs \<Rightarrow>
       if c \<noteq> CHR ''e'' \<and> c \<noteq> CHR ''E'' then (None, s)
       else (let neg = (cs \<noteq> [] \<and> hd cs = CHR ''-'');
                 ds = (if cs \<noteq> [] \<and> (hd cs = CHR ''-'' \<or> hd cs = CHR ''+'') then tl cs else cs)
             in if takeWhile is_digit ds = [] then (None, s)
                else (Some ((if neg then -1 else 1) * int (digits_value (takeWhile is_digit ds))),
                      dropWhile is_digit ds))
     | [] \<Rightarrow> (None, s))"

definition number_value :: "bool \<Rightarrow> str \<Rightarrow> str \<Rightarrow> int option \<Rightarrow> json" where
  "number_value neg i f e = (let sign = (if neg then -1 else 1 :: int) in
     if f = [] \<and> e = None then JInt (sign * int (digits_value i))
     else (let m = sign * int (digits_value (i @ f)); x = (case e of None \<Rightarrow> 0 | Some x \<Rightarrow> x)
           in if 0 \<le> x then canonical_dec (m * 10 ^ nat x) (length f)
              else canonical_dec m (length f + nat (- x))))"

definition parse_number :: "str \<Rightarrow> (json \<times> str) option" where
  "parse_number s = (let neg = (s \<noteq> [] \<and> hd s = CHR ''-''); t = (if neg then tl s else s)
     in case int_part t of None \<Rightarrow> None
        | Some (i, u) \<Rightarrow> (case frac_part u of (f, v) \<Rightarrow> (case exp_part v of (e, w) \<Rightarrow>
            Some (number_value neg i f e, w))))"

definition keyword :: "str \<Rightarrow> str \<Rightarrow> json \<Rightarrow> (json \<times> str) option" where
  "keyword w s v = (if starts_with s w then Some (v, drop (length w) s) else None)"

lemma length_skip_space [simp]: "length (skip_space s) \<le> length s"
  by (simp add: skip_space_def length_dropWhile_le)

lemma skip_space_less: "length s < n \<Longrightarrow> length (skip_space s) < n"
  using length_skip_space [of s] by (rule le_less_trans)

lemma skip_space_shorter: "skip_space s = c # cs \<Longrightarrow> length cs < length s"
  using length_skip_space [of s] by simp

text \<open>
  The values, array elements and object members after the opening bracket. The tests that the
  rest of the text has become shorter make the recursion well-founded; they always succeed
  (\<open>parse_value_shorter\<close>).
\<close>

function parse_value :: "str \<Rightarrow> (json \<times> str) option"
  and parse_elements :: "str \<Rightarrow> (json list \<times> str) option"
  and parse_members :: "str \<Rightarrow> dict \<Rightarrow> (dict \<times> str) option" where
  "parse_value s = (case s of [] \<Rightarrow> None
     | c # cs \<Rightarrow>
       if c = quote_char then map_option (\<lambda>(t, r). (JStr t, r)) (string_body cs)
       else if c = CHR ''{'' then
         (case skip_space cs of [] \<Rightarrow> None
          | d # ds \<Rightarrow> if d = CHR ''}'' then Some (JObj [], ds)
              else map_option (\<lambda>(m, r). (JObj m, r)) (parse_members (d # ds) []))
       else if c = CHR ''['' then
         (case skip_space cs of [] \<Rightarrow> None
          | d # ds \<Rightarrow> if d = CHR '']'' then Some (JList [], ds)
              else map_option (\<lambda>(xs, r). (JList xs, r)) (parse_elements (d # ds)))
       else if c = CHR ''n'' then keyword ''null'' s JNull
       else if c = CHR ''t'' then keyword ''true'' s (JBool True)
       else if c = CHR ''f'' then keyword ''false'' s (JBool False)
       else parse_number s)"
| "parse_elements s = (case parse_value s of None \<Rightarrow> None
     | Some (v, r) \<Rightarrow> (case skip_space r of [] \<Rightarrow> None
        | d # ds \<Rightarrow> if d = CHR '']'' then Some ([v], ds)
            else if d = CHR '','' \<and> length ds < length s
            then map_option (\<lambda>(vs, t). (v # vs, t)) (parse_elements (skip_space ds))
            else None))"
| "parse_members s acc = (case s of [] \<Rightarrow> None
     | c # cs \<Rightarrow> if c \<noteq> quote_char then None
         else (case string_body cs of None \<Rightarrow> None
           | Some (k, r) \<Rightarrow> (case skip_space r of [] \<Rightarrow> None
              | d # ds \<Rightarrow> if d \<noteq> CHR '':'' \<or> \<not> length ds < length s then None
                  else (case parse_value (skip_space ds) of None \<Rightarrow> None
                    | Some (v, t) \<Rightarrow> (case skip_space t of [] \<Rightarrow> None
                       | e # es \<Rightarrow> if e = CHR ''}'' then Some (dict_set acc k v, es)
                           else if e = CHR '','' \<and> length es < length s
                           then parse_members (skip_space es) (dict_set acc k v)
                           else None)))))"
  by pat_completeness auto

termination
proof (relation "measure (\<lambda>x. case x of Inl s \<Rightarrow> 3 * length s
    | Inr (Inl s) \<Rightarrow> 3 * length s + 1 | Inr (Inr (s, a)) \<Rightarrow> 3 * length s + 1)", goal_cases)
  case 1
  show ?case by simp
next
  case (2 s c cs d ds)
  then show ?case using skip_space_shorter [of cs d ds] by simp
next
  case (3 s c cs d ds)
  then show ?case using skip_space_shorter [of cs d ds] by simp
next
  case (4 s)
  then show ?case by simp
next
  case (5 s v p r d ds)
  then show ?case using skip_space_less [of ds "length s"] by simp
next
  case (6 s acc c cs x k r d ds)
  then show ?case using skip_space_less [of ds "length s"] by simp
next
  case (7 s acc c cs x k r d ds y v t e es)
  then show ?case using skip_space_less [of es "length s"] by simp
qed

declare parse_value.simps [simp del] parse_elements.simps [simp del] parse_members.simps [simp del]

definition json_loads :: "str \<Rightarrow> json option" where
  "json_loads s = (case parse_value (skip_space s) of None \<Rightarrow> None
     | Some (v, r) \<Rightarrow> if skip_space r = [] then Some v else None)"

section \<open>Strings read back\<close>

lemma hex_value_digit: "m < 16 \<Longrightarrow> hex_value (hex_digit m) = Some m"
  by (auto simp: hex_value_def hex_digit_def Let_def)

lemma control_escape:
  assumes "n < (256::nat)"
  shows "unicode_escape (CHR ''0'') (CHR ''0'') (hex_digit (n div 16)) (hex_digit (n mod 16)) = Some (char_of n)"
proof -
  have "hex_value (hex_digit (n div 16)) = Some (n div 16)" "hex_value (hex_digit (n mod 16)) = Some (n mod 16)"
    using assms by (simp_all add: hex_value_digit)
  moreover have "hex_value (CHR ''0'') = Some 0"
    by (simp add: hex_value_def)
  ultimately show ?thesis using assms by (simp add: unicode_escape_def)
qed

lemma string_body_unicode:
  assumes "n = (of_char c :: nat)"
  shows "string_body ([backslash, CHR ''u'', CHR ''0'', CHR ''0'', hex_digit (n div 16), hex_digit (n mod 16)] @ s)
    = map_option (\<lambda>(t, r). (c # t, r)) (string_body s)"
proof -
  have "n < 256" using assms by simp
  from control_escape [OF this] assms show ?thesis by simp
qed

lemma string_body_escape:
  "string_body (json_escape c @ s) = map_option (\<lambda>(t, r). (c # t, r)) (string_body s)"
proof -
  obtain n where n: "n = (of_char c :: nat)" by simp
  then have c: "c = char_of n" by simp
  consider "n = 34" | "n = 92" | "n = 8" | "n = 12" | "n = 10" | "n = 13" | "n = 9"
    | "n < 32" "n \<notin> {8, 9, 10, 12, 13}" | "32 \<le> n" "n \<noteq> 34" "n \<noteq> 92"
    by force
  then show ?thesis
  proof cases
    case 8
    then have "json_escape c = [backslash, CHR ''u'', CHR ''0'', CHR ''0'', hex_digit (n div 16), hex_digit (n mod 16)]"
      by (simp add: json_escape_def n [symmetric])
    with string_body_unicode [OF n, of s] show ?thesis by simp
  next
    case 9
    then show ?thesis by (simp add: json_escape_def n [symmetric])
  qed (simp_all add: c json_escape_def unescape_def char_of_eq_iff)
qed

lemma string_body_escape_ascii:
  "string_body (json_escape_ascii c @ s) = map_option (\<lambda>(t, r). (c # t, r)) (string_body s)"
  using string_body_unicode [OF refl, of c s] string_body_escape [of c s]
  by (simp only: json_escape_ascii_def Let_def split: if_split) blast

text \<open>What reading back needs of an encoder: each escaped character is read as that character.\<close>

locale json_encoder =
  fixes esc :: "char \<Rightarrow> str"
  assumes esc_read: "string_body (esc c @ s) = map_option (\<lambda>(t, r). (c # t, r)) (string_body s)"

section \<open>Numbers read back\<close>

lemma digits_value_snoc: "digits_value (ds @ [c]) = 10 * digits_value ds + (of_char c - 48)"
  by (simp add: digits_value_def)

lemma digits_value_append:
  "digits_value (xs @ ys) = digits_value xs * 10 ^ length ys + digits_value ys"
proof (induction ys rule: rev_induct)
  case (snoc y ys)
  have "digits_value (xs @ ys @ [y]) = 10 * digits_value (xs @ ys) + (of_char y - 48)"
    using digits_value_snoc [of "xs @ ys" y] by simp
  with snoc show ?case by (simp add: digits_value_snoc algebra_simps)
qed (simp add: digits_value_def)

lemma digits_value_show: "digits_value (show_digits n) = n"
proof (induction n rule: show_digits.induct)
  case (1 n)
  show ?case
  proof (cases "n < 10")
    case True
    then show ?thesis by (subst show_digits.simps) (simp add: digits_value_def)
  next
    case False
    with 1 show ?thesis by (subst show_digits.simps) (simp add: digits_value_snoc)
  qed
qed

lemma digits_value_zeros: "digits_value (replicate j (CHR ''0'') @ ds) = digits_value ds"
proof -
  have "digits_value (replicate j (CHR ''0'')) = 0"
    by (induction j) (simp_all add: digits_value_def)
  then show ?thesis by (simp add: digits_value_append)
qed

lemma show_digits_hd: "0 < n \<Longrightarrow> hd (show_digits n) \<noteq> CHR ''0''"
proof (induction n rule: show_digits.induct)
  case (1 n)
  show ?case
  proof (cases "n < 10")
    case True
    have "(of_char (char_of (48 + n) :: char) :: nat) = 48 + n"
      using True by simp
    then have "char_of (48 + n) \<noteq> CHR ''0''"
      using 1(2) by (auto simp del: of_char_of)
    with True show ?thesis by (subst show_digits.simps) simp
  next
    case False
    with 1 show ?thesis by (subst show_digits.simps) simp
  qed
qed

text \<open>The character after a number must not continue it.\<close>

definition ends_number :: "str \<Rightarrow> bool" where
  "ends_number r \<longleftrightarrow> (case r of [] \<Rightarrow> True
     | c # cs \<Rightarrow> \<not> is_digit c \<and> c \<noteq> CHR ''.'' \<and> c \<noteq> CHR ''e'' \<and> c \<noteq> CHR ''E'')"

lemma takeWhile_digits:
  assumes "\<forall>c \<in> set ds. is_digit c" and "r = [] \<or> \<not> is_digit (hd r)"
  shows "takeWhile is_digit (ds @ r) = ds" and "dropWhile is_digit (ds @ r) = r"
proof -
  have "takeWhile is_digit r = []" "dropWhile is_digit r = r"
    using assms(2) by (cases r; simp)+
  with assms(1) show "takeWhile is_digit (ds @ r) = ds" and "dropWhile is_digit (ds @ r) = r"
    by (simp_all add: takeWhile_append2 dropWhile_append2)
qed

lemma digits_not_zero: "is_digit (hd (show_digits n))"
  using show_digits_all [of "hd (show_digits n)" n] by simp

lemma show_digits_zero: "show_digits 0 = ''0''"
  by (subst show_digits.simps) (simp add: char_of_eq_iff)

lemma int_part_show:
  assumes "r = [] \<or> \<not> is_digit (hd r)"
  shows "int_part (show_digits n @ r) = Some (show_digits n, r)"
proof (cases "n = 0")
  case True
  then show ?thesis by (simp add: int_part_def show_digits_zero is_digit_def)
next
  case False
  obtain c cs where eq: "show_digits n = c # cs"
    by (cases "show_digits n") simp_all
  have "c \<noteq> CHR ''0''" "is_digit c"
    using False show_digits_hd [of n] digits_not_zero [of n] eq by simp_all
  moreover have "\<forall>d \<in> set (show_digits n). is_digit d"
    by (simp add: show_digits_all)
  note takeWhile_digits [OF this assms]
  ultimately show ?thesis by (simp add: int_part_def eq)
qed

lemma frac_part_none: "ends_number r \<Longrightarrow> frac_part r = ([], r)"
  by (cases r) (simp_all add: frac_part_def ends_number_def)

lemma exp_part_none: "ends_number r \<Longrightarrow> exp_part r = (None, r)"
  by (cases r) (simp_all add: exp_part_def ends_number_def)

lemma ends_number_digit: "ends_number r \<Longrightarrow> r = [] \<or> \<not> is_digit (hd r)"
  by (cases r) (simp_all add: ends_number_def)

lemma digit_not_minus: "is_digit c \<Longrightarrow> c \<noteq> CHR ''-''"
  by (auto simp: is_digit_def)

lemma show_digits_not_minus: "hd (show_digits n @ r) \<noteq> CHR ''-''"
  using digit_not_minus [OF digits_not_zero [of n]] by simp

lemma parse_number_signed:
  "parse_number (CHR ''-'' # show_digits n @ r) = (case int_part (show_digits n @ r) of None \<Rightarrow> None
     | Some (i, u) \<Rightarrow> (case frac_part u of (f, v) \<Rightarrow> (case exp_part v of (e, w) \<Rightarrow> Some (number_value True i f e, w))))"
  "parse_number (show_digits n @ r) = (case int_part (show_digits n @ r) of None \<Rightarrow> None
     | Some (i, u) \<Rightarrow> (case frac_part u of (f, v) \<Rightarrow> (case exp_part v of (e, w) \<Rightarrow> Some (number_value False i f e, w))))"
  using show_digits_not_minus [of n r] by (simp_all add: parse_number_def Let_def)

lemma parse_show_int:
  assumes "ends_number r"
  shows "parse_number (show_int n @ r) = Some (JInt n, r)"
proof -
  note ip = int_part_show [OF ends_number_digit [OF assms]]
  note rest = frac_part_none [OF assms] exp_part_none [OF assms]
  show ?thesis
    by (simp add: show_int_def parse_number_signed ip rest number_value_def digits_value_show)
qed

lemma show_digits_length: "n < 10 ^ Suc k \<Longrightarrow> length (show_digits n) \<le> Suc k"
proof (induction k arbitrary: n)
  case 0
  then show ?case by (subst show_digits.simps) simp
next
  case (Suc k)
  show ?case
  proof (cases "n < 10")
    case True
    then show ?thesis by (subst show_digits.simps) simp
  next
    case False
    have "n div 10 < 10 ^ Suc k"
      using Suc.prems by (simp add: less_mult_imp_div_less mult.commute)
    then have "length (show_digits (n div 10)) \<le> Suc k" by (rule Suc.IH)
    with False show ?thesis by (subst show_digits.simps) simp
  qed
qed

text \<open>The decimals Python prints: a fraction without superfluous zeros.\<close>

definition dec_ok :: "int \<Rightarrow> nat \<Rightarrow> bool" where
  "dec_ok m k \<longleftrightarrow> k = 1 \<or> 1 < k \<and> m mod 10 \<noteq> 0"

lemma canonical_dec_ok: "dec_ok m k \<Longrightarrow> canonical_dec m k = JDec m k"
  by (cases "(m, k)" rule: canonical_dec.cases) (auto simp: dec_ok_def)

definition frac_text :: "nat \<Rightarrow> nat \<Rightarrow> str" where
  "frac_text a k = (let f = show_digits (a mod 10 ^ k) in replicate (k - length f) (CHR ''0'') @ f)"

lemma frac_text_props:
  assumes "0 < k"
  shows "length (frac_text a k) = k" and "\<forall>c \<in> set (frac_text a k). is_digit c"
    and "digits_value (frac_text a k) = a mod 10 ^ k"
proof -
  obtain j where k: "k = Suc j" using assms by (cases k) simp_all
  have "length (show_digits (a mod 10 ^ k)) \<le> k"
    unfolding k by (rule show_digits_length) simp
  then show "length (frac_text a k) = k" by (simp add: frac_text_def Let_def)
  have "is_digit (CHR ''0'')" by (simp add: is_digit_def)
  then show "\<forall>c \<in> set (frac_text a k). is_digit c"
    by (auto simp: frac_text_def Let_def show_digits_all)
  show "digits_value (frac_text a k) = a mod 10 ^ k"
    by (simp add: frac_text_def Let_def digits_value_zeros digits_value_show)
qed

lemma show_dec_text:
  assumes "0 < k"
  shows "show_dec m k = (if m < 0 then ''-'' else []) @ show_digits (nat \<bar>m\<bar> div 10 ^ k) @ CHR ''.'' # frac_text (nat \<bar>m\<bar>) k"
  using assms by (simp add: show_dec_def frac_text_def Let_def)

lemma parse_show_dec:
  assumes "dec_ok m k" and "ends_number r"
  shows "parse_number (show_dec m k @ r) = Some (JDec m k, r)"
proof -
  have k: "0 < k" using assms(1) by (auto simp: dec_ok_def)
  define a where "a = nat \<bar>m\<bar>"
  note ft = frac_text_props [OF k, of a]
  let ?w = "show_digits (a div 10 ^ k)" and ?f = "frac_text a k"
  have dot: "CHR ''.'' # ?f @ r = [] \<or> \<not> is_digit (hd (CHR ''.'' # ?f @ r))"
    by (simp add: is_digit_def)
  have ne: "?f \<noteq> []" using ft(1) k by auto
  have frac: "frac_part (CHR ''.'' # ?f @ r) = (?f, r)"
    using takeWhile_digits [OF ft(2) ends_number_digit [OF assms(2)]] ne by (simp add: frac_part_def)
  have val: "digits_value (?w @ ?f) = a"
    by (simp add: digits_value_append digits_value_show ft(1,3) div_mult_mod_eq)
  have num: "number_value (m < 0) ?w ?f None = JDec m k"
    using ne canonical_dec_ok [OF assms(1)] by (simp add: number_value_def val ft(1)) (simp add: a_def)
  have shown: "show_dec m k = (if m < 0 then ''-'' else []) @ ?w @ CHR ''.'' # ?f"
    unfolding a_def by (rule show_dec_text [OF k])
  show ?thesis
    using num by (cases "m < 0") (simp_all add: shown parse_number_signed int_part_show [OF dot] frac
        exp_part_none [OF assms(2)])
qed

section \<open>Values read back\<close>

text \<open>The values Python can hold: floats in their printed form, distinct keys.\<close>

fun json_ok :: "json \<Rightarrow> bool" where
  "json_ok (JDec m k) \<longleftrightarrow> dec_ok m k"
| "json_ok (JList xs) \<longleftrightarrow> (\<forall>x \<in> set xs. json_ok x)"
| "json_ok (JObj d) \<longleftrightarrow> distinct (map fst d) \<and> (\<forall>(k, v) \<in> set d. json_ok v)"
| "json_ok _ \<longleftrightarrow> True"

definition value_start :: "char \<Rightarrow> bool" where
  "value_start c \<longleftrightarrow> \<not> json_space c \<and> c \<noteq> CHR '']'' \<and> c \<noteq> CHR ''}''"

lemma digit_start: "is_digit c \<Longrightarrow> value_start c"
  by (auto simp: is_digit_def value_start_def json_space_def Let_def)

lemma show_digits_start: "\<exists>c cs. show_digits j @ s = c # cs \<and> (is_digit c \<or> c = CHR ''-'')"
  using digits_not_zero [of j] by (cases "show_digits j") simp_all

lemma show_int_start: "\<exists>c cs. show_int n = c # cs \<and> (is_digit c \<or> c = CHR ''-'')"
  using show_digits_start [of "nat n" "[]"] by (cases "n < 0") (simp_all add: show_int_def)

lemma show_dec_start: "\<exists>c cs. show_dec m k = c # cs \<and> (is_digit c \<or> c = CHR ''-'')"
proof (cases "m < 0")
  case False
  obtain s where "show_dec m k = show_digits (nat \<bar>m\<bar> div 10 ^ k) @ s"
    using False by (simp add: show_dec_def Let_def)
  with show_digits_start show ?thesis by simp
qed (simp add: show_dec_def Let_def)

lemma minus_start: "value_start (CHR ''-'')"
  by (simp add: value_start_def json_space_def)

lemma skip_space_start: "value_start c \<Longrightarrow> skip_space (c # cs) = c # cs"
  by (simp add: skip_space_def value_start_def)

lemma skip_space_mark [simp]:
  "skip_space (CHR '','' # s) = CHR '','' # s" "skip_space (CHR '']'' # s) = CHR '']'' # s"
  "skip_space (CHR ''}'' # s) = CHR ''}'' # s" "skip_space (CHR '':'' # s) = CHR '':'' # s"
  "skip_space (quote_char # s) = quote_char # s" "skip_space [] = []"
  "skip_space (CHR '' '' # s) = skip_space s"
  by (simp_all add: skip_space_def json_space_def)

lemma ends_number_mark [simp]:
  "ends_number (CHR '','' # s)" "ends_number (CHR '']'' # s)" "ends_number (CHR ''}'' # s)" "ends_number []"
  by (simp_all add: ends_number_def is_digit_def)

lemma parse_value_number:
  assumes "is_digit c \<or> c = CHR ''-''"
  shows "parse_value (c # cs) = parse_number (c # cs)"
proof -
  have "c \<notin> {quote_char, CHR ''{'', CHR ''['', CHR ''n'', CHR ''t'', CHR ''f''}"
    using assms by (auto simp: is_digit_def)
  then show ?thesis by (simp add: parse_value.simps [of "c # cs"])
qed

lemma parse_value_open:
  "parse_value (quote_char # s) = map_option (\<lambda>(t, r). (JStr t, r)) (string_body s)"
  "parse_value (CHR ''n'' # s) = keyword ''null'' (CHR ''n'' # s) JNull"
  "parse_value (CHR ''t'' # s) = keyword ''true'' (CHR ''t'' # s) (JBool True)"
  "parse_value (CHR ''f'' # s) = keyword ''false'' (CHR ''f'' # s) (JBool False)"
  by (simp_all add: parse_value.simps [of "_ # _"])

lemma parse_value_list:
  assumes "skip_space s = d # ds" and "d \<noteq> CHR '']''"
  shows "parse_value (CHR ''['' # s) = map_option (\<lambda>(xs, r). (JList xs, r)) (parse_elements (d # ds))"
  using assms by (simp add: parse_value.simps [of "_ # _"])

lemma parse_value_object:
  assumes "skip_space s = d # ds" and "d \<noteq> CHR ''}''"
  shows "parse_value (CHR ''{'' # s) = map_option (\<lambda>(m, r). (JObj m, r)) (parse_members (d # ds) [])"
  using assms by (simp add: parse_value.simps [of "_ # _"])

lemma parse_value_empty:
  "parse_value (CHR ''['' # CHR '']'' # s) = Some (JList [], s)"
  "parse_value (CHR ''{'' # CHR ''}'' # s) = Some (JObj [], s)"
  by (simp_all add: parse_value.simps [of "_ # _"])

lemma dict_set_fresh: "k \<notin> fst ` set d \<Longrightarrow> dict_set d k v = d @ [(k, v)]"
  by (induction d k v rule: dict_set.induct) auto

definition dump_member :: "(char \<Rightarrow> str) \<Rightarrow> str \<times> json \<Rightarrow> str" where
  "dump_member esc p = json_dumps_str esc (fst p) @ '': '' @ json_dumps_with esc (snd p)"

context json_encoder
begin

lemma string_body_dumps:
  "string_body (concat (map esc s) @ quote_char # r) = Some (s, r)"
  by (induction s) (simp_all add: esc_read del: string_body.simps, simp)

lemma dumps_start: "\<exists>c cs. json_dumps_with esc v = c # cs \<and> value_start c"
proof (cases v)
  case (JInt n)
  then show ?thesis using show_int_start [of n] digit_start minus_start by auto
next
  case (JDec m k)
  then show ?thesis using show_dec_start [of m k] digit_start minus_start by auto
qed (auto simp: json_dumps_str_def value_start_def json_space_def)

lemma parse_elements_dumps:
  assumes "xs \<noteq> []" and "\<And>x r. x \<in> set xs \<Longrightarrow> ends_number r \<Longrightarrow> parse_value (json_dumps_with esc x @ r) = Some (x, r)"
  shows "parse_elements (join '', '' (map (json_dumps_with esc) xs) @ CHR '']'' # r) = Some (xs, r)"
  using assms
proof (induction xs)
  case (Cons x xs)
  have here: "ends_number t \<Longrightarrow> parse_value (json_dumps_with esc x @ t) = Some (x, t)" for t
    by (rule Cons.prems(2)) simp_all
  show ?case
  proof (cases xs)
    case Nil
    then show ?thesis by (simp add: parse_elements.simps here)
  next
    case (Cons y ys)
    let ?rest = "join '', '' (map (json_dumps_with esc) xs) @ CHR '']'' # r"
    obtain c cs where "?rest = c # cs" "value_start c"
      using dumps_start [of y] Cons by (cases ys) auto
    then have skip: "skip_space ?rest = ?rest" by (simp add: skip_space_start)
    have "parse_elements ?rest = Some (xs, r)"
      using Cons.IH Cons.prems(2) Cons by simp
    then show ?thesis
      using skip Cons by (simp add: parse_elements.simps [of "json_dumps_with esc x @ _"] here)
  qed
qed simp

lemma json_dumps_JObj: "json_dumps_with esc (JObj d) = ''{'' @ join '', '' (map (dump_member esc) d) @ ''}''"
proof -
  have "dump_member esc = (\<lambda>(k, v). json_dumps_str esc k @ '': '' @ json_dumps_with esc v)"
    by (simp add: fun_eq_iff dump_member_def)
  then show ?thesis by simp
qed

lemma dump_member_text:
  "dump_member esc (k, v) @ t = quote_char # (concat (map esc k) @ quote_char # (CHR '':'' # CHR '' '' # json_dumps_with esc v @ t))"
  by (simp add: dump_member_def json_dumps_str_def)

lemma parse_members_dumps:
  assumes "d \<noteq> []" and "distinct (map fst (acc @ d))"
    and "\<And>k v r. (k, v) \<in> set d \<Longrightarrow> ends_number r \<Longrightarrow> parse_value (json_dumps_with esc v @ r) = Some (v, r)"
  shows "parse_members (join '', '' (map (dump_member esc) d) @ CHR ''}'' # r) acc = Some (acc @ d, r)"
  using assms
proof (induction d arbitrary: acc)
  case (Cons p d)
  obtain k v where p: "p = (k, v)" by force
  have here: "ends_number t \<Longrightarrow> parse_value (json_dumps_with esc v @ t) = Some (v, t)" for t
    by (rule Cons.prems(3) [of k]) (simp_all add: p)
  have fresh: "dict_set acc k v = acc @ [(k, v)]"
    using Cons.prems(2) p by (intro dict_set_fresh) auto
  have skip: "skip_space (json_dumps_with esc v @ t) = json_dumps_with esc v @ t" for t
    using dumps_start [of v] skip_space_start by auto
  show ?case
  proof (cases d)
    case Nil
    then show ?thesis
      by (simp add: p dump_member_text parse_members.simps string_body_dumps skip here fresh)
  next
    case (Cons q qs)
    let ?rest = "join '', '' (map (dump_member esc) d) @ CHR ''}'' # r"
    have "skip_space ?rest = ?rest"
      using Cons by (cases qs; cases q) (simp_all add: dump_member_text)
    moreover have "parse_members ?rest (acc @ [(k, v)]) = Some ((acc @ [(k, v)]) @ d, r)"
      by (rule Cons.IH) (use Cons.prems Cons p in auto)
    ultimately show ?thesis
      using Cons by (simp add: p dump_member_text parse_members.simps [of "quote_char # _"]
          string_body_dumps skip here fresh)
  qed
qed simp

lemma parse_value_dumps:
  "json_ok v \<Longrightarrow> ends_number r \<Longrightarrow> parse_value (json_dumps_with esc v @ r) = Some (v, r)"
proof (induction v arbitrary: r)
  case (JBool b)
  then show ?case by (cases b) (simp_all add: parse_value_open keyword_def starts_with_def)
next
  case (JInt n)
  obtain c cs where s: "show_int n = c # cs" "is_digit c \<or> c = CHR ''-''"
    using show_int_start [of n] by blast
  then show ?case
    using parse_show_int [OF JInt(2), of n] by (simp add: parse_value_number [OF s(2)])
next
  case (JDec m k)
  obtain c cs where s: "show_dec m k = c # cs" "is_digit c \<or> c = CHR ''-''"
    using show_dec_start [of m k] by blast
  then show ?case
    using parse_show_dec [OF _ JDec(2), of m k] JDec(1) by (simp add: parse_value_number [OF s(2)])
next
  case (JStr s)
  then show ?case by (simp add: json_dumps_str_def parse_value_open string_body_dumps)
next
  case (JList xs)
  show ?case
  proof (cases xs)
    case Nil
    then show ?thesis by (simp add: parse_value_empty)
  next
    case (Cons y ys)
    let ?s = "join '', '' (map (json_dumps_with esc) xs) @ CHR '']'' # r"
    obtain c cs where s: "?s = c # cs" "value_start c"
      using dumps_start [of y] Cons by (cases ys) auto
    have "parse_elements ?s = Some (xs, r)"
      using JList Cons by (intro parse_elements_dumps) auto
    with s show ?thesis
      by (simp add: parse_value_list [OF skip_space_start [OF s(2)]] value_start_def)
  qed
next
  case (JObj d)
  show ?case
  proof (cases d)
    case Nil
    then show ?thesis by (simp add: parse_value_empty)
  next
    case (Cons p ps)
    let ?s = "join '', '' (map (dump_member esc) d) @ CHR ''}'' # r"
    obtain cs where s: "?s = quote_char # cs"
      using Cons by (cases ps; cases p) (simp_all add: dump_member_text)
    have here: "parse_value (json_dumps_with esc v @ t) = Some (v, t)" if "(k, v) \<in> set d" "ends_number t" for k v t
      using JObj.IH [OF that(1) _ _ that(2), of v] JObj.prems(1) that(1) by auto
    have "parse_members ?s [] = Some ([] @ d, r)"
      by (rule parse_members_dumps [OF _ _ here]) (use JObj.prems Cons in simp_all)
    with s show ?thesis
      by (simp add: json_dumps_JObj parse_value_object [of "quote_char # cs"] del: json_dumps_with.simps)
  qed
qed (simp add: parse_value_open keyword_def starts_with_def)

lemma roundtrip:
  assumes "json_ok v"
  shows "json_loads (json_dumps_with esc v) = Some v"
proof -
  have "skip_space (json_dumps_with esc v) = json_dumps_with esc v"
    using dumps_start [of v] skip_space_start by auto
  moreover have "parse_value (json_dumps_with esc v) = Some (v, [])"
    using parse_value_dumps [OF assms, of "[]"] by simp
  ultimately show ?thesis by (simp add: json_loads_def)
qed

end

interpretation plain: json_encoder json_escape
  by unfold_locales (rule string_body_escape)

interpretation ascii: json_encoder json_escape_ascii
  by unfold_locales (rule string_body_escape_ascii)

lemma json_loads_dumps [simp]: "json_ok v \<Longrightarrow> json_loads (json_dumps v) = Some v"
  unfolding json_dumps_def by (rule plain.roundtrip)

text \<open>
  Reading back a dumped value gives the value, \<open>json.loads(json.dumps(v)) == v\<close>, with and
  without \<open>ensure_ascii\<close>, for every value with distinct keys and floats in their printed
  form, whatever its strings hold.
\<close>

lemma json_roundtrip:
  assumes "json_ok v"
  shows "json_loads (json_dumps v) = Some v \<and> json_loads (json_dumps_ascii v) = Some v"
  unfolding json_dumps_def json_dumps_ascii_def
  using plain.roundtrip [OF assms] ascii.roundtrip [OF assms] by simp

section \<open>The parser consumes its input\<close>

lemma string_body_shorter: "string_body s = Some (t, r) \<Longrightarrow> length r < length s"
proof (induction "length s" arbitrary: s t rule: less_induct)
  case less
  show ?case
  proof (cases s)
    case (Cons c cs)
    have ih: "length r < length s" if "string_body u = Some (x, r)" "length u < length s" for u x
      using less.hyps [OF that(2,1)] that(2) by simp
    define n where "n = (of_char c :: nat)"
    note eq = less.prems [unfolded Cons string_body.simps Let_def, folded n_def]
    consider "n = 34" | "n \<noteq> 34" "n \<noteq> 92" | "n = 92" by blast
    then show ?thesis
    proof cases
      case 1
      with eq Cons show ?thesis by simp
    next
      case 2
      with eq obtain x where "string_body cs = Some (x, r)" by (auto split: if_splits)
      then show ?thesis using ih [of cs x] Cons by simp
    next
      case 3
      with eq obtain e es where cs: "cs = e # es" by (cases cs) auto
      show ?thesis
      proof (cases "e = CHR ''u''")
        case False
        with eq 3 cs obtain x where "string_body es = Some (x, r)" by (auto split: option.splits)
        then show ?thesis using ih [of es x] Cons cs by simp
      next
        case True
        with eq 3 cs obtain a b d f fs x where "es = a # b # d # f # fs" "string_body fs = Some (x, r)"
          by (auto split: option.splits list.splits)
        then show ?thesis using ih [of fs x] Cons cs by simp
      qed
    qed
  qed (use less.prems in simp)
qed

lemma int_part_shorter: "int_part s = Some (i, r) \<Longrightarrow> length r < length s"
  using length_dropWhile_le [of is_digit "tl s"]
  by (cases s) (auto simp: int_part_def split: if_splits)

lemma frac_part_shorter: "frac_part s = (f, r) \<Longrightarrow> length r \<le> length s"
  using length_dropWhile_le [of is_digit "tl s"]
  by (cases s) (auto simp: frac_part_def split: if_splits)

lemma exp_part_shorter: "exp_part s = (e, r) \<Longrightarrow> length r \<le> length s"
  using length_dropWhile_le [of is_digit "tl s"] length_dropWhile_le [of is_digit "tl (tl s)"]
  by (cases s) (auto simp: exp_part_def Let_def split: if_splits)

lemma parse_number_shorter:
  assumes "parse_number s = Some (v, r)"
  shows "length r < length s"
proof -
  obtain i u f w e where "int_part (if s \<noteq> [] \<and> hd s = CHR ''-'' then tl s else s) = Some (i, u)"
    "frac_part u = (f, w)" "exp_part w = (e, r)"
    using assms by (auto simp: parse_number_def Let_def split: option.splits prod.splits if_splits)
  then show ?thesis
    using int_part_shorter frac_part_shorter exp_part_shorter by (fastforce split: if_splits)
qed

lemma keyword_shorter: "keyword w s v = Some (x, r) \<Longrightarrow> w \<noteq> [] \<Longrightarrow> s \<noteq> [] \<Longrightarrow> length r < length s"
  by (auto simp: keyword_def split: if_splits)

lemma parse_shorter:
  "parse_value s = Some (v, r) \<Longrightarrow> length r < length s"
  "parse_elements s = Some (vs, r) \<Longrightarrow> length r < length s"
  "parse_members s acc = Some (d, r) \<Longrightarrow> length r < length s"
proof (induction s and s and s acc arbitrary: v r and vs r and d r
    rule: parse_value_parse_elements_parse_members.induct)
  case (1 s)
  show ?case
  proof (cases s)
    case Nil
    with 1 show ?thesis by (simp add: parse_value.simps)
  next
    case (Cons c cs)
    have obj: "length r < length s" if "skip_space cs = x # xs" "parse_members (x # xs) [] = Some (m, r)"
      "c = CHR ''{''" "x \<noteq> CHR ''}''" for x xs m
      using "1.IH"(1) [OF Cons _ that(3) that(1) that(4) that(2)] skip_space_shorter [OF that(1)] that Cons by simp
    have lst: "length r < length s" if "skip_space cs = x # xs" "parse_elements (x # xs) = Some (m, r)"
      "c = CHR ''[''" "x \<noteq> CHR '']''" for x xs m
      using "1.IH"(2) [OF Cons _ _ that(3) that(1) that(4) that(2)] skip_space_shorter [OF that(1)] that Cons by simp
    have atom: "length r < length s" if "skip_space cs = x # r" for x
      using skip_space_shorter [OF that] Cons by simp
    from "1.prems" show ?thesis
      using Cons string_body_shorter [of cs] parse_number_shorter [of s] keyword_shorter [of _ s]
      by (subst (asm) parse_value.simps)
        (auto split: if_splits list.splits dest: obj lst atom simp: le_SucI less_SucI)
  qed
next
  case (2 s)
  from "2.prems" obtain x t d ds where h: "parse_value s = Some (x, t)" "skip_space t = d # ds"
    and alt: "r = ds \<or> d \<noteq> CHR '']'' \<and> d = CHR '','' \<and> length ds < length s \<and> (\<exists>us. parse_elements (skip_space ds) = Some (us, r))"
    by (subst (asm) parse_elements.simps) (auto split: option.splits list.splits if_splits)
  have "length ds < length s"
    using "2.IH"(1) [OF h(1)] skip_space_shorter [OF h(2)] by simp
  moreover have "length r < length (skip_space ds)" if "r \<noteq> ds"
    using alt that "2.IH"(2) [OF h(1) refl h(2)] by blast
  ultimately show ?case
    using skip_space_less [of ds "length s"] by force
next
  case (3 s acc)
  from "3.prems" obtain cs k u d ds x t e es where s: "s = quote_char # cs"
    and h: "string_body cs = Some (k, u)" "skip_space u = d # ds" "d = CHR '':'' \<and> length ds < length s"
      "parse_value (skip_space ds) = Some (x, t)" "skip_space t = e # es"
    and alt: "r = es \<or> e \<noteq> CHR ''}'' \<and> e = CHR '','' \<and> length es < length s
      \<and> (\<exists>m. parse_members (skip_space es) (dict_set acc k x) = Some (m, r))"
    by (subst (asm) parse_members.simps) (auto split: option.splits list.splits if_splits)
  have ne: "\<not> (d \<noteq> CHR '':'' \<or> \<not> length ds < length s)" using h(3) by simp
  have "length t < length (skip_space ds)"
    using "3.IH"(1) [OF s _ h(1) refl h(2) ne h(4)] by simp
  then have "length es < length s"
    using skip_space_shorter [OF h(5)] skip_space_less [of ds "length s"] h(3) by simp
  moreover have "length r < length (skip_space es)" if "r \<noteq> es"
    using alt that "3.IH"(2) [OF s _ h(1) refl h(2) ne h(4) refl h(5)] by blast
  ultimately show ?case
    using skip_space_less [of es "length s"] by force
qed

end
