(* ===== verification/ReadRegistry.thy ===== *)
theory ReadRegistry
  imports Json
begin

text \<open>
  \<open>services/runtime/app/engine/read_registry.py\<close>: which lines of which files this turn has
  read, when a repeated read is refused, how an evicted body earns one more read, and the
  form of the registry in a checkpoint. The content hash of a file on disk
  (\<open>disk_content_hash\<close>, file I/O and SHA-256) is the parameter \<open>disk\<close>; the diff text of
  a conflict (\<open>diff_since_read\<close>, difflib) is the parameter \<open>diff\<close>. A refusal is a value
  of \<open>denial\<close> that holds the arguments of its message.
\<close>

section \<open>Paths and ranges\<close>

fun strip_dot_slash :: "str \<Rightarrow> str" where
  "strip_dot_slash (c # d # p) = (if c = CHR ''.'' \<and> d = CHR ''/'' then strip_dot_slash p else c # d # p)"
| "strip_dot_slash p = p"

definition normalize_read_path :: "str \<Rightarrow> str" where
  "normalize_read_path path = strip_dot_slash (replace_char (CHR 0x5C) (CHR ''/'') (strip path))"

definition line_covered :: "(int \<times> int) list \<Rightarrow> int \<Rightarrow> bool" where
  "line_covered ranges line \<longleftrightarrow> (\<exists>(start, fin) \<in> set ranges. start \<le> line \<and> line \<le> fin)"

record path_read_state =
  covered_ranges :: "(int \<times> int) list"
  whole_file_complete :: bool
  next_offset :: "int option"
  allow_reread_once :: bool
  content_hash :: str

definition new_path_read_state :: path_read_state where
  "new_path_read_state = \<lparr>covered_ranges = [], whole_file_complete = False, next_offset = None,
     allow_reread_once = False, content_hash = []\<rparr>"

type_synonym registry = "(str \<times> path_read_state) list"

section \<open>Checkpoint form\<close>

definition path_state_to_dict :: "path_read_state \<Rightarrow> dict" where
  "path_state_to_dict st =
     [(''covered_ranges'', JList (map (\<lambda>(a, b). JList [JInt a, JInt b]) (covered_ranges st))),
      (''whole_file_complete'', JBool (whole_file_complete st)),
      (''next_offset'', case next_offset st of None \<Rightarrow> JNull | Some n \<Rightarrow> JInt n),
      (''allow_reread_once'', JBool (allow_reread_once st)),
      (''content_hash'', JStr (content_hash st))]"

text \<open>\<open>int(item[0]), int(item[1])\<close> of the list items; None is an exception of \<open>int\<close>.\<close>

fun read_ranges :: "json list \<Rightarrow> (int \<times> int) list option" where
  "read_ranges [] = Some []"
| "read_ranges (item # items) = (case item of
      JList (a # b # others) \<Rightarrow> (case (py_int a, py_int b, read_ranges items) of
          (Some i, Some j, Some rs) \<Rightarrow> Some ((i, j) # rs) | _ \<Rightarrow> None)
    | _ \<Rightarrow> read_ranges items)"

text \<open>\<open>from_dict\<close>; None is an exception, also of iterating a number.\<close>

definition path_state_from_dict :: "json \<Rightarrow> path_read_state option" where
  "path_state_from_dict data = (case data of
      JObj d \<Rightarrow>
        (let items = (case py_or (dict_get d ''covered_ranges'') (JList []) of
               JList xs \<Rightarrow> Some xs | JStr s \<Rightarrow> Some (map (\<lambda>c. JStr [c]) s)
             | JObj e \<Rightarrow> Some (map (\<lambda>(k, v). JStr k) e) | _ \<Rightarrow> None);
             nxt = (case dict_get d ''next_offset'' of JNull \<Rightarrow> Some None
                | v \<Rightarrow> map_option Some (py_int v))
         in (case (items, nxt) of
              (Some xs, Some n) \<Rightarrow> map_option (\<lambda>rs.
                 \<lparr>covered_ranges = rs, whole_file_complete = truthy (dict_get d ''whole_file_complete''),
                  next_offset = n, allow_reread_once = truthy (dict_get d ''allow_reread_once''),
                  content_hash = str_field d ''content_hash''\<rparr>) (read_ranges xs)
            | _ \<Rightarrow> None))
    | _ \<Rightarrow> Some new_path_read_state)"

definition serialize_read_registry :: "registry \<Rightarrow> dict" where
  "serialize_read_registry reg = map (\<lambda>(path, st). (path, JObj (path_state_to_dict st))) reg"

fun load_registry :: "dict \<Rightarrow> registry \<Rightarrow> registry option" where
  "load_registry [] out = Some out"
| "load_registry ((path, data) # rest) out =
     (let key = normalize_read_path path in
      if key = [] then load_registry rest out
      else (case path_state_from_dict data of None \<Rightarrow> None
        | Some st \<Rightarrow> load_registry rest (dict_set out key st)))"

definition deserialize_read_registry :: "json \<Rightarrow> registry option" where
  "deserialize_read_registry raw = (case raw of JObj d \<Rightarrow> load_registry d [] | _ \<Rightarrow> Some [])"

section \<open>Refusing a repeated read\<close>

datatype denial =
    Read_after_complete str
  | Read_overlap str int "(int \<times> int) list"

definition deny_redundant_read ::
  "registry \<Rightarrow> str \<Rightarrow> int \<Rightarrow> str set \<Rightarrow> str set \<Rightarrow> str option \<Rightarrow> denial option" where
  "deny_redundant_read reg path offset evicted used disk_hash =
     (let key = normalize_read_path path in
      if key = [] then None
      else (case map_of reg key of None \<Rightarrow> None
        | Some st \<Rightarrow>
          if allow_reread_once st then None
          else if next_offset st = Some offset then None
          else if key \<in> evicted \<and> key \<notin> used then None
          else if whole_file_complete st then
            (if content_hash st = ''stale'' then None
             else if content_hash st \<noteq> [] \<and> (case disk_hash of Some h \<Rightarrow> h \<noteq> [] \<and> content_hash st \<noteq> h | None \<Rightarrow> False)
             then None
             else Some (Read_after_complete key))
          else if covered_ranges st \<noteq> [] \<and> line_covered (covered_ranges st) offset
            then Some (Read_overlap key offset (covered_ranges st))
          else None))"

section \<open>Updates\<close>

definition note_edit_failure_allows_reread :: "registry \<Rightarrow> str \<Rightarrow> registry" where
  "note_edit_failure_allows_reread reg path =
     (let key = normalize_read_path path in
      if key = [] then reg
      else dict_set reg key ((or_else (map_of reg key) new_path_read_state)\<lparr>allow_reread_once := True\<rparr>))"

definition note_written_hash :: "registry \<Rightarrow> str \<Rightarrow> str \<Rightarrow> registry" where
  "note_written_hash reg path hash =
     (let key = normalize_read_path path in
      if key = [] \<or> hash = [] then reg
      else (case map_of reg key of None \<Rightarrow> reg
        | Some st \<Rightarrow> dict_set reg key (st\<lparr>content_hash := hash, allow_reread_once := False\<rparr>)))"

definition stale_entry :: "(str \<Rightarrow> str option) \<Rightarrow> str \<Rightarrow> path_read_state \<Rightarrow> path_read_state" where
  "stale_entry disk key st =
     (if content_hash st = [] \<or> content_hash st = ''stale'' then st
      else (case disk key of Some h \<Rightarrow> if h \<noteq> [] \<and> h \<noteq> content_hash st then st\<lparr>content_hash := ''stale''\<rparr> else st
        | None \<Rightarrow> st))"

definition mark_registry_stale :: "(str \<Rightarrow> str option) \<Rightarrow> registry \<Rightarrow> registry" where
  "mark_registry_stale disk reg = map (\<lambda>(key, st). (key, stale_entry disk key st)) reg"

definition consume_evicted_reread :: "str \<Rightarrow> str set \<Rightarrow> str set \<Rightarrow> str set \<times> str set" where
  "consume_evicted_reread path evicted used =
     (let key = normalize_read_path path in
      if key \<noteq> [] \<and> key \<in> evicted then (evicted - {key}, insert key used) else (evicted, used))"

definition record_successful_read ::
  "registry \<Rightarrow> str \<Rightarrow> int \<Rightarrow> int \<Rightarrow> bool \<Rightarrow> int option \<Rightarrow> bool \<Rightarrow> str \<Rightarrow> registry" where
  "record_successful_read reg path offset end_line truncated nxt whole hash =
     (let key = normalize_read_path path in
      if key = [] then reg
      else (let st = (or_else (map_of reg key) new_path_read_state)\<lparr>allow_reread_once := False\<rparr>;
                st = (if offset \<le> end_line \<and> offset > 0
                  then st\<lparr>covered_ranges := covered_ranges st @ [(offset, end_line)]\<rparr> else st);
                st = (if whole then
                    (let st = st\<lparr>whole_file_complete := True, next_offset := None\<rparr>
                     in if hash \<noteq> [] then st\<lparr>content_hash := hash\<rparr> else st)
                  else if truncated \<and> nxt \<noteq> None then st\<lparr>next_offset := nxt\<rparr>
                  else st\<lparr>next_offset := None\<rparr>)
            in dict_set reg key st))"

definition path_from_tool_arguments :: "json \<Rightarrow> str" where
  "path_from_tool_arguments arguments = (case arguments of
      JObj d \<Rightarrow> normalize_read_path (str_field d ''path'') | _ \<Rightarrow> [])"

definition is_mutating_file_tool_failure :: "str \<Rightarrow> dict \<Rightarrow> bool" where
  "is_mutating_file_tool_failure tool_name result \<longleftrightarrow>
     tool_name \<in> {''edit_file'', ''propose_patch'', ''apply_patch'', ''write_file''} \<and>
     (truthy (dict_get result ''error'')
      \<or> lower (str_field result ''status'') \<in> {''error'', ''failed'', ''denied''})"

section \<open>Conflicts of an overwrite\<close>

definition write_conflicts_with_read ::
  "(str \<Rightarrow> str option) \<Rightarrow> (str \<Rightarrow> str) \<Rightarrow> registry \<Rightarrow> str \<Rightarrow> dict option" where
  "write_conflicts_with_read disk diff reg path =
     (case map_of reg (normalize_read_path path) of None \<Rightarrow> None
      | Some st \<Rightarrow>
        if content_hash st = [] then None
        else (case disk path of None \<Rightarrow> None
          | Some h \<Rightarrow> if content_hash st = h then None
              else (let summary = path @ '' changed since it was read; read_file it again before write_file'';
                        d = diff path;
                        summary = (if d \<noteq> [] then summary @ [CHR 0x0A] @ d else summary)
                    in Some [(''status'', JStr ''error''), (''error'', JStr ''file_changed_since_read''),
                         (''path'', JStr path), (''summary'', JStr (take 2000 summary)),
                         (''diff_summary'', JStr (take 1600 d))])))"

definition file_changed_since_read :: "(str \<Rightarrow> str option) \<Rightarrow> registry \<Rightarrow> str \<Rightarrow> bool" where
  "file_changed_since_read disk reg path =
     (case map_of reg (normalize_read_path path) of None \<Rightarrow> False
      | Some st \<Rightarrow>
        if content_hash st = [] \<or> content_hash st = ''stale'' then content_hash st = ''stale''
        else (case disk path of Some h \<Rightarrow> h \<noteq> [] \<and> h \<noteq> content_hash st | None \<Rightarrow> False))"

section \<open>Remembered bodies and folded results\<close>

text \<open>\<open>_READ_BODIES\<close>: at most 40 bodies, the oldest key first.\<close>

fun drop_oldest :: "(str \<times> str) list \<Rightarrow> (str \<times> str) list" where
  "drop_oldest [] = []"
| "drop_oldest (b # bodies) = (if length (b # bodies) > 40 then drop_oldest bodies else b # bodies)"

definition remember_read_body :: "(str \<times> str) list \<Rightarrow> str \<Rightarrow> str \<Rightarrow> (str \<times> str) list" where
  "remember_read_body bodies path body =
     (let key = normalize_read_path path in
      if key = [] then bodies else drop_oldest (dict_set bodies key (take 48000 body)))"

definition cached_read_body :: "(str \<times> str) list \<Rightarrow> str \<Rightarrow> str" where
  "cached_read_body bodies path = or_else (map_of bodies (normalize_read_path path)) []"

text \<open>
  The ellipsis U+2026 of the stub has no character in the model; U+00B7 stands in for it.
  \<open>int(offset) if offset is not None else None\<close>, with exceptions giving None as well.
\<close>

definition ellipsis :: char where "ellipsis = CHR 0xB7"

definition field_int :: "dict \<Rightarrow> str \<Rightarrow> int option" where
  "field_int d k = (case dict_get d k of JNull \<Rightarrow> None | v \<Rightarrow> py_int v)"

definition read_stub :: "dict \<Rightarrow> str" where
  "read_stub data =
     (let body = (case dict_get data ''content'' of JStr s \<Rightarrow> s | _ \<Rightarrow> []);
          span = (case (field_int data ''offset'', field_int data ''end_line'') of
             (Some o1, Some e) \<Rightarrow> ''lines '' @ show_int o1 @ ''-'' @ show_int e @ '' '' | _ \<Rightarrow> []);
          hd_part = take 300 body;
          tl_part = (if length body > 300 then drop (length body - 300) body else [])
      in ''['' @ span @ ''already read this Turn; head: '' @ hd_part @
         (if tl_part \<noteq> [] \<and> tl_part \<noteq> hd_part then '' '' @ [ellipsis] @ '' tail: '' @ tl_part else []) @ '']'')"

definition omit_read_file_content_payload :: "dict \<Rightarrow> dict" where
  "omit_read_file_content_payload data =
     [(''path'', dict_get data ''path''), (''offset'', dict_get data ''offset''),
      (''end_line'', dict_get data ''end_line''), (''total_lines'', dict_get data ''total_lines''),
      (''truncated'', dict_get data ''truncated''), (''next_offset'', dict_get data ''next_offset''),
      (''whole_file_complete'', dict_get data ''whole_file_complete''),
      (''summary'', py_or (dict_get data ''summary'') (dict_get data ''path'')),
      (''content'', JStr (read_stub data)), (''_folded_read'', JBool True)]
     @ (if truthy (dict_get data ''hint'') then [(''hint'', dict_get data ''hint'')] else [])"

section \<open>The checkpoint keeps the registry\<close>

definition registry_ok :: "registry \<Rightarrow> bool" where
  "registry_ok reg \<longleftrightarrow> distinct (map fst reg) \<and>
     (\<forall>(path, st) \<in> set reg. path \<noteq> [] \<and> normalize_read_path path = path)"

lemma read_ranges_written: "read_ranges (map (\<lambda>(a, b). JList [JInt a, JInt b]) rs) = Some rs"
  by (induction rs) auto

lemma path_state_roundtrip: "path_state_from_dict (JObj (path_state_to_dict st)) = Some st"
  by (cases "covered_ranges st = []"; cases "next_offset st")
    (simp_all add: path_state_from_dict_def path_state_to_dict_def read_ranges_written
      read_ranges_written [of "[]", simplified] str_field_Cons py_or_def str_field_def)

lemma load_registry_serialized:
  assumes "registry_ok reg" and "fst ` set out \<inter> fst ` set reg = {}"
  shows "load_registry (serialize_read_registry reg) out = Some (out @ reg)"
  using assms
proof (induction reg arbitrary: out)
  case (Cons p reg)
  obtain path st where p: "p = (path, st)" by force
  have "load_registry (serialize_read_registry reg) (out @ [(path, st)]) = Some ((out @ [(path, st)]) @ reg)"
    by (rule Cons.IH) (use Cons.prems p in \<open>auto simp: registry_ok_def\<close>)
  moreover have "dict_set out path st = out @ [(path, st)]"
    using Cons.prems(2) p by (intro dict_set_fresh) auto
  ultimately show ?case
    using Cons.prems(1) p by (simp add: serialize_read_registry_def registry_ok_def path_state_roundtrip)
qed (simp add: serialize_read_registry_def)

lemma json_ok_path_state: "json_ok (JObj (path_state_to_dict st))"
  by (auto simp: path_state_to_dict_def split: option.splits)

lemma json_ok_registry: "registry_ok reg \<Longrightarrow> json_ok (JObj (serialize_read_registry reg))"
  using json_ok_path_state
  by (auto simp: serialize_read_registry_def registry_ok_def comp_def case_prod_unfold)

text \<open>
  The registry survives a checkpoint. Serialized, written as JSON text, parsed and loaded
  again, a registry with distinct normal paths is what it was, each range, flag and hash.
\<close>

theorem registry_roundtrip:
  assumes "registry_ok reg"
  shows "Option.bind (json_loads (json_dumps (JObj (serialize_read_registry reg)))) deserialize_read_registry
     = Some reg"
  using load_registry_serialized [OF assms, of "[]"]
  by (simp add: json_loads_dumps [OF json_ok_registry [OF assms]] deserialize_read_registry_def)

lemma registry_roundtrip_witness:
  "Option.bind (json_loads (json_dumps (JObj (serialize_read_registry
       [(''src/a.py'', new_path_read_state\<lparr>covered_ranges := [(1, 40)], next_offset := Some 41\<rparr>)]))))
     deserialize_read_registry
   = Some [(''src/a.py'', new_path_read_state\<lparr>covered_ranges := [(1, 40)], next_offset := Some 41\<rparr>)]"
  by (rule registry_roundtrip)
    (simp add: registry_ok_def normalize_read_path_def replace_char_def strip_def lstrip_def rstrip_def is_space_def)

section \<open>One read per eviction\<close>

lemma read_evicted_allowed:
  assumes "normalize_read_path path \<in> evicted" and "normalize_read_path path \<notin> used"
  shows "deny_redundant_read reg path offset evicted used h = None"
  using assms by (simp add: deny_redundant_read_def Let_def split: option.splits)

lemma recorded_entry:
  assumes "normalize_read_path path \<noteq> []"
  shows "\<exists>st. map_of (record_successful_read reg path off fin tr nxt True hash) (normalize_read_path path) = Some st
    \<and> whole_file_complete st \<and> next_offset st = None \<and> \<not> allow_reread_once st \<and> (hash \<noteq> [] \<longrightarrow> content_hash st = hash)"
  using assms by (simp add: record_successful_read_def Let_def map_of_dict_set)

text \<open>
  An evicted file may be read again, and only once. While its path is evicted and not
  used the read is allowed; once that read has returned the whole file and consumed the
  eviction, every further read of the unchanged file is refused, however often the
  context engine, which skips used paths, evicts it again.
\<close>

theorem one_reread_per_eviction:
  assumes "normalize_read_path path \<noteq> []"
    and "normalize_read_path path \<in> evicted" and "normalize_read_path path \<notin> used"
    and "consume_evicted_reread path evicted used = (evicted', used')"
    and "hash \<noteq> []" and "hash \<noteq> ''stale''"
  shows "deny_redundant_read reg path offset evicted used disk_hash = None
    \<and> deny_redundant_read (record_successful_read reg path off fin tr nxt True hash) path offset'
           (evicted' \<union> (again - used')) used' (Some hash)
         = Some (Read_after_complete (normalize_read_path path))"
proof -
  obtain st where st: "map_of (record_successful_read reg path off fin tr nxt True hash) (normalize_read_path path) = Some st"
    "whole_file_complete st" "next_offset st = None" "\<not> allow_reread_once st" "content_hash st = hash"
    using recorded_entry [OF assms(1)] assms(5) by blast
  have "used' = insert (normalize_read_path path) used"
    using assms(1,2,4) by (simp add: consume_evicted_reread_def Let_def)
  then have "deny_redundant_read (record_successful_read reg path off fin tr nxt True hash) path offset'
           (evicted' \<union> (again - used')) used' (Some hash) = Some (Read_after_complete (normalize_read_path path))"
    using st assms(1,6) by (simp add: deny_redundant_read_def Let_def)
  with read_evicted_allowed [OF assms(2,3)] show ?thesis by simp
qed

text \<open>
  A refusal never hides a change. A read refused because the file was read in full is
  refused only when no hash was stored, the file cannot be hashed now, or the stored hash is
  the one on disk; after a command has run (\<open>mark_registry_stale\<close>) a file that differs on
  disk is never refused on that ground.
\<close>

theorem refused_read_is_unchanged:
  assumes "deny_redundant_read reg path offset evicted used disk_hash = Some (Read_after_complete key)"
    and "reg = mark_registry_stale disk reg0"
    and "disk (normalize_read_path path) = Some h" and "h \<noteq> []"
  shows "\<exists>st. map_of reg (normalize_read_path path) = Some st \<and> whole_file_complete st
     \<and> (content_hash st = [] \<or> content_hash st = h)
     \<and> (content_hash st = [] \<or> disk_hash = None \<or> disk_hash = Some [] \<or> disk_hash = Some (content_hash st))"
proof -
  obtain st where st: "map_of reg (normalize_read_path path) = Some st" "whole_file_complete st"
      "content_hash st \<noteq> ''stale''"
    and hash: "content_hash st = [] \<or> disk_hash = None \<or> disk_hash = Some [] \<or> disk_hash = Some (content_hash st)"
    using assms by (auto simp: deny_redundant_read_def Let_def split: option.splits if_splits)
  have "map_of (mark_registry_stale disk reg0) k = map_option (stale_entry disk k) (map_of reg0 k)" for k
    by (induction reg0) (auto simp: mark_registry_stale_def)
  with st(1) assms(2) obtain st0 where "st = stale_entry disk (normalize_read_path path) st0" by auto
  with assms(3,4) st(3) have "content_hash st = [] \<or> content_hash st = h"
    by (auto simp: stale_entry_def split: if_splits)
  with st hash show ?thesis by blast
qed

lemma one_reread_per_eviction_witness:
  "deny_redundant_read [] ''a'' 1 {''a''} {} None = None
   \<and> deny_redundant_read (record_successful_read [] ''a'' 1 9 False None True ''h1'') ''a'' 5
       ({} \<union> ({''a''} - {''a''})) {''a''} (Some ''h1'') = Some (Read_after_complete ''a'')"
proof -
  have n: "normalize_read_path ''a'' = ''a''"
    by (simp add: normalize_read_path_def replace_char_def strip_def lstrip_def rstrip_def is_space_def)
  show ?thesis
    using one_reread_per_eviction [of "''a''" "{''a''}" "{}" "{}" "{''a''}" "''h1''" "[]" 1 None 1 9 False None 5 "{''a''}"]
    by (simp add: n consume_evicted_reread_def)
qed

definition sample_registry :: registry where
  "sample_registry = [(''a'', new_path_read_state\<lparr>whole_file_complete := True, content_hash := ''h1''\<rparr>)]"

lemma refused_read_is_unchanged_witness:
  "\<exists>st. map_of (mark_registry_stale (\<lambda>p. Some ''h1'') sample_registry) ''a'' = Some st \<and> content_hash st = ''h1''"
proof -
  have n: "normalize_read_path ''a'' = ''a''"
    by (simp add: normalize_read_path_def replace_char_def strip_def lstrip_def rstrip_def is_space_def)
  have reg: "mark_registry_stale (\<lambda>p. Some ''h1'') sample_registry = sample_registry"
    by (simp add: sample_registry_def mark_registry_stale_def stale_entry_def)
  have "deny_redundant_read sample_registry ''a'' 1 {} {} (Some ''h1'') = Some (Read_after_complete ''a'')"
    by (simp add: sample_registry_def deny_redundant_read_def n new_path_read_state_def)
  from refused_read_is_unchanged [OF this, of "\<lambda>p. Some ''h1''" sample_registry "''h1''"]
  show ?thesis by (simp only: reg n) (auto simp: sample_registry_def)
qed

end
