(* ===== verification/AgentState.thy ===== *)
theory AgentState
  imports TurnState ReadRegistry
begin

text \<open>
  The whole \<open>TurnState\<close> of \<open>services/runtime/app/engine/state.py\<close>: \<open>core\<close> holds the fields the
  policy uses (theory \<open>TurnState\<close>), then come the rest in the groups of the class: identity and budget, plan
  and product facts, the read registry, verify and issue-repro receipts, writing receipts.
  A UUID is its canonical text, a float a decimal number (mantissa, places).
\<close>

record usage =
  input_tokens :: int
  output_tokens :: int
  cache_read_input_tokens :: int
  cache_creation_input_tokens :: int

record budget_state =
  core :: turn_state
  turn_id :: str
  session_id :: str
  run_id :: str
  trace_id :: str
  turn_usage :: usage
  cancel_force :: bool
  cancelled_at_phase :: "str option"
  termination_reason :: str
  budget_exceeded :: bool
  turn_token_budget :: int
  max_input_tokens :: int
  max_output_tokens :: int
  fill_ratio_max :: "int \<times> nat"
  model_queue_wait_s :: "int \<times> nat"
  pointerized_n :: int

record product_state = budget_state +
  loaded_skill_names :: "str list"
  delivery :: "dict option"
  plan_hint :: "str option"
  model_mode :: "str option"
  volatile_context :: str
  writes_preapproved :: bool
  exec_preapproved :: bool
  pinned_policy_version :: str
  edited_files :: "dict list"
  last_test_command :: str
  last_test_delta :: dict
  product_hook_ran :: bool
  diff_stat_sent :: bool
  acceptance_commands :: "str list"
  plan_items :: "dict list"
  review_sent :: bool
  command_offer :: str

record read_state = product_state +
  read_registry :: registry
  evicted_paths :: "str set"
  evicted_reread_used :: "str set"
  verify_pending :: bool
  verify_receipt_sent :: bool
  code_edits_since_verify :: int
  related_tests_union :: "(str \<times> str) list"
  last_repro_command :: str
  last_test_first_failure :: str

record repro_state = read_state +
  issue_repro_loaded :: bool
  issue_repro_commands :: "str list"
  issue_repro_markers :: "str list"
  issue_repro_required_tokens :: "str list"
  issue_repro_assets :: "str list"
  issue_repro_casefold_assets :: "str list"
  issue_repro_fail_signals :: "str list"
  issue_repro_expect_signals :: "str list"
  issue_repro_need_roundtrip :: bool
  issue_repro_need_casefold :: bool
  issue_repro_roundtrip_formats :: "str list"
  issue_repro_roundtrip_kwargs :: "str list"
  issue_repro_armed :: bool
  issue_repro_satisfied :: bool
  issue_repro_receipt_sent :: bool
  issue_repro_edits_since :: int

record agent_state = repro_state +
  hinge_pending :: bool
  hinge_receipt_sent :: bool
  lore_pending :: bool
  lore_receipt_sent :: bool
  opening_pending :: bool
  opening_receipt_sent :: bool
  staccato_pending :: bool
  staccato_receipt_sent :: bool
  writing_delivery_hold_sent :: bool

text \<open>A state with the defaults of the class.\<close>

definition new_agent_state :: "str \<Rightarrow> str \<Rightarrow> str \<Rightarrow> str \<Rightarrow> str \<Rightarrow> agent_state" where
  "new_agent_state tid sid rid trace scn =
     \<lparr>core = new_turn_state scn, turn_id = tid, session_id = sid, run_id = rid, trace_id = trace,
      turn_usage = \<lparr>input_tokens = 0, output_tokens = 0, cache_read_input_tokens = 0, cache_creation_input_tokens = 0\<rparr>,
      cancel_force = False, cancelled_at_phase = None, termination_reason = ''final'', budget_exceeded = False,
      turn_token_budget = 0, max_input_tokens = 0, max_output_tokens = 0, fill_ratio_max = (0, 1),
      model_queue_wait_s = (0, 1), pointerized_n = 0,
      loaded_skill_names = [], delivery = None, plan_hint = None, model_mode = None, volatile_context = [],
      writes_preapproved = False, exec_preapproved = False, pinned_policy_version = [], edited_files = [],
      last_test_command = [], last_test_delta = [], product_hook_ran = False, diff_stat_sent = False,
      acceptance_commands = [], plan_items = [], review_sent = False, command_offer = [],
      read_registry = [], evicted_paths = {}, evicted_reread_used = {}, verify_pending = False,
      verify_receipt_sent = False, code_edits_since_verify = 0, related_tests_union = [],
      last_repro_command = [], last_test_first_failure = [],
      issue_repro_loaded = False, issue_repro_commands = [], issue_repro_markers = [],
      issue_repro_required_tokens = [], issue_repro_assets = [], issue_repro_casefold_assets = [],
      issue_repro_fail_signals = [], issue_repro_expect_signals = [], issue_repro_need_roundtrip = False,
      issue_repro_need_casefold = False, issue_repro_roundtrip_formats = [], issue_repro_roundtrip_kwargs = [],
      issue_repro_armed = False, issue_repro_satisfied = False, issue_repro_receipt_sent = False,
      issue_repro_edits_since = 0,
      hinge_pending = False, hinge_receipt_sent = False, lore_pending = False, lore_receipt_sent = False,
      opening_pending = False, opening_receipt_sent = False, staccato_pending = False,
      staccato_receipt_sent = False, writing_delivery_hold_sent = False\<rparr>"

section \<open>Shared updates\<close>

definition push_message :: "agent_state \<Rightarrow> json \<Rightarrow> agent_state" where
  "push_message st m = st\<lparr>core := core st\<lparr>messages := messages (core st) @ [m]\<rparr>\<rparr>"

abbreviation history :: "agent_state \<Rightarrow> json list" where
  "history st \<equiv> messages (core st)"

lemma history_push [simp]: "history (push_message st m) = history st @ [m]"
  by (simp add: push_message_def)

text \<open>\<open>policy/cancel_phases.py\<close>: the first observed phase is kept.\<close>

definition note_cancel :: "agent_state \<Rightarrow> bool \<Rightarrow> str \<Rightarrow> agent_state" where
  "note_cancel st force phase =
     (let st = st\<lparr>core := core st\<lparr>cancelled := True\<rparr>\<rparr>;
          st = (if force then st\<lparr>cancel_force := True\<rparr> else st);
          current = strip (case cancelled_at_phase st of None \<Rightarrow> [] | Some p \<Rightarrow> p)
      in if phase \<noteq> [] \<and> current = [] then st\<lparr>cancelled_at_phase := Some phase\<rparr> else st)"

definition cancelling_payload :: "bool \<Rightarrow> str option \<Rightarrow> dict" where
  "cancelling_payload force phase =
     (let p = strip (case phase of None \<Rightarrow> [] | Some p \<Rightarrow> p)
      in [(''force'', JBool force)] @ (if p = [] then [] else [(''cancelled_at_phase'', JStr p)]))"

lemma note_cancel_history [simp]: "history (note_cancel st force phase) = history st"
  by (simp add: note_cancel_def Let_def)

lemma note_cancel_cancelled [simp]: "cancelled (core (note_cancel st force phase))"
  by (simp add: note_cancel_def Let_def)

end
