(* ===== verification/Messages.thy ===== *)
theory Messages
  imports Json TurnState
begin

text \<open>
  The conversation as the model gateway and the context engine read it: roles and content
  blocks of the message dicts, the pairing of tool calls with tool results, the conversion to
  the OpenAI format with its repair of broken chains (\<open>model/openai_messages.py\<close>). A message is a dict whose
  \<open>content\<close> is a list of dicts, as every constructor builds it; on other shapes Python
  raises, here such a message has no blocks.
\<close>

section \<open>Roles and blocks\<close>

fun as_dict :: "json \<Rightarrow> dict" where
  "as_dict (JObj d) = d"
| "as_dict _ = []"

fun as_list :: "json \<Rightarrow> json list" where
  "as_list (JList xs) = xs"
| "as_list _ = []"

definition msg_role_is :: "str \<Rightarrow> json \<Rightarrow> bool" where
  "msg_role_is r msg \<longleftrightarrow> dict_get (as_dict msg) ''role'' = JStr r"

abbreviation is_tool :: "json \<Rightarrow> bool" where "is_tool \<equiv> msg_role_is ''tool''"

definition msg_blocks :: "json \<Rightarrow> dict list" where
  "msg_blocks msg = map as_dict (as_list (dict_get (as_dict msg) ''content''))"

definition block_is :: "str \<Rightarrow> dict \<Rightarrow> bool" where
  "block_is t b \<longleftrightarrow> dict_get b ''type'' = JStr t"

definition message_has_tool_use :: "json \<Rightarrow> bool" where
  "message_has_tool_use msg \<longleftrightarrow>
     msg_role_is ''assistant'' msg \<and> (\<exists>block \<in> set (msg_blocks msg). block_is ''tool_use'' block)"

text \<open>The ids a message calls and the ids it answers, in the order of its blocks.\<close>

definition use_ids :: "json \<Rightarrow> str list" where
  "use_ids msg = map (\<lambda>b. str_field b ''id'') (filter (block_is ''tool_use'') (msg_blocks msg))"

definition result_ids :: "json \<Rightarrow> str list" where
  "result_ids msg = map (\<lambda>b. str_field b ''tool_use_id'') (filter (block_is ''tool_result'') (msg_blocks msg))"

lemma role_excl: "msg_role_is r m \<Longrightarrow> r \<noteq> q \<Longrightarrow> \<not> msg_role_is q m"
  by (simp add: msg_role_is_def)

lemma tool_use_not_tool: "message_has_tool_use m \<Longrightarrow> \<not> is_tool m"
  by (simp add: message_has_tool_use_def msg_role_is_def)

text \<open>\<open>_tool_use_name_by_id\<close>: later calls with the same id replace earlier ones.\<close>

definition note_tool_use :: "(str \<rightharpoonup> str) \<Rightarrow> dict \<Rightarrow> (str \<rightharpoonup> str)" where
  "note_tool_use mapping block =
     (let tid = str_field block ''id''; name = str_field block ''name'' in
      if block_is ''tool_use'' block \<and> tid \<noteq> [] \<and> name \<noteq> [] then mapping(tid \<mapsto> name) else mapping)"

definition tool_use_name_by_id :: "json list \<Rightarrow> (str \<rightharpoonup> str)" where
  "tool_use_name_by_id msgs =
     foldl (\<lambda>mapping msg. if msg_role_is ''assistant'' msg
        then foldl note_tool_use mapping (msg_blocks msg) else mapping) Map.empty msgs"

section \<open>Paired histories\<close>

text \<open>
  A history is paired when every run of tool messages follows an assistant message that
  called tools and answers exactly its calls, in order.
\<close>

definition answers :: "json \<Rightarrow> json list \<Rightarrow> bool" where
  "answers m tool_run \<longleftrightarrow> concat (map result_ids tool_run) = use_ids m"

function paired :: "json list \<Rightarrow> bool" where
  "paired [] \<longleftrightarrow> True"
| "paired (m # ms) \<longleftrightarrow>
     (if is_tool m then False
      else if message_has_tool_use m
        then answers m (takeWhile is_tool ms) \<and> paired (dropWhile is_tool ms)
      else paired ms)"
  by pat_completeness auto

termination
  by (relation "measure length") (auto simp: le_imp_less_Suc length_dropWhile_le)

declare paired.simps(2) [simp del]

lemma paired_plain: "\<not> is_tool m \<Longrightarrow> \<not> message_has_tool_use m \<Longrightarrow> paired (m # ms) \<longleftrightarrow> paired ms"
  by (simp add: paired.simps)

lemma paired_group:
  assumes "message_has_tool_use m"
  shows "paired (m # ms) \<longleftrightarrow> answers m (takeWhile is_tool ms) \<and> paired (dropWhile is_tool ms)"
  using assms tool_use_not_tool [OF assms] by (simp add: paired.simps)

lemma paired_head: "paired (m # ms) \<Longrightarrow> \<not> is_tool m"
  by (simp add: paired.simps split: if_splits)

lemma tool_run_split:
  assumes "ys = [] \<or> \<not> P (hd ys)"
  shows "takeWhile P (xs @ ys) = takeWhile P xs" and "dropWhile P (xs @ ys) = dropWhile P xs @ ys"
  using assms by (induction xs; cases ys; auto)+

lemma paired_append:
  assumes "paired xs" and "paired ys"
  shows "paired (xs @ ys)"
  using assms(1)
proof (induction xs rule: paired.induct)
  case (2 m ms)
  have hd: "ys = [] \<or> \<not> is_tool (hd ys)"
    using assms(2) paired_head by (cases ys) auto
  have nt: "\<not> is_tool m" using "2.prems" by (rule paired_head)
  show ?case
  proof (cases "message_has_tool_use m")
    case True
    with "2.prems" "2.IH"(1) [OF nt True] show ?thesis
      by (simp add: paired_group tool_run_split [where P = is_tool, OF hd])
  next
    case False
    with "2.prems" "2.IH"(2) [OF nt False] show ?thesis by (simp add: paired_plain nt)
  qed
qed (simp add: assms(2))

text \<open>A cut before a message that is not a tool result leaves two paired histories.\<close>

lemma paired_cut:
  assumes "paired (xs @ ys)" and "ys = [] \<or> \<not> is_tool (hd ys)"
  shows "paired xs" and "paired ys"
proof -
  have "paired xs \<and> paired ys"
    using assms(1)
  proof (induction xs rule: paired.induct)
    case (2 m ms)
    have nt: "\<not> is_tool m" using paired_head [of m "ms @ ys"] "2.prems" by simp
    show ?case
    proof (cases "message_has_tool_use m")
      case True
      with "2.prems" "2.IH"(1) [OF nt True] show ?thesis
        by (simp add: paired_group tool_run_split [where P = is_tool, OF assms(2)])
    next
      case False
      with "2.prems" "2.IH"(2) [OF nt False] show ?thesis by (simp add: paired_plain nt)
    qed
  qed simp
  then show "paired xs" and "paired ys" by simp_all
qed

lemma paired_drop:
  assumes "paired ms" and "i < length ms \<Longrightarrow> \<not> is_tool (ms ! i)"
  shows "paired (take i ms)" and "paired (drop i ms)"
proof -
  have "drop i ms = [] \<or> \<not> is_tool (hd (drop i ms))"
    using assms(2) by (cases "i < length ms") (simp_all add: hd_drop_conv_nth)
  then show "paired (take i ms)" and "paired (drop i ms)"
    using paired_cut [of "take i ms" "drop i ms"] assms(1) by simp_all
qed

text \<open>Every tool message of a paired history is preceded by a tool message or by a call.\<close>

lemma paired_before_tool:
  "paired ms \<Longrightarrow> i < length ms \<Longrightarrow> is_tool (ms ! i) \<Longrightarrow>
     0 < i \<and> (is_tool (ms ! (i - 1)) \<or> message_has_tool_use (ms ! (i - 1)))"
proof (rule ccontr)
  assume p: "paired ms" "i < length ms" "is_tool (ms ! i)"
    and no: "\<not> (0 < i \<and> (is_tool (ms ! (i - 1)) \<or> message_has_tool_use (ms ! (i - 1))))"
  show False
  proof (cases i)
    case 0
    with p paired_head show False by (cases ms) auto
  next
    case (Suc j)
    with no have nt: "\<not> is_tool (ms ! j)" "\<not> message_has_tool_use (ms ! j)" by simp_all
    have "paired (drop j ms)" using paired_drop(2) [OF p(1)] nt by simp
    then have "paired (ms ! j # drop (Suc j) ms)"
      using p(2) Suc by (simp add: Cons_nth_drop_Suc)
    then have "paired (drop (Suc j) ms)" using nt by (simp add: paired_plain)
    then have "paired (ms ! i # drop (Suc i) ms)"
      using p(2) Suc by (simp add: Cons_nth_drop_Suc)
    with paired_head p(3) show False by blast
  qed
qed

section \<open>The OpenAI format\<close>

text \<open>\<open>" ".join\<close> raises on a text that is no string: None.\<close>

definition joined_text :: "dict list \<Rightarrow> str option" where
  "joined_text blocks = map_option (join '' '')
     (those (map (\<lambda>b. case dict_get_default b ''text'' (JStr []) of JStr s \<Rightarrow> Some s | _ \<Rightarrow> None)
       (filter (block_is ''text'') blocks)))"

definition openai_tool_call :: "dict \<Rightarrow> json" where
  "openai_tool_call block = JObj [(''id'', dict_get block ''id''), (''type'', JStr ''function''),
     (''function'', JObj [(''name'', dict_get block ''name''),
        (''arguments'', JStr (json_dumps_ascii (dict_get_default block ''input'' (JObj []))))])]"

definition openai_assistant :: "dict list \<Rightarrow> json" where
  "openai_assistant blocks =
     (let texts = map (\<lambda>b. py_str (dict_get_default b ''text'' (JStr []))) (filter (block_is ''text'') blocks);
          calls = map openai_tool_call (filter (block_is ''tool_use'') blocks)
      in JObj ([(''role'', JStr ''assistant''),
           (''content'', if texts \<noteq> [] then JStr (join '' '' texts)
              else if calls = [] then JStr [] else JNull)]
         @ (if calls \<noteq> [] then [(''tool_calls'', JList calls)] else [])))"

definition openai_tool :: "dict \<Rightarrow> json" where
  "openai_tool block = JObj [(''role'', JStr ''tool''), (''tool_call_id'', dict_get block ''tool_use_id''),
     (''content'', dict_get_default block ''content'' (JStr []))]"

definition openai_message :: "json \<Rightarrow> json list option" where
  "openai_message msg =
     (if msg_role_is ''system'' msg then map_option
        (\<lambda>t. [JObj [(''role'', JStr ''system''), (''content'', JStr t)]]) (joined_text (msg_blocks msg))
      else if msg_role_is ''user'' msg then map_option
        (\<lambda>t. [JObj [(''role'', JStr ''user''), (''content'', JStr t)]]) (joined_text (msg_blocks msg))
      else if msg_role_is ''assistant'' msg then Some [openai_assistant (msg_blocks msg)]
      else if is_tool msg then Some (map openai_tool (filter (block_is ''tool_result'') (msg_blocks msg)))
      else Some [])"

section \<open>Repairing the chains of calls and results\<close>

definition tool_calls_of :: "json \<Rightarrow> dict list" where
  "tool_calls_of msg = map as_dict (as_list (dict_get (as_dict msg) ''tool_calls''))"

text \<open>\<open>[str(tc["id"]) for tc in msg["tool_calls"] if tc.get("id")]\<close>\<close>

definition expected_ids :: "json \<Rightarrow> str list" where
  "expected_ids msg = map (\<lambda>tc. py_str (dict_get tc ''id''))
     (filter (\<lambda>tc. truthy (dict_get tc ''id'')) (tool_calls_of msg))"

definition calls_tools :: "json \<Rightarrow> bool" where
  "calls_tools msg \<longleftrightarrow> msg_role_is ''assistant'' msg \<and> tool_calls_of msg \<noteq> []"

definition answered_id :: "json \<Rightarrow> str" where
  "answered_id msg = py_str (dict_get_default (as_dict msg) ''tool_call_id'' (JStr []))"

text \<open>The inner loop: the first result of each expected id, until all are found.\<close>

fun collect_results :: "str list \<Rightarrow> (str \<times> json) list \<Rightarrow> json list \<Rightarrow> (str \<times> json) list \<times> json list" where
  "collect_results ids found [] = (found, [])"
| "collect_results ids found (m # ms) =
     (if length found < length ids \<and> is_tool m
      then collect_results ids
        (if answered_id m \<in> set ids \<and> map_of found (answered_id m) = None
         then found @ [(answered_id m, m)] else found) ms
      else (found, m # ms))"

definition missing_result :: "str \<Rightarrow> json" where
  "missing_result tid = JObj [(''role'', JStr ''tool''), (''tool_call_id'', JStr tid),
     (''content'', JStr (CHR ''{'' # quote_char # ''error'' @ quote_char # CHR '':'' # quote_char
        # ''missing tool result'' @ quote_char # ''}''))]"

lemma collect_results_shorter: "length (snd (collect_results ids found ms)) \<le> length ms"
  by (induction ids found ms rule: collect_results.induct) (auto simp: le_SucI)

function repair_tool_call_chains :: "json list \<Rightarrow> json list" where
  "repair_tool_call_chains [] = []"
| "repair_tool_call_chains (m # ms) =
     (if is_tool m then repair_tool_call_chains ms
      else if \<not> calls_tools m then m # repair_tool_call_chains ms
      else (let ids = expected_ids m; (found, rest) = collect_results ids [] ms
            in m # map (\<lambda>tid. or_else (map_of found tid) (missing_result tid)) ids
                 @ repair_tool_call_chains rest))"
  by pat_completeness auto

termination
proof (relation "measure length", goal_cases)
  case (4 m ms ids p found rest)
  then show ?case using collect_results_shorter [of ids "[]" ms] by (simp split: prod.splits) (metis le_imp_less_Suc snd_conv)
qed simp_all

declare repair_tool_call_chains.simps(2) [simp del]

definition to_openai_messages :: "json list \<Rightarrow> json list option" where
  "to_openai_messages msgs = map_option (repair_tool_call_chains \<circ> concat) (those (map openai_message msgs))"

text \<open>
  What the provider accepts: each assistant message with calls is followed at once by one
  tool message per call, in order, and there is no other tool message.
\<close>

function chains_ok :: "json list \<Rightarrow> bool" where
  "chains_ok [] \<longleftrightarrow> True"
| "chains_ok (m # ms) \<longleftrightarrow>
     (if is_tool m then False
      else (let n = (if calls_tools m then length (expected_ids m) else 0); tools = take n ms
        in (calls_tools m \<longrightarrow> map answered_id tools = expected_ids m \<and> list_all is_tool tools)
           \<and> chains_ok (drop n ms)))"
  by pat_completeness auto

termination
  by (relation "measure length") auto

declare chains_ok.simps(2) [simp del]

lemma chains_ok_plain: "\<not> is_tool m \<Longrightarrow> \<not> calls_tools m \<Longrightarrow> chains_ok (m # ms) \<longleftrightarrow> chains_ok ms"
  by (simp add: chains_ok.simps)

lemma chains_ok_group:
  assumes "\<not> is_tool m" and "calls_tools m" and "length tools = length (expected_ids m)"
  shows "chains_ok (m # tools @ ms) \<longleftrightarrow>
     map answered_id tools = expected_ids m \<and> list_all is_tool tools \<and> chains_ok ms"
  using assms by (simp add: chains_ok.simps)

lemma calls_tools_not_tool: "calls_tools m \<Longrightarrow> \<not> is_tool m"
  by (simp add: calls_tools_def msg_role_is_def)

lemma missing_result_props [simp]: "answered_id (missing_result t) = t" "is_tool (missing_result t)"
  by (simp_all add: missing_result_def answered_id_def dict_get_default_def msg_role_is_def)

definition result_for :: "str \<times> json \<Rightarrow> bool" where
  "result_for p \<longleftrightarrow> answered_id (snd p) = fst p \<and> is_tool (snd p)"

lemma collect_results_found:
  "list_all result_for found \<Longrightarrow> list_all result_for (fst (collect_results ids found ms))"
proof (induction ids found ms rule: collect_results.induct)
  case (2 ids found m ms)
  show ?case
  proof (cases "length found < length ids \<and> is_tool m")
    case True
    then have "result_for (answered_id m, m)" by (simp add: result_for_def)
    with "2.prems" have "list_all result_for (if answered_id m \<in> set ids \<and> map_of found (answered_id m) = None
        then found @ [(answered_id m, m)] else found)"
      using \<open>result_for (answered_id m, m)\<close> by simp
    from "2.IH" [OF True this] True show ?thesis by simp
  next
    case False
    then have "collect_results ids found (m # ms) = (found, m # ms)" by auto
    with "2.prems" show ?thesis by simp
  qed
qed simp

lemma found_answers:
  assumes "collect_results ids [] ms = (found, rest)"
  shows "answered_id (or_else (map_of found t) (missing_result t)) = t"
    and "is_tool (or_else (map_of found t) (missing_result t))"
proof -
  have "list_all result_for found"
    using collect_results_found [of "[]" ids ms] assms by simp
  then have "map_of found t = Some m \<Longrightarrow> result_for (t, m)" for m
    by (auto simp: list_all_iff dest: map_of_SomeD)
  then show "answered_id (or_else (map_of found t) (missing_result t)) = t"
    and "is_tool (or_else (map_of found t) (missing_result t))"
    by (cases "map_of found t"; simp add: result_for_def)+
qed

lemma repair_group:
  assumes "calls_tools m" and "collect_results (expected_ids m) [] ms = (found, rest)"
  shows "repair_tool_call_chains (m # ms) =
    m # map (\<lambda>tid. or_else (map_of found tid) (missing_result tid)) (expected_ids m) @ repair_tool_call_chains rest"
  using assms calls_tools_not_tool [OF assms(1)] by (simp add: repair_tool_call_chains.simps)

text \<open>
  C15: whatever compaction did to the history, the request sent to the provider answers every
  call: after the repair each assistant message with tool calls is followed at once by one
  tool message per call id, in the order of the calls, and no other tool message is left.
\<close>

theorem repair_answers_every_call: "chains_ok (repair_tool_call_chains ms)"
proof (induction ms rule: repair_tool_call_chains.induct)
  case (2 m ms)
  consider "is_tool m" | "\<not> is_tool m" "\<not> calls_tools m" | "\<not> is_tool m" "calls_tools m" by blast
  then show ?case
  proof cases
    case 3
    obtain found rest where c: "collect_results (expected_ids m) [] ms = (found, rest)" by force
    have "chains_ok (repair_tool_call_chains rest)"
      using "2.IH"(3) [of "expected_ids m" "(found, rest)" found rest] 3 c by simp
    then show ?thesis
      using 3 by (simp add: repair_group [OF 3(2) c] chains_ok_group found_answers [OF c]
          list_all_iff comp_def)
  qed (use "2.IH" in \<open>simp_all add: repair_tool_call_chains.simps chains_ok_plain\<close>)
qed simp

lemma collect_results_exact:
  assumes "map answered_id tools = ids" and "list_all is_tool tools"
    and "distinct (map fst found @ ids)"
  shows "collect_results (map fst found @ ids) found (tools @ ms) = (found @ zip ids tools, ms)"
  using assms
proof (induction tools arbitrary: found ids)
  case Nil
  then show ?case by (cases ms) simp_all
next
  case (Cons t tools)
  then obtain i js where ids: "ids = i # js" by auto
  have fresh: "map_of found i = None"
    using Cons.prems(3) ids by (auto simp: map_of_eq_None_iff)
  have "collect_results (map fst (found @ [(i, t)]) @ js) (found @ [(i, t)]) (tools @ ms)
      = ((found @ [(i, t)]) @ zip js tools, ms)"
    by (rule Cons.IH) (use Cons.prems ids in auto)
  then show ?case using Cons.prems ids fresh by simp
qed

lemma lookup_zip:
  assumes "distinct ids" and "length ids = length ms"
  shows "map (\<lambda>t. or_else (map_of (zip ids ms) t) (f t)) ids = ms"
  using assms(2,1)
proof (induction ids ms rule: list_induct2)
  case (Cons i ids m ms)
  have "map (\<lambda>t. or_else (map_of (zip (i # ids) (m # ms)) t) (f t)) ids
      = map (\<lambda>t. or_else (map_of (zip ids ms) t) (f t)) ids"
    using Cons.prems by (intro map_cong) auto
  with Cons show ?case by simp
qed simp

text \<open>
  The repair does not disturb a history the provider accepts: when every call is answered
  at once and in order, and no message calls the same id twice, the request is unchanged.
\<close>

theorem repair_keeps_answered:
  assumes "chains_ok ms" and "\<forall>m \<in> set ms. calls_tools m \<longrightarrow> distinct (expected_ids m)"
  shows "repair_tool_call_chains ms = ms"
  using assms
proof (induction ms rule: chains_ok.induct)
  case (2 m ms)
  have nt: "\<not> is_tool m" using "2.prems"(1) by (simp add: chains_ok.simps split: if_splits)
  show ?case
  proof (cases "calls_tools m")
    case False
    with nt 2 show ?thesis by (simp add: chains_ok_plain repair_tool_call_chains.simps)
  next
    case True
    let ?ids = "expected_ids m"
    define tools rest where "tools = take (length ?ids) ms" and "rest = drop (length ?ids) ms"
    have ms: "ms = tools @ rest" by (simp add: tools_def rest_def)
    have ok: "map answered_id tools = ?ids" "list_all is_tool tools" "chains_ok rest"
      using "2.prems"(1) nt True by (simp_all add: chains_ok.simps Let_def tools_def rest_def)
    have d: "distinct ?ids" using "2.prems"(2) True by simp
    have len: "length ?ids = length tools" using arg_cong [OF ok(1), of length] by simp
    have "repair_tool_call_chains rest = rest"
      using "2.IH" [OF nt refl refl] True ok(3) "2.prems"(2) by (auto simp: rest_def dest: in_set_dropD)
    moreover have "collect_results ?ids [] ms = (zip ?ids tools, rest)"
      using collect_results_exact [OF ok(1,2), of "[]" rest] d ms by simp
    ultimately show ?thesis
      using lookup_zip [OF d len] by (simp add: repair_group [OF True] ms)
  qed
qed simp

lemma repair_keeps_answered_witness:
  "repair_tool_call_chains
     [openai_assistant [[(''type'', JStr ''tool_use''), (''id'', JStr ''a''), (''name'', JStr ''glob'')]],
      openai_tool [(''type'', JStr ''tool_result''), (''tool_use_id'', JStr ''a'')]]
   = [openai_assistant [[(''type'', JStr ''tool_use''), (''id'', JStr ''a''), (''name'', JStr ''glob'')]],
      openai_tool [(''type'', JStr ''tool_result''), (''tool_use_id'', JStr ''a'')]]"
  by (rule repair_keeps_answered)
    (simp_all add: chains_ok.simps msg_role_is_def openai_assistant_def openai_tool_def calls_tools_def
      tool_calls_of_def expected_ids_def answered_id_def openai_tool_call_def block_is_def
      dict_get_default_def Let_def)

end
