(* ===== verification/CommandAllowlist.thy ===== *)
theory CommandAllowlist
  imports Prelude
begin

text \<open>
  \<open>packages/contracts/python/agent_contracts/command_allowlist.py\<close>: which shell commands are
  one simple argument vector, and when such a command starts with a stored prefix. The
  tokeniser is the state machine of Python's \<open>shlex.split(raw, posix=True)\<close>, one equation
  per state and class of character; None is its ValueError. The locale \<open>command_matcher\<close>
  is the interface the policy theories use.
\<close>

section \<open>shlex.split\<close>

text \<open>
  The states of \<open>shlex.read_token\<close>: between tokens, in a word, inside a quote, after a
  backslash in a word, after a backslash inside double quotes.
\<close>

datatype lexstate = LStart | LWord | LQuote char | LEscape | LEscapeQuoted

abbreviation backslash :: char where "backslash \<equiv> CHR 0x5C"
abbreviation single_quote :: char where "single_quote \<equiv> CHR 0x27"
abbreviation double_quote :: char where "double_quote \<equiv> CHR 0x22"

definition lex_space :: "char \<Rightarrow> bool" where
  "lex_space c \<longleftrightarrow> c \<in> {CHR '' '', CHR 0x09, CHR 0x0D, CHR 0x0A}"

definition lex_quote :: "char \<Rightarrow> bool" where
  "lex_quote c \<longleftrightarrow> c = single_quote \<or> c = double_quote"

fun shlex_from :: "lexstate \<Rightarrow> str \<Rightarrow> str \<Rightarrow> str list option" where
  "shlex_from LStart tok [] = Some []"
| "shlex_from LStart tok (c # cs) =
     (if lex_space c then shlex_from LStart [] cs
      else if c = backslash then shlex_from LEscape [] cs
      else if lex_quote c then shlex_from (LQuote c) [] cs
      else shlex_from LWord [c] cs)"
| "shlex_from LWord tok [] = Some [tok]"
| "shlex_from LWord tok (c # cs) =
     (if lex_space c then map_option (Cons tok) (shlex_from LStart [] cs)
      else if lex_quote c then shlex_from (LQuote c) tok cs
      else if c = backslash then shlex_from LEscape tok cs
      else shlex_from LWord (tok @ [c]) cs)"
| "shlex_from (LQuote q) tok [] = None"
| "shlex_from (LQuote q) tok (c # cs) =
     (if c = q then shlex_from LWord tok cs
      else if c = backslash \<and> q = double_quote then shlex_from LEscapeQuoted tok cs
      else shlex_from (LQuote q) (tok @ [c]) cs)"
| "shlex_from LEscape tok [] = None"
| "shlex_from LEscape tok (c # cs) = shlex_from LWord (tok @ [c]) cs"
| "shlex_from LEscapeQuoted tok [] = None"
| "shlex_from LEscapeQuoted tok (c # cs) =
     (if c \<noteq> backslash \<and> c \<noteq> double_quote
      then shlex_from (LQuote double_quote) (tok @ [backslash, c]) cs
      else shlex_from (LQuote double_quote) (tok @ [c]) cs)"

definition shlex_split :: "str \<Rightarrow> str list option" where
  "shlex_split raw = shlex_from LStart [] raw"

section \<open>Argument vectors and prefixes\<close>

definition PREFIX_MAX_LEN :: nat where
  "PREFIX_MAX_LEN = 200"

definition SHELL_META :: "char list" where
  "SHELL_META = '';|&'' @ [CHR 0x60] @ ''$<>(){}!'' @ [CHR 0x0A, CHR 0x0D]"

text \<open>\<open>normalize_command_prefix\<close>; \<open>max_len\<close> 0 or negative means no cut.\<close>

definition normalize_command_prefix :: "str \<Rightarrow> int \<Rightarrow> str" where
  "normalize_command_prefix raw max_len =
     (let text = squeeze (replace_char (CHR 0x09) (CHR '' '') (replace_char (CHR 0x0A) (CHR '' '') raw))
      in if max_len > 0 then take (nat max_len) text else text)"

definition has_meta :: "str \<Rightarrow> bool" where
  "has_meta token \<longleftrightarrow> (\<exists>ch \<in> set token. ch \<in> set SHELL_META)"

definition command_argv :: "str \<Rightarrow> str list option" where
  "command_argv command =
     (if strip command = [] then None
      else if (\<exists>ch \<in> set command. ch \<in> {CHR 0x0A, CHR 0x0D}) then None
      else (case shlex_split command of
              None \<Rightarrow> None
            | Some argv \<Rightarrow>
                if argv = [] then None
                else if (\<exists>token \<in> set argv. has_meta token) then None
                else Some argv))"

definition default_prefix_from_command :: "str \<Rightarrow> str" where
  "default_prefix_from_command command =
     (case command_argv command of
        Some (first # _) \<Rightarrow> take PREFIX_MAX_LEN first
      | _ \<Rightarrow>
          let norm = normalize_command_prefix command (int PREFIX_MAX_LEN)
          in if norm = [] then [] else (case split_on (CHR '' '') norm of w # _ \<Rightarrow> w | [] \<Rightarrow> []))"

definition command_matches_prefix :: "str \<Rightarrow> str \<Rightarrow> bool" where
  "command_matches_prefix command pre =
     (case (command_argv command, command_argv pre) of
        (Some cmd, Some p) \<Rightarrow> length p \<le> length cmd \<and> take (length p) cmd = p
      | _ \<Rightarrow> False)"

text \<open>A command that is one simple argument vector.\<close>

definition simple_command :: "str \<Rightarrow> bool" where
  "simple_command command \<longleftrightarrow> command_argv command \<noteq> None"

section \<open>What an argument vector guarantees\<close>

lemma command_argv_Some:
  assumes "command_argv command = Some argv"
  shows "argv \<noteq> []" and "\<forall>token \<in> set argv. \<not> has_meta token"
    and "CHR 0x0A \<notin> set command" and "CHR 0x0D \<notin> set command"
    and "shlex_split command = Some argv"
  using assms by (auto simp: command_argv_def split: if_splits option.splits)

lemma command_matches_prefix_iff:
  "command_matches_prefix c p \<longleftrightarrow>
     (\<exists>cmd pre. command_argv c = Some cmd \<and> command_argv p = Some pre \<and> prefix pre cmd)"
  by (auto simp: command_matches_prefix_def prefix_def split: option.splits)
    (metis append_take_drop_id)

text \<open>Words without white space, quotes or backslash pass through the tokeniser unchanged.\<close>

definition plain_char :: "char \<Rightarrow> bool" where
  "plain_char c \<longleftrightarrow> \<not> lex_space c \<and> \<not> lex_quote c \<and> c \<noteq> backslash"

definition plain_word :: "str \<Rightarrow> bool" where
  "plain_word w \<longleftrightarrow> w \<noteq> [] \<and> (\<forall>c \<in> set w. plain_char c)"

lemma shlex_word:
  "\<forall>c \<in> set w. plain_char c \<Longrightarrow> shlex_from LWord tok (w @ rest) = shlex_from LWord (tok @ w) rest"
  by (induction w arbitrary: tok) (auto simp: plain_char_def)

lemma shlex_start_word:
  assumes "plain_word w"
  shows "shlex_from LStart tok (w @ rest) = shlex_from LWord w rest"
proof -
  from assms obtain c cs where w: "w = c # cs" "plain_char c" "\<forall>d \<in> set cs. plain_char d"
    by (cases w) (auto simp: plain_word_def)
  then have "shlex_from LStart tok (w @ rest) = shlex_from LWord [c] (cs @ rest)"
    by (simp add: plain_char_def)
  with w show ?thesis by (simp add: shlex_word)
qed

lemma shlex_join_words:
  "\<forall>w \<in> set ws. plain_word w \<Longrightarrow> shlex_from LStart tok (join '' '' ws) = Some ws"
proof (induction "'' ''::str" ws arbitrary: tok rule: join.induct)
  case 1
  then show ?case by simp
next
  case (2 w)
  then show ?case using shlex_start_word [of w tok "[]"] by simp
next
  case (3 w v ws)
  then have "shlex_from LStart tok (join '' '' (w # v # ws))
      = map_option (Cons w) (shlex_from LStart [] (join '' '' (v # ws)))"
    using shlex_start_word [of w tok "'' '' @ join '' '' (v # ws)"]
    by (simp add: lex_space_def)
  with 3 show ?case by simp
qed

lemma strip_nonempty: "c \<in> set s \<Longrightarrow> \<not> is_space c \<Longrightarrow> strip s \<noteq> []"
  by (auto simp: strip_def lstrip_def rstrip_def dropWhile_eq_Nil_conv)
    (metis dropWhile_eq_Nil_conv hd_dropWhile hd_in_set)

section \<open>The matcher interface\<close>

text \<open>
  What the policy code relies on: matching implies the command is one simple vector, a
  simple command matches itself, and matching composes. \<open>covers ps c\<close> is the loop
  \<open>any(command_matches_prefix(c, p) for p in ps)\<close> all its callers run.
\<close>

locale command_matcher =
  fixes matches :: "'c \<Rightarrow> 'c \<Rightarrow> bool"
    and clean :: "'c \<Rightarrow> bool"
  assumes match_clean: "matches c p \<Longrightarrow> clean c"
    and match_clean_prefix: "matches c p \<Longrightarrow> clean p"
    and match_refl: "clean c \<Longrightarrow> matches c c"
    and match_trans: "matches c p \<Longrightarrow> matches p q \<Longrightarrow> matches c q"
begin

lemma any_match_clean: "(\<exists>p \<in> set ps. matches c p) \<Longrightarrow> clean c"
  by (auto dest: match_clean)

lemma any_match_extend:
  "matches d c \<Longrightarrow> (\<exists>p \<in> set ps. matches c p) \<Longrightarrow> (\<exists>p \<in> set ps. matches d p)"
  by (auto intro: match_trans)

lemma any_match_mono:
  "set ps \<subseteq> set qs \<Longrightarrow> (\<exists>p \<in> set ps. matches c p) \<Longrightarrow> (\<exists>p \<in> set qs. matches c p)"
  by auto

lemma stored_command_matches: "clean c \<Longrightarrow> c \<in> set ps \<Longrightarrow> (\<exists>p \<in> set ps. matches c p)"
  by (auto intro: match_refl)

end

interpretation argv: command_matcher command_matches_prefix simple_command
proof unfold_locales
  fix c p q
  show "command_matches_prefix c p \<Longrightarrow> simple_command c"
    by (auto simp: command_matches_prefix_iff simple_command_def)
  show "command_matches_prefix c p \<Longrightarrow> simple_command p"
    by (auto simp: command_matches_prefix_iff simple_command_def)
  show "simple_command c \<Longrightarrow> command_matches_prefix c c"
    by (auto simp: command_matches_prefix_iff simple_command_def)
  show "command_matches_prefix c p \<Longrightarrow> command_matches_prefix p q \<Longrightarrow> command_matches_prefix c q"
    by (auto simp: command_matches_prefix_iff intro: prefix_order.trans)
qed

section \<open>Properties\<close>

text \<open>Words without white space, quotes, backslash or shell metacharacters.\<close>

definition safe_word :: "str \<Rightarrow> bool" where
  "safe_word w \<longleftrightarrow> plain_word w \<and> \<not> has_meta w \<and> (\<forall>c \<in> set w. \<not> is_space c)"

lemma hd_word_in_join: "c \<in> set w \<Longrightarrow> c \<in> set (join sep (w # ws))"
  by (cases ws) auto

lemma safe_words_argv:
  assumes "\<forall>w \<in> set ws. safe_word w" and "ws \<noteq> []"
  shows "command_argv (join '' '' ws) = Some ws"
proof -
  let ?c = "join '' '' ws"
  have lex: "shlex_split ?c = Some ws"
    using assms(1) by (simp add: shlex_split_def shlex_join_words safe_word_def)
  have nl: "\<not> (\<exists>ch \<in> set ?c. ch \<in> {CHR 0x0A, CHR 0x0D})"
    using assms(1)
    by (fastforce dest!: set_join simp: safe_word_def plain_word_def plain_char_def lex_space_def)
  obtain w vs where ws: "ws = w # vs" using assms(2) by (cases ws) auto
  with assms(1) obtain c where c: "c \<in> set w" "\<not> is_space c"
    by (cases w) (auto simp: safe_word_def plain_word_def)
  then have "strip ?c \<noteq> []"
    using strip_nonempty hd_word_in_join ws by metis
  with lex nl assms show ?thesis
    by (auto simp: command_argv_def safe_word_def)
qed

text \<open>
  C30: an allow-list entry never admits a compound command. A command that matches a stored
  prefix is one argument vector that starts with the words of the prefix, no word of it holds
  a shell metacharacter, and the command holds no line break.
\<close>

theorem matched_command_is_one_vector:
  assumes "command_matches_prefix c p"
  shows "\<exists>argv pre. shlex_split c = Some argv \<and> shlex_split p = Some pre \<and> pre \<noteq> [] \<and> prefix pre argv
     \<and> (\<forall>token \<in> set argv. \<forall>ch \<in> set token. ch \<notin> set SHELL_META)
     \<and> CHR 0x0A \<notin> set c \<and> CHR 0x0D \<notin> set c"
proof -
  from assms obtain cmd pre where m: "command_argv c = Some cmd" "command_argv p = Some pre" "prefix pre cmd"
    by (auto simp: command_matches_prefix_iff)
  show ?thesis
    using m(3) command_argv_Some [OF m(1)] command_argv_Some [OF m(2)] by (auto simp: has_meta_def)
qed

text \<open>
  C31: on commands written as words joined by blanks, matching is exactly the prefix order on
  the word lists: a stored command admits its own extensions and nothing else.
\<close>

theorem word_commands_match_iff_prefix:
  assumes "\<forall>w \<in> set ws. safe_word w" "\<forall>w \<in> set vs. safe_word w" "ws \<noteq> []" "vs \<noteq> []"
  shows "command_matches_prefix (join '' '' ws) (join '' '' vs) \<longleftrightarrow> prefix vs ws"
  by (simp add: command_matches_prefix_iff safe_words_argv [OF assms(1,3)] safe_words_argv [OF assms(2,4)])

lemma matched_command_is_one_vector_witness:
  "\<exists>argv. shlex_split ''npm run test'' = Some argv \<and> CHR 0x0A \<notin> set ''npm run test''"
proof -
  have "command_matches_prefix ''npm run test'' ''npm run''" by code_simp
  from matched_command_is_one_vector [OF this] show ?thesis by blast
qed

lemma word_commands_match_iff_prefix_witness:
  "command_matches_prefix (join '' '' [''npm'', ''test'']) (join '' '' [''npm''])
   \<and> \<not> command_matches_prefix (join '' '' [''npmx'']) (join '' '' [''npm''])"
proof -
  have s: "\<forall>w \<in> set [''npm'', ''test'', ''npmx'']. safe_word w" by code_simp
  then show ?thesis
    using word_commands_match_iff_prefix [of "[''npm'', ''test'']" "[''npm'']"]
      word_commands_match_iff_prefix [of "[''npmx'']" "[''npm'']"] by simp
qed

end
