(* ===== verification/PolicyMatrix.thy ===== *)
theory PolicyMatrix
  imports PyValue CommandAllowlist "HOL-Library.Char_ord" "HOL-Library.List_Lexorder"
begin

text \<open>
  \<open>services/runtime/app/policy/matrix.py\<close>: taint labels and their order, the sink class of
  every declared tool, the emergency deny lists with their file, the local rules and the
  baseline decision matrix. The emergency store is explicit state: the two in-process sets
  and the file, which is missing, unreadable (an I/O error, broken JSON or a JSON value that
  is no object) or an object with the three lists this module writes.
\<close>

section \<open>Decisions\<close>

datatype decision = Allow | RequireApproval | Deny

text \<open>The severity order \<open>_RANK\<close> of \<open>scenario_policy.py\<close>: allow, require_approval, deny.\<close>

fun severity :: "decision \<Rightarrow> nat" where
  "severity Allow = 0"
| "severity RequireApproval = 1"
| "severity Deny = 2"

instantiation decision :: linorder
begin

definition less_eq_decision :: "decision \<Rightarrow> decision \<Rightarrow> bool" where
  "less_eq_decision a b \<longleftrightarrow> severity a \<le> severity b"

definition less_decision :: "decision \<Rightarrow> decision \<Rightarrow> bool" where
  "less_decision a b \<longleftrightarrow> severity a < severity b"

instance
proof
  fix a b :: decision
  show "a \<le> b \<Longrightarrow> b \<le> a \<Longrightarrow> a = b"
    by (cases a; cases b) (simp_all add: less_eq_decision_def)
qed (auto simp: less_eq_decision_def less_decision_def)

end

lemma decision_order [simp]:
  "Allow \<le> d" "d \<le> Deny" "Deny \<le> d \<longleftrightarrow> d = Deny" "d \<le> Allow \<longleftrightarrow> d = Allow"
  by (cases d; simp add: less_eq_decision_def)+

lemma approval_le [simp]: "RequireApproval \<le> d \<longleftrightarrow> d \<noteq> Allow"
  by (cases d) (simp_all add: less_eq_decision_def)

text \<open>
  A step that may only tighten: the interface between the gate and everything that is
  applied after the matrix.
\<close>

locale tightener =
  fixes f :: "decision \<Rightarrow> decision"
  assumes tightens: "d \<le> f d"
begin

lemma deny_stays: "f Deny = Deny"
  using tightens [of Deny] by simp

lemma allow_only_from_allow: "f d = Allow \<Longrightarrow> d = Allow"
  using tightens [of d] by simp

lemma not_allow_stays: "d \<noteq> Allow \<Longrightarrow> f d \<noteq> Allow"
  using allow_only_from_allow by blast

end

section \<open>Taint labels\<close>

definition TAINT_RANK :: "(str \<times> nat) list" where
  "TAINT_RANK = [(''system'', 0), (''user'', 1), (''workspace'', 2), (''external'', 3)]"

definition known_taint :: "str \<Rightarrow> bool" where
  "known_taint label \<longleftrightarrow> map_of TAINT_RANK label \<noteq> None"

text \<open>\<open>TAINT_RANK.get(label, TAINT_RANK["external"])\<close>: an unknown label is external.\<close>

definition taint_rank :: "str \<Rightarrow> nat" where
  "taint_rank label = or_else (map_of TAINT_RANK label) 3"

definition higher :: "str \<Rightarrow> str \<Rightarrow> str" where
  "higher left right = (if taint_rank left \<ge> taint_rank right then left else right)"

text \<open>The laws of a join of labels; the taint theory folds it over message lists.\<close>

locale label_join =
  fixes rank :: "'l \<Rightarrow> nat" and join :: "'l \<Rightarrow> 'l \<Rightarrow> 'l"
  assumes join_rank: "rank (join a b) = max (rank a) (rank b)"
    and join_one: "join a b = a \<or> join a b = b"
begin

lemma fold_rank_ge: "rank a \<le> rank (foldl join a xs)"
proof (induction xs arbitrary: a)
  case (Cons x xs)
  have "rank a \<le> rank (join a x)" by (simp add: join_rank)
  also have "\<dots> \<le> rank (foldl join (join a x) xs)" by (rule Cons.IH)
  finally show ?case by simp
qed simp

lemma fold_rank_elem: "x \<in> set xs \<Longrightarrow> rank x \<le> rank (foldl join a xs)"
proof (induction xs arbitrary: a)
  case (Cons y ys)
  show ?case
  proof (cases "x = y")
    case True
    have "rank y \<le> rank (join a y)" by (simp add: join_rank)
    also have "\<dots> \<le> rank (foldl join (join a y) ys)" by (rule fold_rank_ge)
    finally show ?thesis using True by simp
  next
    case False
    with Cons.prems have "x \<in> set ys" by simp
    then show ?thesis using Cons.IH by simp
  qed
qed simp

lemma fold_in: "foldl join a xs \<in> insert a (set xs)"
proof (induction xs arbitrary: a)
  case (Cons x xs)
  have "foldl join (join a x) xs \<in> insert (join a x) (set xs)" by (rule Cons.IH)
  with join_one [of a x] show ?case by auto
qed simp

lemma fold_rank_bound:
  assumes "rank a \<le> n" and "\<forall>x \<in> set xs. rank x \<le> n"
  shows "rank (foldl join a xs) \<le> n"
  using fold_in [of a xs] assms by auto

end

interpretation taint: label_join taint_rank higher
  by unfold_locales (auto simp: higher_def max_def)

lemma taint_rank_simps [simp]:
  "taint_rank ''system'' = 0" "taint_rank ''user'' = 1"
  "taint_rank ''workspace'' = 2" "taint_rank ''external'' = 3"
  by (simp_all add: taint_rank_def TAINT_RANK_def)

lemma known_taint_iff:
  "known_taint l \<longleftrightarrow> l \<in> {''system'', ''user'', ''workspace'', ''external''}"
  by (auto simp: known_taint_def TAINT_RANK_def split: if_splits)

lemma taint_rank_le_3 [simp]: "taint_rank l \<le> 3"
  by (auto simp: taint_rank_def TAINT_RANK_def)

lemma taint_rank_known_external: "known_taint l \<Longrightarrow> taint_rank l = 3 \<longleftrightarrow> l = ''external''"
  by (auto simp: known_taint_iff)

lemma known_labels [simp]:
  "known_taint ''system''" "known_taint ''user''" "known_taint ''workspace''" "known_taint ''external''"
  by (simp_all add: known_taint_iff)

lemma higher_external [simp]: "known_taint a \<Longrightarrow> higher a ''external'' = ''external''"
  by (auto simp: higher_def known_taint_iff)

lemma known_higher [simp]: "known_taint a \<Longrightarrow> known_taint b \<Longrightarrow> known_taint (higher a b)"
  by (simp add: higher_def)

section \<open>Declared tools\<close>

definition TOOL_CLASS :: "(str \<times> str \<times> str) list" where
  "TOOL_CLASS =
    [(''read_file'', ''S0'', ''workspace''), (''list_dir'', ''S0'', ''workspace''),
     (''grep'', ''S0'', ''workspace''), (''glob'', ''S0'', ''workspace''),
     (''search_codebase'', ''S0'', ''workspace''), (''goto_definition'', ''S0'', ''workspace''),
     (''find_references'', ''S0'', ''workspace''), (''read_lints'', ''S0'', ''workspace''),
     (''check_citation'', ''S0'', ''workspace''), (''writing_rubric'', ''S0'', ''workspace''),
     (''evaluate_writing_fragment'', ''S0'', ''workspace''), (''author_state'', ''S0'', ''workspace''),
     (''reread_book'', ''S0'', ''workspace''), (''editor_report'', ''S0'', ''workspace''),
     (''propose_book_candidates'', ''S0'', ''workspace''),
     (''propose_opening_ponds'', ''S0'', ''workspace''),
     (''propose_chapter_openings'', ''S0'', ''workspace''),
     (''recall'', ''S0'', ''stored''), (''search_sources'', ''S0'', ''external''),
     (''enrich_ioc'', ''S0'', ''external''), (''lookup_indicator'', ''S0'', ''external''),
     (''search_records'', ''S0'', ''external''), (''delegate'', ''S0'', ''child''),
     (''slow_tool'', ''S0'', ''workspace''), (''stub_echo'', ''S0'', ''workspace''),
     (''write_file'', ''S1'', ''workspace''), (''edit_file'', ''S1'', ''workspace''),
     (''rename_file'', ''S1'', ''workspace''), (''apply_patch'', ''S1'', ''workspace''),
     (''propose_patch'', ''S1'', ''workspace''), (''draft_section'', ''S1'', ''workspace''),
     (''update_outline'', ''S1'', ''workspace''), (''update_plan'', ''S1'', ''workspace''),
     (''propose_retcon'', ''S1'', ''workspace''), (''export_document'', ''S1'', ''workspace''),
     (''run_command'', ''S2'', ''workspace''), (''run_tests'', ''S2'', ''workspace''),
     (''remember'', ''S3'', ''user''), (''forget'', ''S3'', ''user''),
     (''load_skill'', ''S3'', ''system''), (''http_fetch'', ''S4'', ''external'')]"

definition declared_class :: "str \<Rightarrow> str \<times> str" where
  "declared_class name = or_else (map_of TOOL_CLASS name) ([], [])"

section \<open>The emergency store\<close>

record emergency =
  em_tools :: "str list"
  em_hosts :: "str list"
  em_commands :: "str list"

datatype emergency_file = FileMissing | FileUnreadable | FileData emergency

record policy_store =
  emergency_tools :: "str set"
  emergency_hosts :: "str set"
  emergency_path :: emergency_file
  disk_writable :: bool

definition empty_emergency :: emergency where
  "empty_emergency = \<lparr>em_tools = [], em_hosts = [], em_commands = []\<rparr>"

text \<open>The data and the value \<open>_POLICY_UNREADABLE\<close> is left at.\<close>

definition load_emergency_file :: "policy_store \<Rightarrow> emergency \<times> bool" where
  "load_emergency_file st = (case emergency_path st of
      FileMissing \<Rightarrow> (empty_emergency, False)
    | FileUnreadable \<Rightarrow> (empty_emergency, True)
    | FileData d \<Rightarrow> (d, False))"

definition save_emergency_file :: "policy_store \<Rightarrow> emergency \<Rightarrow> policy_store" where
  "save_emergency_file st d = (if disk_writable st then st\<lparr>emergency_path := FileData d\<rparr> else st)"

definition policy_unreadable :: "policy_store \<Rightarrow> bool" where
  "policy_unreadable st = snd (load_emergency_file st)"

text \<open>\<open>sorted(set(xs) | {x})\<close>\<close>

definition sorted_add :: "str list \<Rightarrow> str \<Rightarrow> str list" where
  "sorted_add xs x = sort (remdups (x # xs))"

lemma set_sorted_add [simp]: "set (sorted_add xs x) = insert x (set xs)"
  by (auto simp: sorted_add_def)

definition emergency_deny_tool :: "policy_store \<Rightarrow> str \<Rightarrow> policy_store" where
  "emergency_deny_tool st name =
     (let st1 = st\<lparr>emergency_tools := insert name (emergency_tools st)\<rparr>;
          data = fst (load_emergency_file st1)
      in save_emergency_file st1 (data\<lparr>em_tools := sorted_add (em_tools data) name\<rparr>))"

definition emergency_deny_host :: "policy_store \<Rightarrow> str \<Rightarrow> policy_store" where
  "emergency_deny_host st host =
     (let name = lower (strip host);
          st1 = st\<lparr>emergency_hosts := insert name (emergency_hosts st)\<rparr>;
          data = fst (load_emergency_file st1)
      in save_emergency_file st1 (data\<lparr>em_hosts := sorted_add (map lower (em_hosts data)) name\<rparr>))"

definition emergency_deny_command :: "policy_store \<Rightarrow> str \<Rightarrow> policy_store" where
  "emergency_deny_command st command =
     (let txt = strip command in
      if txt = [] then st
      else let data = fst (load_emergency_file st)
           in save_emergency_file st (data\<lparr>em_commands := sorted_add (em_commands data) txt\<rparr>))"

definition command_emergency_denied :: "policy_store \<Rightarrow> str \<Rightarrow> bool" where
  "command_emergency_denied st command =
     (let txt = strip command in
      if txt = [] then False
      else (\<exists>pre \<in> set (em_commands (fst (load_emergency_file st))). command_matches_prefix txt pre))"

definition emergency_clear :: "policy_store \<Rightarrow> policy_store" where
  "emergency_clear st =
     save_emergency_file (st\<lparr>emergency_tools := {}, emergency_hosts := {}\<rparr>) empty_emergency"

definition tool_emergency_denied :: "policy_store \<Rightarrow> str \<Rightarrow> bool" where
  "tool_emergency_denied st name \<longleftrightarrow>
     name \<in> emergency_tools st \<or> name \<in> set (em_tools (fst (load_emergency_file st)))"

definition host_emergency_denied :: "policy_store \<Rightarrow> str \<Rightarrow> bool" where
  "host_emergency_denied st host \<longleftrightarrow>
     (let name = lower (strip host) in
      name \<in> emergency_hosts st \<or> name \<in> set (map lower (em_hosts (fst (load_emergency_file st)))))"

section \<open>Command sets and local rules\<close>

definition EVAL_COMMAND_PREFIXES :: "str list" where
  "EVAL_COMMAND_PREFIXES = [''pytest'', ''python'', ''python3'', ''git'', ''npm'', ''npx'',
     ''ls'', ''cat'', ''rg'']"

definition eval_command_allowed :: "str \<Rightarrow> bool" where
  "eval_command_allowed command =
     (let txt = strip command in
      if txt = [] then False
      else (\<exists>pre \<in> set EVAL_COMMAND_PREFIXES. command_matches_prefix txt pre))"

definition WIPE_MARKERS :: "str list" where
  "WIPE_MARKERS = [''rm -rf /'', ''rm -rf /*'', ''mkfs'', ''dd if=/dev'']"

definition FETCH_EXEC_MARKERS :: "str list" where
  "FETCH_EXEC_MARKERS = [''curl '', ''wget '', ''ssh '', ''scp '', ''nc '']"

definition local_tighten :: "dict \<Rightarrow> decision option" where
  "local_tighten arguments =
     (let blob = join '' '' (map (str_field arguments) [''command'', ''cmd'', ''url'']);
          lowered = lower blob
      in if (\<exists>marker \<in> set WIPE_MARKERS. occurs_in marker lowered) then Some Deny
         else if (\<exists>marker \<in> set FETCH_EXEC_MARKERS. occurs_in marker lowered) then Some RequireApproval
         else None)"

section \<open>The matrix\<close>

definition decide ::
  "policy_store \<Rightarrow> str \<Rightarrow> str \<Rightarrow> str \<Rightarrow> bool \<Rightarrow> bool \<Rightarrow> bool \<Rightarrow> bool \<Rightarrow> decision option \<Rightarrow> decision \<times> str"
where
  "decide st tool_name sink_class window_taint sandbox_ready command_allowlisted eval_command
      snapshot_ok http_decision =
     (if tool_emergency_denied st tool_name then (Deny, ''emergency denylist'')
      else if policy_unreadable st \<and> sink_class \<in> {''S1'', ''S2'', ''S3'', ''S4'', ''S5''}
        then (Deny, ''policy unreadable'')
      else let taint = (if known_taint window_taint then window_taint else ''external'');
               sink = sink_class in
      if sink = ''S5'' then (Deny, ''out of bounds'')
      else if sink = ''S0'' then (Allow, ''read'')
      else if sink = ''S1'' then
        (if snapshot_ok then (Allow, ''reversible write'')
         else (RequireApproval, ''snapshot unavailable''))
      else if sink = ''S2'' then
        (if \<not> sandbox_ready then (Deny, ''sandbox unavailable'')
         else if command_allowlisted then (Allow, ''allowlisted command in a healthy sandbox'')
         else if eval_command then (Allow, ''eval command set'')
         else (RequireApproval, ''command is not on the allowlist''))
      else if sink = ''S3'' then
        (if tool_name = ''remember'' then
           (if taint = ''external'' then (RequireApproval, ''memory write after external content'')
            else (Allow, ''memory write inside user or workspace taint''))
         else (RequireApproval, ''durable config or skill change''))
      else if sink = ''S4'' then
        (case http_decision of
           Some d \<Rightarrow> (d, ''egress policy'')
         | None \<Rightarrow> (RequireApproval, ''outbound side effect''))
      else (Deny, ''undeclared sink''))"

section \<open>Facts the other theories use\<close>

lemma decide_emergency: "tool_emergency_denied st t \<Longrightarrow> fst (decide st t s w r a e n h) = Deny"
  by (simp add: decide_def)

lemma decide_unreadable:
  "policy_unreadable st \<Longrightarrow> sink \<noteq> ''S0'' \<Longrightarrow> fst (decide st t sink w r a e n h) = Deny"
  by (auto simp: decide_def Let_def)

lemma decide_S5: "fst (decide st t ''S5'' w r a e n h) = Deny"
  by (auto simp: decide_def Let_def)

lemma decide_S2_not_ready: "fst (decide st t ''S2'' w False a e n h) = Deny"
  by (auto simp: decide_def Let_def)

text \<open>The matrix allows exactly these calls.\<close>

lemma decide_allow_iff:
  "fst (decide st t sink w r a e n h) = Allow \<longleftrightarrow>
     \<not> tool_emergency_denied st t \<and>
     (sink = ''S0'' \<or>
      \<not> policy_unreadable st \<and>
      (sink = ''S1'' \<and> n \<or>
       sink = ''S2'' \<and> r \<and> (a \<or> e) \<or>
       sink = ''S3'' \<and> t = ''remember'' \<and> known_taint w \<and> w \<noteq> ''external'' \<or>
       sink = ''S4'' \<and> h = Some Allow))"
  by (auto simp: decide_def Let_def split: option.splits if_splits)

lemma load_after_save:
  "disk_writable st \<Longrightarrow> load_emergency_file (save_emergency_file st d) = (d, False)"
  by (simp add: load_emergency_file_def save_emergency_file_def)

lemma save_in_process [simp]:
  "emergency_tools (save_emergency_file st d) = emergency_tools st"
  "emergency_hosts (save_emergency_file st d) = emergency_hosts st"
  "disk_writable (save_emergency_file st d) = disk_writable st"
  by (simp_all add: save_emergency_file_def)

end
