(* ===== verification/Taint.thy ===== *)
theory Taint
  imports PolicyMatrix TurnState
begin

text \<open>
  \<open>services/runtime/app/policy/taint.py\<close>: the taint of a message, of a list of messages and
  of the turn window, and the operations that raise the window. \<open>raise_window\<close> returns the
  new state; its result value is the new label, \<open>window_taint\<close> of that state.
\<close>

section \<open>Labels of messages\<close>

definition message_taint :: "json \<Rightarrow> str" where
  "message_taint message = (case message of
      JObj d \<Rightarrow> (case dict_get d ''_taint'' of
          JStr raw \<Rightarrow> if known_taint raw then raw
                      else if dict_get d ''role'' = JStr ''system'' then ''system'' else ''user''
        | _ \<Rightarrow> if dict_get d ''role'' = JStr ''system'' then ''system'' else ''user'')
    | _ \<Rightarrow> ''user'')"

definition max_taint :: "json list \<Rightarrow> str" where
  "max_taint msgs = foldl (\<lambda>level message. higher level (message_taint message)) ''system'' msgs"

definition window_taint_of :: "json list \<Rightarrow> str" where
  "window_taint_of msgs = (if msgs = [] then ''user'' else max_taint msgs)"

text \<open>\<open>message["_taint"] = ...\<close> on a message dict.\<close>

definition stamp_inherited :: "dict \<Rightarrow> json list \<Rightarrow> dict" where
  "stamp_inherited message sources =
     dict_set message ''_taint''
       (JStr (if sources \<noteq> [] then max_taint sources else message_taint (JObj message)))"

definition strip_taint :: "dict \<Rightarrow> dict" where
  "strip_taint message =
     (if map_of message ''_taint'' = None then message
      else filter (\<lambda>(key, value). key \<noteq> ''_taint'') message)"

section \<open>The turn window\<close>

definition EXTERNAL_TOOL_NAMES :: "str list" where
  "EXTERNAL_TOOL_NAMES = [''search_sources'', ''enrich_ioc'', ''lookup_indicator'', ''search_records'']"

definition effective_window :: "turn_state \<Rightarrow> str" where
  "effective_window state =
     (let level = (if window_taint state = [] then ''user'' else window_taint state);
          level = (if known_taint level then level else ''user'')
      in if saw_external state then higher level ''external'' else level)"

definition raise_window :: "turn_state \<Rightarrow> str \<Rightarrow> turn_state" where
  "raise_window state level =
     (let current = effective_window state;
          nxt = higher current (if known_taint level then level else ''external'');
          logged = (if taint_rank nxt > taint_rank current
             then state\<lparr>audit_log := audit_log state @ [(current, nxt)]\<rparr> else state);
          stored = logged\<lparr>window_taint := nxt\<rparr>
      in if nxt = ''external'' then stored\<lparr>saw_external := True\<rparr> else stored)"

definition note_external_tool :: "turn_state \<Rightarrow> str \<Rightarrow> turn_state" where
  "note_external_tool state tool_name =
     (if tool_name \<notin> set EXTERNAL_TOOL_NAMES then state
      else (raise_window state ''external'')\<lparr>last_external_tool := tool_name\<rparr>)"

text \<open>The context variables: the label bound for a handler and the label it reads back.\<close>

definition bind_window_taint :: "str \<Rightarrow> str" where
  "bind_window_taint level = (if known_taint level then level else ''external'')"

definition current_window_taint :: "str \<Rightarrow> bool \<Rightarrow> str" where
  "current_window_taint label window_external =
     (if known_taint label then label else if window_external then ''external'' else ''user'')"

section \<open>Facts\<close>

lemma known_message_taint [simp]: "known_taint (message_taint m)"
  by (auto simp: message_taint_def known_taint_iff split: json.splits)

lemma max_taint_fold: "max_taint ms = foldl higher ''system'' (map message_taint ms)"
  by (simp add: max_taint_def foldl_map)

lemma foldl_higher_known:
  "known_taint a \<Longrightarrow> \<forall>x \<in> set xs. known_taint x \<Longrightarrow> known_taint (foldl higher a xs)"
  using taint.fold_in [of a xs] by auto

lemma known_max_taint [simp]: "known_taint (max_taint ms)"
  unfolding max_taint_fold by (rule foldl_higher_known) simp_all

lemma rank_inject: "known_taint a \<Longrightarrow> known_taint b \<Longrightarrow> taint_rank a = taint_rank b \<Longrightarrow> a = b"
  by (auto simp: known_taint_iff)

lemma rank_foldl_append:
  "taint_rank (foldl higher a (xs @ ys))
     = max (taint_rank (foldl higher a xs)) (taint_rank (foldl higher ''system'' ys))"
proof (induction ys arbitrary: a xs)
  case Nil
  show ?case by simp
next
  case (Cons y ys)
  have one: "taint_rank (foldl higher b (y # ys))
      = max (max (taint_rank b) (taint_rank y)) (taint_rank (foldl higher ''system'' ys))" for b
    using Cons.IH [of "higher b y" "[]"] by (simp add: taint.join_rank)
  show ?case using one [of "foldl higher a xs"] one [of "''system''"] by simp
qed

lemma rank_max_taint_append:
  "taint_rank (max_taint (xs @ ys)) = max (taint_rank (max_taint xs)) (taint_rank (max_taint ys))"
  unfolding max_taint_fold by (simp only: map_append rank_foldl_append)

lemma max_taint_append: "max_taint (xs @ ys) = higher (max_taint xs) (max_taint ys)"
  by (rule rank_inject) (simp_all add: rank_max_taint_append taint.join_rank)

lemma message_taint_stamp:
  "message_taint (JObj (stamp_inherited m src))
     = (if src \<noteq> [] then max_taint src else message_taint (JObj m))"
proof -
  have "known_taint raw \<Longrightarrow> message_taint (JObj (dict_set m ''_taint'' (JStr raw))) = raw" for raw
    by (simp add: message_taint_def)
  then show ?thesis by (simp add: stamp_inherited_def)
qed

lemma max_taint_single: "taint_rank (max_taint [m]) = taint_rank (message_taint m)"
  by (simp add: max_taint_def taint.join_rank)

lemma known_effective [simp]: "known_taint (effective_window st)"
  by (simp add: effective_window_def Let_def)

lemma effective_external: "saw_external st \<Longrightarrow> effective_window st = ''external''"
  by (simp add: effective_window_def Let_def)

lemma effective_raise:
  "effective_window (raise_window st l)
     = higher (effective_window st) (if known_taint l then l else ''external'')"
    (is "_ = ?nxt")
proof -
  have k: "known_taint ?nxt"
    by simp
  then have ne: "?nxt \<noteq> []" by (auto simp: known_taint_iff)
  show ?thesis
  proof (cases "?nxt = ''external''")
    case True
    then have "saw_external (raise_window st l)"
      by (simp add: raise_window_def Let_def)
    with True show ?thesis by (simp add: effective_external)
  next
    case False
    have "\<not> saw_external st"
    proof
      assume "saw_external st"
      then have "effective_window st = ''external''" by (rule effective_external)
      then have "?nxt = ''external''" by (auto simp: higher_def known_taint_iff)
      with False show False by contradiction
    qed
    with False k ne show ?thesis
      by (simp add: raise_window_def effective_window_def [of "_\<lparr>window_taint := _\<rparr>"] Let_def)
  qed
qed

lemma raise_window_rank: "taint_rank (effective_window st) \<le> taint_rank (effective_window (raise_window st l))"
  by (simp add: effective_raise taint.join_rank)

lemma raise_window_reaches:
  "known_taint l \<Longrightarrow> taint_rank l \<le> taint_rank (effective_window (raise_window st l))"
  by (simp add: effective_raise taint.join_rank)

lemma raise_external [simp]: "effective_window (raise_window st ''external'') = ''external''"
  by (simp add: effective_raise)

lemma raise_window_frame [simp]:
  "scenario_id (raise_window st l) = scenario_id st"
  "permission_mode (raise_window st l) = permission_mode st"
  "s1_granted_this_turn (raise_window st l) = s1_granted_this_turn st"
  "s2_granted_this_turn (raise_window st l) = s2_granted_this_turn st"
  "shadow_snapshot_id (raise_window st l) = shadow_snapshot_id st"
  "turn_user_text (raise_window st l) = turn_user_text st"
  "ops_eval (raise_window st l) = ops_eval st"
  "last_external_tool (raise_window st l) = last_external_tool st"
  "messages (raise_window st l) = messages st"
  "s1_snapshots (raise_window st l) = s1_snapshots st"
  by (simp_all add: raise_window_def Let_def)

lemma rank_unknown: "taint_rank (if known_taint l then l else ''external'') = taint_rank l"
  by (cases "map_of TAINT_RANK l") (auto simp: taint_rank_def known_taint_def TAINT_RANK_def)

lemma stamped_summary_taint:
  assumes "ys \<noteq> []"
  shows "max_taint (xs @ JObj (stamp_inherited m ys) # zs) = max_taint (xs @ ys @ zs)"
proof (rule rank_inject)
  have "max_taint (xs @ JObj (stamp_inherited m ys) # zs)
      = max_taint (xs @ [JObj (stamp_inherited m ys)] @ zs)" by simp
  then show "taint_rank (max_taint (xs @ JObj (stamp_inherited m ys) # zs)) = taint_rank (max_taint (xs @ ys @ zs))"
    using assms by (simp only: rank_max_taint_append max_taint_single message_taint_stamp) simp
qed simp_all

section \<open>Properties\<close>

text \<open>
  C8: compression does not launder taint. A non-empty run of messages replaced by one summary
  stamped with \<open>stamp_inherited\<close> leaves the taint of the whole conversation as it was,
  whatever the summary itself claims.
\<close>

theorem summary_inherits_taint:
  assumes "ys \<noteq> []"
  shows "max_taint (xs @ JObj (stamp_inherited m ys) # zs) = max_taint (xs @ ys @ zs)"
  by (rule stamped_summary_taint [OF assms])

text \<open>
  The window is the maximum of what raised it. After any sequence of raises the window
  has the rank of the most severe of the old window and the labels raised to, an unknown
  label counting as external.
\<close>

theorem window_is_maximum_of_raises:
  "taint_rank (effective_window (foldl raise_window st ls))
     = foldl max (taint_rank (effective_window st)) (map taint_rank ls)"
proof (induction ls arbitrary: st)
  case (Cons l ls)
  have "taint_rank (effective_window (raise_window st l)) = max (taint_rank (effective_window st)) (taint_rank l)"
    using rank_unknown [of l] by (simp add: effective_raise taint.join_rank)
  with Cons.IH show ?case by simp
qed simp

lemma summary_inherits_taint_witness:
  "max_taint ([] @ JObj (stamp_inherited [(''_taint'', JStr ''system'')]
       [JObj [(''_taint'', JStr ''external'')]]) # []) = ''external''"
proof -
  let ?ys = "[JObj [(''_taint'', JStr ''external'')]]"
  have "max_taint ([] @ JObj (stamp_inherited [(''_taint'', JStr ''system'')] ?ys) # [])
      = max_taint ([] @ ?ys @ [])"
    by (rule summary_inherits_taint) simp
  also have "\<dots> = ''external''" by code_simp
  finally show ?thesis .
qed

end
