(* ===== verification/ChildJoin.thy ===== *)
theory ChildJoin
  imports Messages Taint
begin

text \<open>
  Delegates that the parent turn spawns and joins: \<open>engine/child_spawn.py\<close>,
  \<open>engine/tool_batch.py\<close> and \<open>controller/child_join.py\<close>. The run of one child (\<open>_execute_one\<close>)
  is a parameter; the database status updates of the join are left to RunStore.
\<close>

section \<open>Which calls may run together\<close>

definition CACHEABLE_TOOLS :: "str list" where
  "CACHEABLE_TOOLS = [''list_dir'', ''glob'', ''grep'', ''read_file'', ''search_sources'',
     ''enrich_ioc'', ''lookup_indicator'']"

definition READONLY_DELEGATE_TYPES :: "str list" where
  "READONLY_DELEGATE_TYPES = [''explore'', ''retrieve'', ''researcher'', ''fact_checker'', ''planner'', ''review'']"

definition or_explore :: "str \<Rightarrow> str" where
  "or_explore s = (if s = [] then ''explore'' else s)"

definition is_parallel_tool_call :: "dict \<Rightarrow> bool" where
  "is_parallel_tool_call call =
     (let name = str_field call ''name'' in
      if name \<in> set CACHEABLE_TOOLS then True
      else if name \<noteq> ''delegate'' then False
      else or_explore (strip (py_str (py_or (dict_get (as_dict (dict_get call ''input'')) ''agent_type'')
             (JStr ''explore'')))) \<in> set READONLY_DELEGATE_TYPES)"

section \<open>Spawning\<close>

text \<open>\<open>list(x or [])\<close>; a truthy value that cannot be iterated raises in Python.\<close>

fun py_iter :: "json \<Rightarrow> json list" where
  "py_iter (JList xs) = xs"
| "py_iter (JStr s) = map (\<lambda>c. JStr [c]) s"
| "py_iter (JObj d) = map (\<lambda>(k, v). JStr k) d"
| "py_iter _ = []"

definition child_spec_from_call :: "str \<Rightarrow> int \<Rightarrow> json \<Rightarrow> str \<Rightarrow> str \<Rightarrow> dict" where
  "child_spec_from_call tool_call_id step_index arguments turn_id run_id =
     (let raw = as_dict arguments in
      [(''tool_call_id'', JStr tool_call_id), (''step_index'', JInt step_index),
       (''task'', JStr (str_field raw ''task'')),
       (''agent_type'', JStr (or_explore (strip (py_str (py_or (dict_get raw ''agent_type'') (JStr ''explore'')))))),
       (''context'', JStr (str_field raw ''context'')),
       (''context_refs'', JList (py_iter (dict_get raw ''context_refs''))),
       (''paths'', JList (py_iter (dict_get raw ''paths''))),
       (''turn_id'', JStr turn_id), (''run_id'', JStr run_id)])"

text \<open>
  \<open>park_spawned_child\<close>: the new pending list and whether the parent parks. The entries of
  \<open>result["child"]\<close> override those of the call, except the call id and the step.
\<close>

definition park_spawned_child :: "dict list \<Rightarrow> json \<Rightarrow> str \<Rightarrow> int \<Rightarrow> json \<Rightarrow> str \<Rightarrow> str \<Rightarrow> dict list \<times> bool" where
  "park_spawned_child pending result tool_call_id step_index arguments turn_id run_id =
     (if dict_get (as_dict result) ''status'' \<noteq> JStr ''spawn_child'' then (pending, False)
      else (let extra = as_dict (dict_get (as_dict result) ''child'');
                spec = dict_set (dict_set (dict_update
                    (child_spec_from_call tool_call_id step_index arguments turn_id run_id) extra)
                  ''tool_call_id'' (JStr tool_call_id)) ''step_index'' (JInt step_index)
            in (pending @ [spec], True)))"

definition should_spawn_child :: "nat \<Rightarrow> json \<Rightarrow> bool" where
  "should_spawn_child delegate_depth wait =
     (if delegate_depth > 0 then False
      else \<not> (wait = JBool False \<or> lower (strip (py_str wait)) \<in> {''false'', ''0'', ''no''}))"

section \<open>Joining\<close>

definition spec_readonly :: "dict \<Rightarrow> bool" where
  "spec_readonly spec \<longleftrightarrow>
     py_str (py_or (dict_get spec ''agent_type'') (JStr ''explore'')) \<in> set READONLY_DELEGATE_TYPES"

text \<open>The groups that run at the same time: read-only neighbours together, the others alone.\<close>

function join_groups :: "dict list \<Rightarrow> dict list list" where
  "join_groups [] = []"
| "join_groups (spec # specs) =
     (if spec_readonly spec
      then (spec # takeWhile spec_readonly specs) # join_groups (dropWhile spec_readonly specs)
      else [spec] # join_groups specs)"
  by pat_completeness auto

termination
  by (relation "measure length") (auto simp: le_imp_less_Suc length_dropWhile_le)

text \<open>\<open>out[tid] = result\<close> for every child of every group.\<close>

definition join_children :: "(dict \<Rightarrow> dict) \<Rightarrow> dict list \<Rightarrow> (str \<rightharpoonup> dict)" where
  "join_children execute_one children =
     foldl (\<lambda>out batch. foldl (\<lambda>out spec. out(str_field spec ''tool_call_id'' \<mapsto> execute_one spec)) out batch)
       Map.empty (join_groups children)"

section \<open>Splicing child results\<close>

text \<open>The last assistant message that calls tools: what precedes it, its ids, what follows.\<close>

definition call_ids :: "json \<Rightarrow> str list" where
  "call_ids msg = (if msg_role_is ''assistant'' msg
     then map (\<lambda>b. str_field b ''id'')
       (filter (\<lambda>b. block_is ''tool_use'' b \<and> truthy (dict_get b ''id'')) (msg_blocks msg)) else [])"

fun last_caller :: "json list \<Rightarrow> (json list \<times> json \<times> json list) option" where
  "last_caller [] = None"
| "last_caller (m # ms) = (case last_caller ms of
      Some (before, c, after) \<Rightarrow> Some (m # before, c, after)
    | None \<Rightarrow> if call_ids m \<noteq> [] then Some ([], m, ms) else None)"

text \<open>\<open>existing[tid] = messages[tail]\<close> over the blocks of the tool run.\<close>

definition existing_results :: "json list \<Rightarrow> (str \<rightharpoonup> json)" where
  "existing_results tool_run = foldl (\<lambda>ex msg. foldl (\<lambda>ex b.
      if block_is ''tool_result'' b \<and> str_field b ''tool_use_id'' \<noteq> []
      then ex(str_field b ''tool_use_id'' \<mapsto> msg) else ex) ex (msg_blocks msg)) Map.empty tool_run"

definition child_result_message :: "str \<Rightarrow> dict \<Rightarrow> json" where
  "child_result_message tid child = tool_result_message tid (json_dumps (JObj child))
     (str_field child ''status'' \<in> {''failed'', ''error'', ''cancelled''}) None"

text \<open>The loop over \<open>uses\<close> with its \<open>seen\<close> set.\<close>

fun ordered_results :: "(str \<rightharpoonup> dict) \<Rightarrow> (str \<rightharpoonup> json) \<Rightarrow> str list \<Rightarrow> str list \<Rightarrow> json list" where
  "ordered_results results ex seen [] = []"
| "ordered_results results ex seen (tid # tids) =
     (if tid \<in> set seen then ordered_results results ex seen tids
      else (case results tid of
          Some child \<Rightarrow> child_result_message tid child # ordered_results results ex (tid # seen) tids
        | None \<Rightarrow> (case ex tid of
              Some m \<Rightarrow> m # ordered_results results ex (tid # seen) tids
            | None \<Rightarrow> ordered_results results ex (tid # seen) tids)))"

definition splice_child_results :: "json list \<Rightarrow> (str \<rightharpoonup> dict) \<Rightarrow> json list" where
  "splice_child_results msgs results_by_id = (case last_caller msgs of
      None \<Rightarrow> msgs
    | Some (before, c, after) \<Rightarrow>
        before @ c # ordered_results results_by_id (existing_results (takeWhile is_tool after)) [] (call_ids c)
          @ dropWhile is_tool after)"

text \<open>One round of \<open>settle_waiting_children\<close>: join, splice, and the completion event of each child.\<close>

definition child_completed_event :: "(str \<rightharpoonup> dict) \<Rightarrow> dict \<Rightarrow> dict" where
  "child_completed_event results spec =
     (let tid = str_field spec ''tool_call_id'';
          result = (case results tid of Some (p # ps) \<Rightarrow> p # ps
             | _ \<Rightarrow> [(''status'', JStr ''failed''), (''summary'', JStr ''child missing'')])
      in [(''tool_call_id'', JStr tid), (''tool_name'', JStr ''delegate''),
          (''status'', JStr (if lower (str_field result ''status'') \<in> {''ok'', ''completed''} then ''ok'' else ''error'')),
          (''summary'', JStr (take 500 (str_field result ''summary'')))])"

definition settle_round :: "(dict \<Rightarrow> dict) \<Rightarrow> dict list \<Rightarrow> json list \<Rightarrow> json list \<times> dict list" where
  "settle_round execute_one pending msgs =
     (let results = join_children execute_one pending
      in (splice_child_results msgs results, map (child_completed_event results) pending))"

section \<open>Every pending child is run\<close>

lemma concat_join_groups: "concat (join_groups cs) = cs"
  by (induction cs rule: join_groups.induct) auto

lemma foldl_concat: "foldl (foldl f) a xss = foldl f a (concat xss)"
  by (induction xss arbitrary: a) auto

lemma foldl_upd_notin:
  "t \<notin> k ` set xs \<Longrightarrow> foldl (\<lambda>out x. out(k x \<mapsto> v x)) out xs t = out t"
  by (induction xs arbitrary: out) auto

lemma foldl_upd_in:
  "x \<in> set xs \<Longrightarrow> distinct (map k xs) \<Longrightarrow> foldl (\<lambda>out x. out(k x \<mapsto> v x)) out xs (k x) = Some (v x)"
  by (induction xs arbitrary: out) (auto simp: foldl_upd_notin)

lemma join_children_flat:
  "join_children execute_one children =
     foldl (\<lambda>out spec. out(str_field spec ''tool_call_id'' \<mapsto> execute_one spec)) Map.empty children"
  by (simp add: join_children_def foldl_concat concat_join_groups)

text \<open>
  However the children are grouped, each pending child is run once and its result is
  filed under its call; only neighbouring read-only children run at the same time.
\<close>

theorem join_runs_every_child:
  assumes "distinct (map (\<lambda>spec. str_field spec ''tool_call_id'') children)" and "spec \<in> set children"
  shows "join_children execute_one children (str_field spec ''tool_call_id'') = Some (execute_one spec)
    \<and> concat (join_groups children) = children
    \<and> (\<forall>g \<in> set (join_groups children). length g = 1 \<or> list_all spec_readonly g)"
proof -
  have "\<forall>g \<in> set (join_groups cs). length g = 1 \<or> list_all spec_readonly g" for cs
    by (induction cs rule: join_groups.induct)
      (auto simp: list_all_iff dest: set_takeWhileD)
  then show ?thesis
    using foldl_upd_in [OF assms(2,1)] by (simp add: join_children_flat concat_join_groups)
qed

lemma join_runs_every_child_witness:
  "join_children (\<lambda>spec. [(''status'', dict_get spec ''agent_type'')])
     [[(''tool_call_id'', JStr ''a''), (''agent_type'', JStr ''explore'')], [(''tool_call_id'', JStr ''b''), (''agent_type'', JStr ''writer'')]] ''b''
   = Some [(''status'', JStr ''writer'')]"
  using join_runs_every_child [of "[[(''tool_call_id'', JStr ''a''), (''agent_type'', JStr ''explore'')], [(''tool_call_id'', JStr ''b''), (''agent_type'', JStr ''writer'')]]"
      "[(''tool_call_id'', JStr ''b''), (''agent_type'', JStr ''writer'')]" "\<lambda>spec. [(''status'', dict_get spec ''agent_type'')]"]
  by (simp add: str_field_Cons dict_get_def)

section \<open>The spliced history\<close>

lemma call_ids_tool: "is_tool m \<Longrightarrow> call_ids m = []"
  by (simp add: call_ids_def msg_role_is_def)

lemma last_caller_append:
  assumes "call_ids c \<noteq> []" and "\<forall>m \<in> set after. is_tool m"
  shows "last_caller (before @ c # after) = Some (before, c, after)"
proof -
  have "last_caller after = None"
    using assms(2) by (induction after) (auto simp: call_ids_tool)
  then have "last_caller (c # after) = Some ([], c, after)"
    using assms(1) by simp
  then show ?thesis by (induction before) simp_all
qed

lemma call_ids_use_ids:
  assumes "message_has_tool_use c" and "[] \<notin> set (use_ids c)"
  shows "call_ids c = use_ids c"
proof -
  have "block_is ''tool_use'' b \<longrightarrow> truthy (dict_get b ''id'')" if "b \<in> set (msg_blocks c)" for b
  proof (rule ccontr)
    assume "\<not> (block_is ''tool_use'' b \<longrightarrow> truthy (dict_get b ''id''))"
    then have "block_is ''tool_use'' b" "str_field b ''id'' = []"
      by (auto simp: str_field_def)
    with that assms(2) show False by (force simp: use_ids_def)
  qed
  then have "filter (\<lambda>b. block_is ''tool_use'' b \<and> truthy (dict_get b ''id'')) (msg_blocks c)
      = filter (block_is ''tool_use'') (msg_blocks c)"
    by (intro filter_cong) auto
  with assms(1) show ?thesis
    by (simp add: call_ids_def use_ids_def message_has_tool_use_def)
qed

lemma child_result_ids: "result_ids (child_result_message tid child) = [tid]"
  by (simp add: child_result_message_def tool_result_message_def result_ids_def msg_blocks_def
      block_is_def str_field_Cons)

lemma child_result_tool: "is_tool (child_result_message tid child)"
  by (simp add: child_result_message_def tool_result_message_def msg_role_is_def)

text \<open>A tool message as the engine writes it: one result block, for a named call.\<close>

definition single_result :: "json \<Rightarrow> str \<Rightarrow> bool" where
  "single_result m t \<longleftrightarrow> is_tool m \<and> t \<noteq> [] \<and>
     (\<exists>b. msg_blocks m = [b] \<and> block_is ''tool_result'' b \<and> str_field b ''tool_use_id'' = t)"

lemma single_result_ids: "single_result m t \<Longrightarrow> result_ids m = [t] \<and> is_tool m"
  by (auto simp: single_result_def result_ids_def)

lemma existing_results_single:
  assumes "\<forall>m \<in> set tool_run. \<exists>t. single_result m t"
  shows "existing_results tool_run t = Some m \<Longrightarrow> m \<in> set tool_run \<and> single_result m t"
    and "t \<in> set (concat (map result_ids tool_run)) \<Longrightarrow> existing_results tool_run t \<noteq> None"
proof -
  have step: "existing_results (ms @ [m]) = (existing_results ms)(t \<mapsto> m)" if "single_result m t" for ms m t
    using that by (auto simp: existing_results_def single_result_def)
  have "(existing_results tool_run t = Some m \<longrightarrow> m \<in> set tool_run \<and> single_result m t)
      \<and> (t \<in> set (concat (map result_ids tool_run)) \<longrightarrow> existing_results tool_run t \<noteq> None)"
    using assms
  proof (induction tool_run rule: rev_induct)
    case (snoc x xs)
    then obtain u where u: "single_result x u" by auto
    with snoc step [OF u, of xs] single_result_ids [OF u] show ?case by auto
  qed (simp add: existing_results_def)
  then show "existing_results tool_run t = Some m \<Longrightarrow> m \<in> set tool_run \<and> single_result m t"
    and "t \<in> set (concat (map result_ids tool_run)) \<Longrightarrow> existing_results tool_run t \<noteq> None"
    by blast+
qed

lemma ordered_results_ids:
  assumes "\<And>t m. ex t = Some m \<Longrightarrow> single_result m t"
    and "\<forall>t \<in> set tids. results t \<noteq> None \<or> ex t \<noteq> None" and "distinct tids" and "set tids \<inter> set seen = {}"
  shows "concat (map result_ids (ordered_results results ex seen tids)) = tids
    \<and> list_all is_tool (ordered_results results ex seen tids)"
  using assms(2-4)
proof (induction tids arbitrary: seen)
  case (Cons t tids)
  have "concat (map result_ids (ordered_results results ex (t # seen) tids)) = tids
      \<and> list_all is_tool (ordered_results results ex (t # seen) tids)"
    by (rule Cons.IH) (use Cons.prems in auto)
  moreover have "ex t = Some m \<Longrightarrow> result_ids m = [t] \<and> is_tool m" for m
    using assms(1) single_result_ids by blast
  ultimately show ?case
    using Cons.prems by (auto simp: child_result_ids child_result_tool split: option.splits)
qed simp

text \<open>The history after a join, for the claim below and the batch of the engine.\<close>

lemma settle_paired:
  assumes "paired before" and "message_has_tool_use c"
    and "distinct (use_ids c)" and "[] \<notin> set (use_ids c)"
    and "\<forall>m \<in> set after. \<exists>t. single_result m t"
    and "distinct (map (\<lambda>spec. str_field spec ''tool_call_id'') pending)"
    and "\<forall>t \<in> set (use_ids c). t \<in> set (concat (map result_ids after))
           \<or> t \<in> (\<lambda>spec. str_field spec ''tool_call_id'') ` set pending"
  shows "paired (fst (settle_round execute_one pending (before @ c # after)))
    \<and> (\<exists>tools. fst (settle_round execute_one pending (before @ c # after)) = before @ c # tools
         \<and> concat (map result_ids tools) = use_ids c)"
proof -
  let ?res = "join_children execute_one pending"
  let ?tools = "ordered_results ?res (existing_results after) [] (use_ids c)"
  have tools: "\<forall>m \<in> set after. is_tool m"
    using assms(5) single_result_ids by blast
  have ids: "call_ids c = use_ids c" by (rule call_ids_use_ids [OF assms(2,4)])
  have ne: "use_ids c \<noteq> []"
    using assms(2) by (auto simp: message_has_tool_use_def use_ids_def filter_empty_conv)
  have run: "takeWhile is_tool after = after" "dropWhile is_tool after = []"
    using tools by (simp_all add: takeWhile_eq_all_conv dropWhile_eq_Nil_conv)
  have split: "fst (settle_round execute_one pending (before @ c # after)) = before @ c # ?tools"
    using last_caller_append [of c after before] ids ne tools
    by (simp add: settle_round_def splice_child_results_def Let_def run)
  have known: "\<forall>t \<in> set (use_ids c). ?res t \<noteq> None \<or> existing_results after t \<noteq> None"
  proof
    fix t assume "t \<in> set (use_ids c)"
    then consider "t \<in> set (concat (map result_ids after))"
      | spec where "spec \<in> set pending" "t = str_field spec ''tool_call_id''"
      using assms(7) by blast
    then show "?res t \<noteq> None \<or> existing_results after t \<noteq> None"
    proof cases
      case 1
      then show ?thesis using existing_results_single(2) [OF assms(5)] by blast
    next
      case 2
      then have "?res t = Some (execute_one spec)"
        using foldl_upd_in [OF 2(1) assms(6)] by (simp add: join_children_flat)
      then show ?thesis by simp
    qed
  qed
  have ordered: "concat (map result_ids ?tools) = use_ids c" "list_all is_tool ?tools"
    using ordered_results_ids [OF _ known assms(3), of "[]"] existing_results_single(1) [OF assms(5)] by simp_all
  have tw: "takeWhile is_tool ?tools = ?tools" "dropWhile is_tool ?tools = []"
    using ordered(2) by (simp_all add: takeWhile_eq_all_conv dropWhile_eq_Nil_conv list_all_iff)
  have "paired (c # ?tools)"
    using ordered by (simp add: paired_group [OF assms(2)] answers_def tw)
  from paired_append [OF assms(1) this] show ?thesis
    using split ordered(1) by auto
qed

text \<open>
  A join leaves a well-formed conversation. When the last assistant message calls tools
  with distinct ids, and each call was answered before the turn parked or belongs to a pending
  child, then after the splice its results stand in the order of the calls, one for each, and
  the whole history is paired.
\<close>

theorem settled_history_is_paired:
  assumes "paired before" and "message_has_tool_use c"
    and "distinct (use_ids c)" and "[] \<notin> set (use_ids c)"
    and "\<forall>m \<in> set after. \<exists>t. single_result m t"
    and "distinct (map (\<lambda>spec. str_field spec ''tool_call_id'') pending)"
    and "\<forall>t \<in> set (use_ids c). t \<in> set (concat (map result_ids after))
           \<or> t \<in> (\<lambda>spec. str_field spec ''tool_call_id'') ` set pending"
  shows "paired (fst (settle_round execute_one pending (before @ c # after)))
    \<and> (\<exists>tools. fst (settle_round execute_one pending (before @ c # after)) = before @ c # tools
         \<and> concat (map result_ids tools) = use_ids c)"
  using assms by (rule settle_paired)

lemma settled_history_is_paired_witness:
  "paired (fst (settle_round (\<lambda>spec. [(''status'', JStr ''completed'')])
     [[(''tool_call_id'', JStr ''c1'')]]
     ([user_message ''go''] @ assistant_tool_use ''c1'' ''delegate'' (JObj []) # [])))"
proof -
  let ?c = "assistant_tool_use ''c1'' ''delegate'' (JObj [])"
  have c: "message_has_tool_use ?c" "use_ids ?c = [''c1'']"
    by (simp_all add: assistant_tool_use_def message_has_tool_use_def msg_role_is_def msg_blocks_def
        block_is_def use_ids_def str_field_Cons)
  have "paired [user_message ''go'']"
    by (simp add: paired_plain user_message_def msg_role_is_def message_has_tool_use_def)
  from settled_history_is_paired [OF this c(1), of "[]" "[[(''tool_call_id'', JStr ''c1'')]]"] show ?thesis
    by (simp add: c(2) str_field_Cons)
qed

section \<open>The label of a spliced result\<close>

lemma child_result_taint: "message_taint (child_result_message tid child) = ''user''"
  by (simp add: child_result_message_def tool_result_message_def message_taint_def)

text \<open>
  The label of a child is lost in the splice. \<open>execute_delegate\<close> returns the maximal
  taint of the child as \<open>_taint\<close>, but the splice stores it inside the text and builds the
  message without a label: whatever the child saw, its result counts as written by the user,
  and the window computed from the conversation does not rise above what the other messages
  give.
\<close>

theorem spliced_child_result_is_untainted:
  assumes "call_ids c \<noteq> []" and "list_all is_tool after"
    and "\<forall>t \<in> set (call_ids c). results t \<noteq> None"
  shows "taint_rank (max_taint (splice_child_results (before @ c # after) results))
     \<le> max (taint_rank (max_taint (before @ [c]))) (taint_rank ''user'')"
proof -
  have all: "message_taint m = ''user''"
    if "m \<in> set (ordered_results results ex seen tids)" "\<forall>t \<in> set tids. results t \<noteq> None" for m ex seen tids
    using that by (induction tids arbitrary: seen) (auto simp: child_result_taint split: if_splits option.splits)
  let ?tools = "ordered_results results (existing_results after) [] (call_ids c)"
  have "taint_rank (max_taint ms) \<le> taint_rank ''user''" if "\<forall>m \<in> set ms. message_taint m = ''user''" for ms
    using that by (induction ms rule: rev_induct) (simp_all add: rank_max_taint_append max_taint_single, simp add: max_taint_def)
  with all assms(3) have "taint_rank (max_taint ?tools) \<le> taint_rank ''user''" by blast
  moreover have tw: "takeWhile is_tool after = after" "dropWhile is_tool after = []"
    using assms(2) by (simp_all add: takeWhile_eq_all_conv dropWhile_eq_Nil_conv list_all_iff)
  have "splice_child_results (before @ c # after) results = (before @ [c]) @ ?tools"
    using last_caller_append [OF assms(1), of after before] assms(2)
    by (simp add: splice_child_results_def list_all_iff tw)
  ultimately show ?thesis by (simp only: rank_max_taint_append)
qed

lemma spliced_child_result_is_untainted_witness:
  "taint_rank (max_taint (splice_child_results ([] @ assistant_tool_use ''c1'' ''delegate'' (JObj []) # [])
     [''c1'' \<mapsto> [(''summary'', JStr ''from the web''), (''_taint'', JStr ''external'')]])) < taint_rank ''external''"
proof -
  let ?c = "assistant_tool_use ''c1'' ''delegate'' (JObj [])"
  have c: "call_ids ?c = [''c1'']"
    by (simp add: assistant_tool_use_def call_ids_def msg_role_is_def msg_blocks_def block_is_def str_field_Cons)
  have "taint_rank (max_taint ([] @ [?c])) \<le> taint_rank ''user''"
    by (simp add: max_taint_single) (simp add: assistant_tool_use_def message_taint_def)
  moreover have "taint_rank ''user'' < taint_rank ''external''" by code_simp
  ultimately show ?thesis
    using spliced_child_result_is_untainted [of ?c "[]" "[''c1'' \<mapsto> [(''summary'', JStr ''from the web''), (''_taint'', JStr ''external'')]]" "[]"]
    by (simp add: c)
qed

end
