(* ===== verification/VerifyReceipt.thy ===== *)
theory VerifyReceipt
  imports AgentState ChildJoin
begin

text \<open>
  \<open>services/runtime/app/engine/verify_receipt.py\<close>: what a turn owes before it may finish. An edit
  of code opens a debt, a test command closes it; a reproduction of the reported issue is
  tracked beside it, and so are four findings on prose. At the final edge a receipt may be
  injected, each kind once. \<open>is_testish_command\<close> and \<open>format_failure_feed\<close> come from
  \<open>structural/test_summary.py\<close>, the tests of a result from \<open>structural/issue_repro.py\<close>. The
  hints found in the problem text, the matching of a command with them and the languages'
  own test commands are the record \<open>verify_env\<close>; the receipt texts, which are not ASCII, are
  left out.
\<close>

section \<open>Words in a command\<close>

text \<open>\<open>\w\<close> on ASCII text, and the end of a word as \<open>\b\<close> sees it.\<close>

definition word_char :: "char \<Rightarrow> bool" where
  "word_char c \<longleftrightarrow> (let n = (of_char c :: nat) in
     (48 \<le> n \<and> n \<le> 57) \<or> (65 \<le> n \<and> n \<le> 90) \<or> (97 \<le> n \<and> n \<le> 122) \<or> n = 95)"

definition ends_word :: "str \<Rightarrow> bool" where
  "ends_word s \<longleftrightarrow> s = [] \<or> \<not> word_char (hd s)"

text \<open>Words separated by white space, at the start of the text.\<close>

fun words_at :: "str list \<Rightarrow> str \<Rightarrow> bool" where
  "words_at [] s \<longleftrightarrow> ends_word s"
| "words_at [w] s \<longleftrightarrow> prefix w s \<and> ends_word (drop (length w) s)"
| "words_at (w # v # ws) s \<longleftrightarrow> prefix w s \<and>
     (let r = drop (length w) s in r \<noteq> [] \<and> is_space (hd r) \<and> words_at (v # ws) (dropWhile is_space r))"

text \<open>\<open>re.search\<close> of a pattern that begins with \<open>\b\<close> and a word character.\<close>

fun search_word :: "(str \<Rightarrow> bool) \<Rightarrow> bool \<Rightarrow> str \<Rightarrow> bool" where
  "search_word p fresh [] \<longleftrightarrow> False"
| "search_word p fresh (c # s) \<longleftrightarrow> (fresh \<and> word_char c \<and> p (c # s)) \<or> search_word p (\<not> word_char c) s"

record verify_env =
  ve_hints :: dict
  ve_met :: "str \<Rightarrow> dict \<Rightarrow> bool"
  ve_declared :: "str list"
  ve_blockers :: bool
  ve_suppress :: bool

definition TESTISH_PHRASES :: "str list list" where
  "TESTISH_PHRASES = [[''pytest''], [''py.test''], [''unittest''], [''nosetests''], [''tox''],
     [''python'', ''-m'', ''pytest''], [''python'', ''-m'', ''unittest''], [''go'', ''test''], [''cargo'', ''test''],
     [''npm'', ''test''], [''pnpm'', ''test''], [''yarn'', ''test''], [''npx'', ''vitest''], [''npx'', ''jest''],
     [''run_tests'']]"

definition is_testish_command :: "verify_env \<Rightarrow> str \<Rightarrow> bool" where
  "is_testish_command ve command \<longleftrightarrow> command \<noteq> [] \<and>
     (search_word (\<lambda>s. \<exists>ws \<in> set TESTISH_PHRASES. words_at ws s) True (lower command)
      \<or> squeeze command \<in> set (ve_declared ve))"

definition format_failure_feed :: "json \<Rightarrow> str option" where
  "format_failure_feed summary =
     (case as_list (dict_get (as_dict summary) ''first_failures'') of
        JObj first # _ \<Rightarrow>
          (let name = strip (str_field first ''name''); detail = take 400 (strip (str_field first ''detail'')) in
           if name = [] then None
           else Some (join [CHR 0x0A] ((''First failing test: '' @ name) # (if detail = [] then [] else [''  '' @ detail]))))
      | _ \<Rightarrow> None)"

section \<open>Results of a command\<close>

text \<open>\<open>int(x)\<close> of an exit code or a count that is no number raises: None.\<close>

definition code_ok :: "dict \<Rightarrow> bool option" where
  "code_ok result = (case dict_get result ''exit_code'' of JNull \<Rightarrow> Some True
     | v \<Rightarrow> map_option (\<lambda>n. n = 0) (py_int v))"

definition exit_one :: "str \<Rightarrow> bool" where
  "exit_one s \<longleftrightarrow>
     (let one = (\<lambda>r. prefix ''1'' r \<and> ends_word (drop 1 r)) in
      words_at [''exit'', ''1''] s \<or>
      (prefix ''exit_code'' s \<and> (let r = drop 9 s in
         one (dropWhile is_space (if r \<noteq> [] \<and> hd r \<in> {CHR ''='', CHR '':''} then tl r else r)))))"

definition is_successful_repro_result :: "dict \<Rightarrow> bool option" where
  "is_successful_repro_result result =
     (let status = lower (str_field result ''status''); sm = lower (str_field result ''summary'') in
      if status \<in> {''rejected'', ''error'', ''failed'', ''cancelled''} then Some False
      else if occurs_in ''sweb.eval failed'' sm \<or> starts_with (strip sm) ''exit 1'' then Some False
      else if search_word exit_one True sm then Some False
      else (case code_ok result of None \<Rightarrow> None | Some False \<Rightarrow> Some False
        | Some True \<Rightarrow> Some (status \<in> {''passed'', ''executed'', ''ok'', ''completed''}
              \<or> dict_get result ''exit_code'' \<noteq> JNull)))"

text \<open>\<open>_normalize_for_match\<close>: the two-character escapes of line feed and tab become blanks too.\<close>

fun unescape_blanks :: "str \<Rightarrow> str" where
  "unescape_blanks (c # d # s) =
     (if c = backslash \<and> d \<in> {CHR ''n'', CHR ''t''} then CHR '' '' # unescape_blanks s
      else c # unescape_blanks (d # s))"
| "unescape_blanks s = s"

definition normalize_for_match :: "str \<Rightarrow> str" where
  "normalize_for_match t = squeeze (unescape_blanks (lower t))"

definition result_blob :: "dict \<Rightarrow> str" where
  "result_blob result = join [CHR 0x0A] (map (str_field result) [''summary'', ''stdout'', ''stderr'', ''error''])"

definition is_clearing_repro_result :: "dict \<Rightarrow> str list \<Rightarrow> bool option" where
  "is_clearing_repro_result result fail_signals =
     map_option (\<lambda>good. good \<and> (\<forall>sig \<in> set (filter (\<lambda>s. strip s \<noteq> []) fail_signals).
         \<not> (length (normalize_for_match sig) \<ge> 5
            \<and> occurs_in (normalize_for_match sig) (normalize_for_match (result_blob result)))))
       (is_successful_repro_result result)"

definition count_positive :: "json \<Rightarrow> str \<Rightarrow> bool option" where
  "count_positive summary k = (case summary of
      JObj d \<Rightarrow> map_option (\<lambda>n. n > 0) (py_int (py_or (dict_get d k) (JInt 0))) | _ \<Rightarrow> Some False)"

definition is_green_test_result :: "dict \<Rightarrow> bool option" where
  "is_green_test_result result =
     (let status = str_field result ''status''; summary = dict_get result ''test_summary'' in
      if status \<in> {''rejected'', ''error'', ''failed'', ''cancelled''} then Some False
      else if status \<notin> {''passed'', ''executed'', ''ok'', ''completed''}
          \<and> dict_get result ''exit_code'' = JNull \<and> status \<noteq> [] then Some False
      else (case code_ok result of None \<Rightarrow> None | Some False \<Rightarrow> Some False
        | Some True \<Rightarrow> (case count_positive summary ''failed'' of None \<Rightarrow> None | Some True \<Rightarrow> Some False
          | Some False \<Rightarrow> (case count_positive summary ''errors'' of None \<Rightarrow> None | Some True \<Rightarrow> Some False
            | Some False \<Rightarrow> Some (\<not> occurs_in ''sweb.eval failed'' (lower (str_field result ''summary'')))))))"

section \<open>Findings on prose\<close>

type_synonym l0_hits = "bool \<times> bool \<times> bool \<times> bool"

definition writing_l0_hits :: "dict \<Rightarrow> l0_hits option" where
  "writing_l0_hits result =
     (let signals = as_dict (dict_get result ''writing_signals'');
          has_top = ((\<exists>k \<in> set [''staccato_uniform'', ''hinge_dense'', ''lore_dump'', ''opening_institution''].
             map_of result k \<noteq> None) \<or> str_field result ''status'' = ''drafted'');
          hit = (\<lambda>k. truthy (dict_get result k) \<or>
             (\<exists>item \<in> set (py_iter (py_or (dict_get signals ''penalties'') (JList []))).
                truthy (dict_get (as_dict item) ''hit'') \<and> str_field (as_dict item) ''key'' = k))
      in if signals = [] \<and> \<not> has_top then None
         else Some (hit ''staccato_uniform'', hit ''hinge_dense'', hit ''lore_dump'', hit ''opening_institution''))"

definition note_writing_signals :: "agent_state \<Rightarrow> dict \<Rightarrow> agent_state" where
  "note_writing_signals st result =
     (case writing_l0_hits result of None \<Rightarrow> st
      | Some (staccato, hinge, lore, opening) \<Rightarrow>
          st\<lparr>staccato_pending := staccato, hinge_pending := hinge, lore_pending := lore, opening_pending := opening\<rparr>)"

section \<open>The reproduction of the issue\<close>

definition hint_texts :: "dict \<Rightarrow> str \<Rightarrow> nat \<Rightarrow> str list" where
  "hint_texts hints k n = take n (map py_str (py_iter (py_or (dict_get hints k) (JList []))))"

definition ensure_issue_repro_hints :: "verify_env \<Rightarrow> agent_state \<Rightarrow> agent_state" where
  "ensure_issue_repro_hints ve st =
     (let h = ve_hints ve in
      if issue_repro_loaded st then st
      else st\<lparr>issue_repro_loaded := True,
         issue_repro_commands := hint_texts h ''commands'' 5,
         issue_repro_markers := hint_texts h ''markers'' 8,
         issue_repro_required_tokens := hint_texts h ''required_tokens'' 6,
         issue_repro_assets := hint_texts h ''assets'' 2,
         issue_repro_casefold_assets := hint_texts h ''casefold_assets'' 2,
         issue_repro_fail_signals := hint_texts h ''fail_signals'' 6,
         issue_repro_expect_signals := hint_texts h ''expect_signals'' 6,
         issue_repro_need_roundtrip := truthy (dict_get h ''need_roundtrip''),
         issue_repro_need_casefold := truthy (dict_get h ''need_casefold''),
         issue_repro_roundtrip_formats := hint_texts h ''roundtrip_formats'' 4,
         issue_repro_roundtrip_kwargs := hint_texts h ''roundtrip_kwargs'' 4\<rparr>)"

definition issue_repro_hints_dict :: "agent_state \<Rightarrow> dict" where
  "issue_repro_hints_dict st = (let texts = (\<lambda>xs. JList (map JStr xs)) in
     [(''commands'', texts (issue_repro_commands st)), (''markers'', texts (issue_repro_markers st)),
      (''required_tokens'', texts (issue_repro_required_tokens st)), (''assets'', texts (issue_repro_assets st)),
      (''casefold_assets'', texts (issue_repro_casefold_assets st)),
      (''fail_signals'', texts (issue_repro_fail_signals st)), (''expect_signals'', texts (issue_repro_expect_signals st)),
      (''need_roundtrip'', JBool (issue_repro_need_roundtrip st)),
      (''need_casefold'', JBool (issue_repro_need_casefold st)),
      (''roundtrip_formats'', texts (issue_repro_roundtrip_formats st)),
      (''roundtrip_kwargs'', texts (issue_repro_roundtrip_kwargs st))])"

definition issue_repro_hints_present :: "agent_state \<Rightarrow> bool" where
  "issue_repro_hints_present st \<longleftrightarrow> issue_repro_commands st \<noteq> [] \<or> issue_repro_markers st \<noteq> []
     \<or> issue_repro_required_tokens st \<noteq> [] \<or> issue_repro_assets st \<noteq> [] \<or> issue_repro_fail_signals st \<noteq> []
     \<or> issue_repro_need_roundtrip st \<or> issue_repro_need_casefold st"

definition command_matches_state_issue_repro :: "verify_env \<Rightarrow> agent_state \<Rightarrow> str \<Rightarrow> bool" where
  "command_matches_state_issue_repro ve st cmd \<longleftrightarrow> ve_met ve cmd (issue_repro_hints_dict st)"

definition repro_satisfied :: "agent_state \<Rightarrow> bool" where
  "repro_satisfied st \<longleftrightarrow> issue_repro_satisfied st \<and> issue_repro_edits_since st = 0"

definition arm_issue_repro_if_needed :: "verify_env \<Rightarrow> agent_state \<Rightarrow> str \<Rightarrow> dict \<Rightarrow> agent_state option" where
  "arm_issue_repro_if_needed ve st cmd result =
     (if repro_satisfied st \<or> issue_repro_receipt_sent st \<or> \<not> issue_repro_hints_present st
         \<or> command_matches_state_issue_repro ve st cmd then Some st
      else map_option (\<lambda>green. if green then st\<lparr>issue_repro_armed := True\<rparr> else st) (is_green_test_result result))"

definition note_issue_repro_from_command ::
  "verify_env \<Rightarrow> agent_state \<Rightarrow> str \<Rightarrow> dict \<Rightarrow> bool \<Rightarrow> agent_state option" where
  "note_issue_repro_from_command ve st cmd result allow_non_testish =
     (let st1 = (if issue_repro_hints_present st then st else ensure_issue_repro_hints ve st) in
      if \<not> issue_repro_hints_present st1 then Some st1
      else if command_matches_state_issue_repro ve st1 cmd
      then map_option (\<lambda>good. if good then st1\<lparr>issue_repro_satisfied := True, issue_repro_armed := False,
                issue_repro_edits_since := 0\<rparr> else st1)
             (is_clearing_repro_result result (issue_repro_fail_signals st1))
      else if \<not> allow_non_testish \<or> is_testish_command ve cmd then arm_issue_repro_if_needed ve st1 cmd result
      else Some st1)"

definition note_first_failure :: "agent_state \<Rightarrow> dict \<Rightarrow> agent_state" where
  "note_first_failure st result =
     (let own = (case dict_get result ''failure_feed'' of JStr s \<Rightarrow> strip s | _ \<Rightarrow> [])
      in if own \<noteq> [] then st\<lparr>last_test_first_failure := take 400 own\<rparr>
         else (case format_failure_feed (dict_get result ''test_summary'') of
             Some t \<Rightarrow> st\<lparr>last_test_first_failure := take 400 t\<rparr> | None \<Rightarrow> st))"

section \<open>Related tests\<close>

definition rel_test_path :: "str \<Rightarrow> str" where
  "rel_test_path p = lstrip_chars [CHR ''.'', CHR ''/''] (replace_char backslash (CHR ''/'') p)"

definition pytest_command_for :: "str \<Rightarrow> str" where
  "pytest_command_for path = ''python -m pytest '' @ rel_test_path path @ '' -x -q''"

definition RELATED_CAP :: nat where
  "RELATED_CAP = 5"

text \<open>Path and command of an item, None for one that is neither a record nor a text.\<close>

definition related_entry :: "json \<Rightarrow> (str \<times> str) option" where
  "related_entry item = (case item of
      JObj d \<Rightarrow> Some (rel_test_path (str_field d ''path''), strip (str_field d ''command''))
    | JStr s \<Rightarrow> if strip s = [] then None else Some (rel_test_path s, [])
    | _ \<Rightarrow> None)"

fun merge_related :: "(str \<times> str) list \<Rightarrow> str list \<Rightarrow> json list \<Rightarrow> (str \<times> str) list" where
  "merge_related existing seen [] = existing"
| "merge_related existing seen (item # items) =
     (case related_entry item of
        None \<Rightarrow> if length existing \<ge> RELATED_CAP then existing else merge_related existing seen items
      | Some (path, cmd) \<Rightarrow>
          if path = [] \<or> path \<in> set seen then merge_related existing seen items
          else (let rows = existing @ [(path, if cmd = [] then pytest_command_for path else cmd)] in
                if length rows \<ge> RELATED_CAP then rows else merge_related rows (path # seen) items))"

definition related_test_paths :: "(str \<times> str) list \<Rightarrow> str list" where
  "related_test_paths rows = map (rel_test_path \<circ> fst) (filter (\<lambda>(p, c). strip p \<noteq> []) rows)"

definition note_related :: "agent_state \<Rightarrow> json list \<Rightarrow> agent_state" where
  "note_related st items = st\<lparr>related_tests_union := take RELATED_CAP
     (merge_related (related_tests_union st) (related_test_paths (related_tests_union st)) items)\<rparr>"

section \<open>One tool result\<close>

definition result_command :: "dict \<Rightarrow> json \<Rightarrow> str" where
  "result_command result arguments = strip (py_str (py_or (py_or (dict_get result ''command'')
     (dict_get (as_dict arguments) ''command'')) (JStr [])))"

definition note_edit :: "verify_env \<Rightarrow> agent_state \<Rightarrow> dict \<Rightarrow> agent_state" where
  "note_edit ve st result =
     (let reason = (\<lambda>k. dict_get (as_dict (dict_get result k)) ''reason'') in
      if reason ''impact'' = JStr ''non_code_path'' \<or> reason ''checks'' = JStr ''non_code_path'' then st
      else (let st1 = st\<lparr>code_edits_since_verify := code_edits_since_verify st + 1, verify_pending := True\<rparr>;
                st2 = (case dict_get result ''related_tests'' of JList xs \<Rightarrow> if xs = [] then st1 else note_related st1 xs
                       | _ \<Rightarrow> st1);
                st3 = ensure_issue_repro_hints ve st2
            in st3\<lparr>issue_repro_satisfied := False, issue_repro_edits_since := issue_repro_edits_since st3 + 1\<rparr>))"

definition note_run_tests :: "verify_env \<Rightarrow> agent_state \<Rightarrow> dict \<Rightarrow> json \<Rightarrow> agent_state option" where
  "note_run_tests ve st result arguments =
     (let status = dict_get result ''status''; cmd = result_command result arguments in
      if status = JStr ''rejected'' \<or> dict_get result ''error'' = JStr ''test_command_not_allowed'' then Some st
      else map_option (\<lambda>st1. note_first_failure
             (if cmd \<noteq> [] \<and> status \<notin> {JStr ''passed'', JStr ''executed''}
              then st1\<lparr>last_repro_command := take 500 cmd\<rparr> else st1) result)
           (note_issue_repro_from_command ve (st\<lparr>verify_pending := False\<rparr>) cmd result False))"

definition note_run_command :: "verify_env \<Rightarrow> agent_state \<Rightarrow> dict \<Rightarrow> json \<Rightarrow> agent_state option" where
  "note_run_command ve st result arguments =
     (let status = dict_get result ''status''; cmd = result_command result arguments in
      case (if cmd = [] then Some st else note_issue_repro_from_command ve st cmd result True) of
        None \<Rightarrow> None
      | Some st1 \<Rightarrow>
          if \<not> is_testish_command ve cmd then Some st1
          else (let st2 = st1\<lparr>verify_pending := False\<rparr>;
                    bad = (if status \<notin> {JStr ''executed'', JStr ''passed''} then Some True
                       else map_option (\<lambda>n. n \<noteq> 0) (py_int (py_or (dict_get result ''exit_code'') (JInt 1))))
                in (case bad of None \<Rightarrow> None
                  | Some b \<Rightarrow> arm_issue_repro_if_needed ve
                      (note_first_failure (if b then st2\<lparr>last_repro_command := take 500 cmd\<rparr> else st2) result) cmd result)))"

definition note_tool_result_for_verify ::
  "verify_env \<Rightarrow> str \<Rightarrow> dict \<Rightarrow> json \<Rightarrow> agent_state \<Rightarrow> agent_state option" where
  "note_tool_result_for_verify ve tool_name result arguments st =
     (if tool_name \<in> {''draft_section'', ''propose_patch'', ''apply_patch'', ''evaluate_writing_fragment''}
      then Some (note_writing_signals st result)
      else if tool_name = ''edit_file'' \<and> dict_get result ''status'' = JStr ''edited'' then Some (note_edit ve st result)
      else if tool_name = ''run_tests'' then note_run_tests ve st result arguments
      else if tool_name = ''run_command'' then note_run_command ve st result arguments
      else Some st)"

section \<open>At the final edge\<close>

definition remaining_steps :: "agent_state \<Rightarrow> int" where
  "remaining_steps st = max_steps (core st) - step_count (core st)"

definition classic_due :: "agent_state \<Rightarrow> bool" where
  "classic_due st \<longleftrightarrow> verify_pending st \<and> code_edits_since_verify st \<ge> 1 \<and> \<not> verify_receipt_sent st"

text \<open>The part of the function after the issue receipt returns False on every path.\<close>

definition should_inject_verify_receipt :: "agent_state \<Rightarrow> int \<Rightarrow> bool" where
  "should_inject_verify_receipt st reserve_steps \<longleftrightarrow>
     \<not> cancelled (core st) \<and> \<not> budget_exceeded st \<and> remaining_steps st \<ge> max 1 reserve_steps
     \<and> (classic_due st
        \<or> (issue_repro_armed st \<and> \<not> repro_satisfied st \<and> \<not> issue_repro_receipt_sent st \<and> issue_repro_hints_present st))"

definition verify_receipt_kind :: "agent_state \<Rightarrow> str" where
  "verify_receipt_kind st =
     (if issue_repro_armed st \<and> \<not> repro_satisfied st \<and> \<not> issue_repro_receipt_sent st
         \<and> \<not> (verify_pending st \<and> \<not> verify_receipt_sent st) then ''issue_repro''
      else if verify_pending st \<and> \<not> verify_receipt_sent st then ''classic''
      else if staccato_pending st \<and> \<not> staccato_receipt_sent st then ''staccato''
      else if hinge_pending st \<and> \<not> hinge_receipt_sent st then ''hinge''
      else if opening_pending st \<and> \<not> opening_receipt_sent st then ''opening''
      else if lore_pending st \<and> \<not> lore_receipt_sent st then ''lore''
      else ''classic'')"

definition clear_writing_pending :: "agent_state \<Rightarrow> agent_state" where
  "clear_writing_pending st =
     st\<lparr>staccato_pending := False, hinge_pending := False, lore_pending := False, opening_pending := False\<rparr>"

definition mark_verify_receipt_injected :: "agent_state \<Rightarrow> str \<times> agent_state" where
  "mark_verify_receipt_injected st =
     (let kind = verify_receipt_kind st in (kind,
        if kind = ''issue_repro'' then st\<lparr>issue_repro_receipt_sent := True, issue_repro_armed := False\<rparr>
        else if kind = ''staccato'' then clear_writing_pending (st\<lparr>staccato_receipt_sent := True\<rparr>)
        else if kind = ''hinge'' then clear_writing_pending (st\<lparr>hinge_receipt_sent := True\<rparr>)
        else if kind = ''opening'' then clear_writing_pending (st\<lparr>opening_receipt_sent := True\<rparr>)
        else if kind = ''lore'' then clear_writing_pending (st\<lparr>lore_receipt_sent := True\<rparr>)
        else st\<lparr>verify_receipt_sent := True\<rparr>))"

definition verification_outcome :: "agent_state \<Rightarrow> str" where
  "verification_outcome st =
     (let failure = strip (last_test_first_failure st) in
      if code_edits_since_verify st \<le> 0 \<and> \<not> verify_pending st \<and> failure = [] then ''not_applicable''
      else if verify_pending st then ''unverified''
      else if failure \<noteq> [] then ''failed'' else ''verified'')"

definition should_inject_writing_delivery_hold :: "verify_env \<Rightarrow> agent_state \<Rightarrow> bool" where
  "should_inject_writing_delivery_hold ve st \<longleftrightarrow>
     \<not> cancelled (core st) \<and> \<not> budget_exceeded st \<and> \<not> writing_delivery_hold_sent st
     \<and> scenario_id (core st) = ''writing'' \<and> remaining_steps st \<ge> 1 \<and> \<not> ve_suppress ve \<and> ve_blockers ve"

definition mark_writing_delivery_hold_injected :: "agent_state \<Rightarrow> agent_state" where
  "mark_writing_delivery_hold_injected st = st\<lparr>writing_delivery_hold_sent := True\<rparr>"

section \<open>The debt\<close>

text \<open>Results that open the debt and results that close it.\<close>

definition opens_debt :: "str \<Rightarrow> dict \<Rightarrow> bool" where
  "opens_debt tool_name result \<longleftrightarrow> tool_name = ''edit_file'' \<and> dict_get result ''status'' = JStr ''edited''
     \<and> dict_get (as_dict (dict_get result ''impact'')) ''reason'' \<noteq> JStr ''non_code_path''
     \<and> dict_get (as_dict (dict_get result ''checks'')) ''reason'' \<noteq> JStr ''non_code_path''"

definition closes_debt :: "verify_env \<Rightarrow> str \<Rightarrow> dict \<Rightarrow> json \<Rightarrow> bool" where
  "closes_debt ve tool_name result arguments \<longleftrightarrow>
     (tool_name = ''run_tests'' \<and> dict_get result ''status'' \<noteq> JStr ''rejected''
        \<and> dict_get result ''error'' \<noteq> JStr ''test_command_not_allowed'')
     \<or> (tool_name = ''run_command'' \<and> is_testish_command ve (result_command result arguments))"

text \<open>The debt, the receipts and the core, which most updates leave alone.\<close>

definition debt :: "agent_state \<Rightarrow> bool \<times> int \<times> bool \<times> bool \<times> turn_state" where
  "debt st = (verify_pending st, code_edits_since_verify st, verify_receipt_sent st, issue_repro_receipt_sent st, core st)"

lemma hints_debt: "debt (ensure_issue_repro_hints ve st) = debt st"
  by (simp add: ensure_issue_repro_hints_def debt_def Let_def)

lemma arm_debt: "arm_issue_repro_if_needed ve st cmd r = Some st' \<Longrightarrow> debt st' = debt st"
  by (auto simp: arm_issue_repro_if_needed_def debt_def split: if_splits)

lemma repro_debt:
  assumes "note_issue_repro_from_command ve st cmd r b = Some st'"
  shows "debt st' = debt st"
proof -
  let ?s = "if issue_repro_hints_present st then st else ensure_issue_repro_hints ve st"
  have s: "debt ?s = debt st" by (simp add: hints_debt)
  have "debt st' = debt ?s"
    using assms by (auto simp: note_issue_repro_from_command_def Let_def debt_def
        dest!: arm_debt split: if_splits)
  with s show ?thesis by simp
qed

lemma failure_debt: "debt (note_first_failure st r) = debt st"
  by (simp add: note_first_failure_def Let_def debt_def split: json.split option.split)

lemma edit_debt:
  "debt (note_edit ve st r) = (if opens_debt ''edit_file'' r \<or> dict_get r ''status'' \<noteq> JStr ''edited''
       \<and> dict_get (as_dict (dict_get r ''impact'')) ''reason'' \<noteq> JStr ''non_code_path''
       \<and> dict_get (as_dict (dict_get r ''checks'')) ''reason'' \<noteq> JStr ''non_code_path''
     then (True, code_edits_since_verify st + 1, verify_receipt_sent st, issue_repro_receipt_sent st, core st) else debt st)"
  by (simp add: note_edit_def opens_debt_def Let_def debt_def ensure_issue_repro_hints_def note_related_def
      split: json.split)

lemma signals_debt: "debt (note_writing_signals st r) = debt st"
  by (simp add: note_writing_signals_def debt_def split: option.split prod.split)

lemma repro_note_debt: "debt (st\<lparr>last_repro_command := c\<rparr>) = debt st"
  by (simp add: debt_def)

lemma run_tests_debt:
  assumes "note_run_tests ve st r a = Some st'"
  shows "debt st' = (verify_pending st \<and> \<not> closes_debt ve ''run_tests'' r a, snd (debt st))"
proof (cases "closes_debt ve ''run_tests'' r a")
  case True
  with assms have "\<exists>st1. note_issue_repro_from_command ve (st\<lparr>verify_pending := False\<rparr>) (result_command r a) r False = Some st1
      \<and> debt st' = debt st1"
    by (auto simp: note_run_tests_def closes_debt_def Let_def failure_debt repro_note_debt split: if_splits)
  with True show ?thesis by (auto dest!: repro_debt simp: debt_def)
next
  case False
  with assms show ?thesis by (auto simp: note_run_tests_def closes_debt_def debt_def)
qed

lemma run_command_debt:
  assumes "note_run_command ve st r a = Some st'"
  shows "debt st' = (verify_pending st \<and> \<not> closes_debt ve ''run_command'' r a, snd (debt st))"
proof -
  let ?cmd = "result_command r a"
  obtain st1 where s1: "(if ?cmd = [] then Some st else note_issue_repro_from_command ve st ?cmd r True) = Some st1"
    using assms by (auto simp: note_run_command_def Let_def split: option.splits if_splits)
  have d1: "debt st1 = debt st" using s1 by (auto dest: repro_debt split: if_splits)
  show ?thesis
  proof (cases "is_testish_command ve ?cmd")
    case False
    with assms s1 d1 show ?thesis by (auto simp: note_run_command_def Let_def closes_debt_def debt_def split: if_splits)
  next
    case True
    define bad where "bad = (if dict_get r ''status'' \<notin> {JStr ''executed'', JStr ''passed''} then Some True
       else map_option (\<lambda>n. n \<noteq> 0) (py_int (py_or (dict_get r ''exit_code'') (JInt 1))))"
    define st3 where "st3 = (if bad = Some True then st1\<lparr>verify_pending := False, last_repro_command := take 500 ?cmd\<rparr>
       else st1\<lparr>verify_pending := False\<rparr>)"
    note eq = assms [unfolded note_run_command_def Let_def s1, folded bad_def]
    have "arm_issue_repro_if_needed ve (note_first_failure st3 r) ?cmd r = Some st'"
      using eq True by (cases bad) (simp_all add: st3_def)
    then have "debt st' = debt st3"
      using arm_debt failure_debt by metis
    moreover have "debt st3 = (False, snd (debt st1))"
      by (simp add: st3_def debt_def)
    ultimately have "debt st' = (False, snd (debt st))" using d1 by simp
    with True show ?thesis by (simp add: closes_debt_def)
  qed
qed

lemma edit_debt_edited:
  "dict_get r ''status'' = JStr ''edited'' \<Longrightarrow> debt (note_edit ve st r) =
     (if opens_debt ''edit_file'' r
      then (True, code_edits_since_verify st + 1, verify_receipt_sent st, issue_repro_receipt_sent st, core st) else debt st)"
  by (simp add: edit_debt)

lemma note_debt:
  assumes "note_tool_result_for_verify ve n r a st = Some st'"
  shows "debt st' = (if opens_debt n r
     then (True, code_edits_since_verify st + 1, verify_receipt_sent st, issue_repro_receipt_sent st, core st)
     else (verify_pending st \<and> \<not> closes_debt ve n r a, snd (debt st)))"
proof -
  consider (prose) "n \<in> {''draft_section'', ''propose_patch'', ''apply_patch'', ''evaluate_writing_fragment''}"
    | (edit) "n = ''edit_file''" "dict_get r ''status'' = JStr ''edited''"
    | (tests) "n = ''run_tests''" | (command) "n = ''run_command''"
    | (other) "n \<notin> {''draft_section'', ''propose_patch'', ''apply_patch'', ''evaluate_writing_fragment''}"
        "n \<noteq> ''run_tests''" "n \<noteq> ''run_command''" "\<not> (n = ''edit_file'' \<and> dict_get r ''status'' = JStr ''edited'')"
    by argo
  then show ?thesis
  proof cases
    case prose
    with assms have "st' = note_writing_signals st r" by (simp add: note_tool_result_for_verify_def)
    moreover have "\<not> opens_debt n r" "\<not> closes_debt ve n r a" using prose by (auto simp: opens_debt_def closes_debt_def)
    ultimately show ?thesis by (simp add: signals_debt) (simp add: debt_def)
  next
    case edit
    with assms have "st' = note_edit ve st r" by (simp add: note_tool_result_for_verify_def)
    moreover have "\<not> closes_debt ve n r a" using edit by (simp add: closes_debt_def)
    ultimately show ?thesis using edit by (simp add: edit_debt_edited) (simp add: debt_def)
  next
    case tests
    with assms have "note_run_tests ve st r a = Some st'" by (simp add: note_tool_result_for_verify_def)
    from run_tests_debt [OF this] tests show ?thesis by (simp add: opens_debt_def)
  next
    case command
    with assms have "note_run_command ve st r a = Some st'" by (simp add: note_tool_result_for_verify_def)
    from run_command_debt [OF this] command show ?thesis by (simp add: opens_debt_def)
  next
    case other
    then have "st' = st" using assms by (auto simp: note_tool_result_for_verify_def)
    moreover have "\<not> opens_debt n r" "\<not> closes_debt ve n r a" using other by (auto simp: opens_debt_def closes_debt_def)
    ultimately show ?thesis by (simp add: debt_def)
  qed
qed

lemma note_core: "note_tool_result_for_verify ve n r a st = Some st' \<Longrightarrow> core st' = core st"
  using note_debt [of ve n r a st st'] by (auto simp: debt_def split: if_splits)

section \<open>Properties\<close>

fun note_results :: "verify_env \<Rightarrow> (str \<times> dict \<times> json) list \<Rightarrow> agent_state \<Rightarrow> agent_state option" where
  "note_results ve [] st = Some st"
| "note_results ve ((n, r, a) # rows) st =
     (case note_tool_result_for_verify ve n r a st of None \<Rightarrow> None | Some st1 \<Rightarrow> note_results ve rows st1)"

text \<open>What the debt should be: the last result that opens or closes it decides.\<close>

definition debt_owed :: "verify_env \<Rightarrow> bool \<Rightarrow> (str \<times> dict \<times> json) list \<Rightarrow> bool" where
  "debt_owed ve before rows =
     (case filter (\<lambda>(n, r, a). opens_debt n r \<or> closes_debt ve n r a) (rev rows) of
        [] \<Rightarrow> before | (n, r, a) # _ \<Rightarrow> opens_debt n r)"

lemma debt_owed_Cons:
  "debt_owed ve b ((n, r, a) # rows) =
     debt_owed ve (if opens_debt n r then True else if closes_debt ve n r a then False else b) rows"
  by (auto simp: debt_owed_def split: list.split)

lemma note_results_debt:
  "note_results ve rows st = Some st' \<Longrightarrow>
     verify_pending st' = debt_owed ve (verify_pending st) rows
     \<and> code_edits_since_verify st' = code_edits_since_verify st + int (length (filter (\<lambda>(n, r, a). opens_debt n r) rows))"
proof (induction ve rows st rule: note_results.induct)
  case (2 ve n r a rows st)
  then obtain st1 where st1: "note_tool_result_for_verify ve n r a st = Some st1" "note_results ve rows st1 = Some st'"
    by (auto split: option.splits)
  from note_debt [OF st1(1)] "2.IH" [OF st1] show ?case
    by (auto simp: debt_owed_Cons debt_def split: if_splits)
qed (simp add: debt_owed_def)

text \<open>Receipts that may still be injected.\<close>

definition receipts_left :: "agent_state \<Rightarrow> nat" where
  "receipts_left st = of_bool (\<not> verify_receipt_sent st) + of_bool (\<not> issue_repro_receipt_sent st)"

lemma mark_receipt:
  assumes "should_inject_verify_receipt st k"
  shows "fst (mark_verify_receipt_injected st) \<in> {''classic'', ''issue_repro''}
    \<and> receipts_left (snd (mark_verify_receipt_injected st)) + 1 = receipts_left st
    \<and> history (snd (mark_verify_receipt_injected st)) = history st"
proof (cases "verify_pending st \<and> \<not> verify_receipt_sent st")
  case True
  then have "verify_receipt_kind st = ''classic''" by (simp add: verify_receipt_kind_def)
  with True show ?thesis by (simp add: mark_verify_receipt_injected_def Let_def receipts_left_def)
next
  case False
  with assms have "issue_repro_armed st" "\<not> repro_satisfied st" "\<not> issue_repro_receipt_sent st"
    by (auto simp: should_inject_verify_receipt_def classic_due_def)
  moreover from this False have "verify_receipt_kind st = ''issue_repro''" by (simp add: verify_receipt_kind_def)
  ultimately show ?thesis by (simp add: mark_verify_receipt_injected_def Let_def receipts_left_def)
qed

definition edited_state :: agent_state where
  "edited_state = (new_agent_state ''t'' ''s'' ''r'' ''c'' ''agent'')
     \<lparr>verify_pending := True, code_edits_since_verify := 1\<rparr>"

definition sample_verify :: verify_env where
  "sample_verify = \<lparr>ve_hints = [], ve_met = (\<lambda>c h. False), ve_declared = [], ve_blockers = False, ve_suppress = False\<rparr>"

text \<open>
  C23: over the results of a turn, in any order, the verification debt is what the last relevant
  result says: open when it was an edit of code, closed when it was a test command, unchanged
  when there was none; and the edits are counted.
\<close>

theorem debt_follows_last_result:
  assumes "note_results ve rows st = Some st'"
  shows "verify_pending st' = debt_owed ve (verify_pending st) rows
    \<and> code_edits_since_verify st' = code_edits_since_verify st + int (length (filter (\<lambda>(n, r, a). opens_debt n r) rows))"
  using assms by (rule note_results_debt)

theorem debt_follows_last_result_witness:
  "verify_pending (the (note_results sample_verify
      [(''run_tests'', [(''status'', JStr ''passed'')], JObj []), (''edit_file'', [(''status'', JStr ''edited'')], JObj [])]
      (new_agent_state ''t'' ''s'' ''r'' ''c'' ''agent'')))"
proof -
  let ?rows = "[(''run_tests'', [(''status'', JStr ''passed'')], JObj []), (''edit_file'', [(''status'', JStr ''edited'')], JObj [])]"
  let ?st = "new_agent_state ''t'' ''s'' ''r'' ''c'' ''agent''"
  have "note_results sample_verify ?rows ?st \<noteq> None"
    by code_simp
  then obtain st' where st: "note_results sample_verify ?rows ?st = Some st'" by blast
  from debt_follows_last_result [OF st] have "verify_pending st'"
    by (simp add: debt_owed_def opens_debt_def)
  with st show ?thesis by simp
qed

text \<open>
  A receipt that is injected is the classic one or the one on the reported issue, never one
  of the four prose receipts the module describes, and each kind is injected once: at most two
  in a turn.
\<close>

theorem receipts_are_coding_and_once:
  assumes "should_inject_verify_receipt st k"
  shows "fst (mark_verify_receipt_injected st) \<in> {''classic'', ''issue_repro''}
    \<and> receipts_left (snd (mark_verify_receipt_injected st)) + 1 = receipts_left st \<and> receipts_left st \<le> 2"
  using mark_receipt [OF assms] by (simp add: receipts_left_def)

theorem receipts_are_coding_and_once_witness:
  "receipts_left (snd (mark_verify_receipt_injected edited_state)) = 1"
proof -
  have "should_inject_verify_receipt edited_state 10"
    by (simp add: should_inject_verify_receipt_def edited_state_def new_agent_state_def new_turn_state_def
        remaining_steps_def classic_due_def)
  from receipts_are_coding_and_once [OF this] show ?thesis
    by (simp add: receipts_left_def edited_state_def new_agent_state_def)
qed

text \<open>
  A failure once noted is never taken back. After a later test run that passed, the outcome
  of the turn is still reported as failed.
\<close>

theorem passing_run_keeps_failed:
  assumes "strip (last_test_first_failure st) \<noteq> []"
    and "note_tool_result_for_verify ve ''run_tests'' r a st = Some st'"
    and "dict_get r ''status'' = JStr ''passed''" and "dict_get r ''error'' = JNull"
    and "dict_get r ''failure_feed'' = JNull" and "format_failure_feed (dict_get r ''test_summary'') = None"
  shows "verification_outcome st' = ''failed''"
proof -
  obtain st1 where st1: "note_issue_repro_from_command ve (st\<lparr>verify_pending := False\<rparr>) (result_command r a) r False = Some st1"
    and out: "st' = note_first_failure st1 r"
    using assms(2-4) by (auto simp: note_tool_result_for_verify_def note_run_tests_def Let_def)
  have "last_test_first_failure st1 = last_test_first_failure st \<and> \<not> verify_pending st1"
    using st1 by (auto simp: note_issue_repro_from_command_def arm_issue_repro_if_needed_def
        ensure_issue_repro_hints_def Let_def split: if_splits)
  moreover have "st' = st1"
    using out assms(5,6) by (simp add: note_first_failure_def)
  ultimately show ?thesis using assms(1) by (simp add: verification_outcome_def Let_def)
qed

definition passed_result :: dict where
  "passed_result = [(''command'', JStr ''pytest''), (''status'', JStr ''passed''), (''exit_code'', JInt 0),
     (''test_summary'', JObj [(''passed'', JInt 3), (''failed'', JInt 0)])]"

theorem passing_run_keeps_failed_witness:
  "let st = edited_state\<lparr>last_test_first_failure := ''First failing test: test_a''\<rparr> in
     verification_outcome (the (note_tool_result_for_verify sample_verify ''run_tests'' passed_result (JObj []) st)) = ''failed''"
proof -
  let ?st = "edited_state\<lparr>last_test_first_failure := ''First failing test: test_a''\<rparr>"
  have "note_tool_result_for_verify sample_verify ''run_tests'' passed_result (JObj []) ?st \<noteq> None"
    by code_simp
  then obtain st' where st: "note_tool_result_for_verify sample_verify ''run_tests'' passed_result (JObj []) ?st = Some st'"
    by blast
  have "strip (last_test_first_failure ?st) \<noteq> []" by (simp add: py_string)
  from passing_run_keeps_failed [OF this st] st show ?thesis
    by (simp add: passed_result_def format_failure_feed_def)
qed

text \<open>A test command that ended with code 0 is noted as the command to reproduce a failure with.\<close>

lemma passed_command_is_repro:
  "last_repro_command (the (note_tool_result_for_verify sample_verify ''run_command''
     [(''command'', JStr ''pytest -q''), (''status'', JStr ''executed''), (''exit_code'', JInt 0)] (JObj []) edited_state))
     = ''pytest -q''"
  by code_simp

end
