(* ===== verification/WorkPath.thy ===== *)
theory WorkPath
  imports PyValue CommandAllowlist
begin

text \<open>
  Paths under the Work root: \<open>tools/core/paths.py\<close> (normalisation, the seed corpus, the
  \<open>.git\<close> block, executable configuration) and the path half of \<open>policy/snapshot.py\<close>
  (argument canonicalisation, the escape check, the snapshot before a write).

  A POSIX path is its list of components. The file system is a parameter: what
  \<open>Path.resolve\<close> makes of an absolute component list (None is OSError) and what reading
  the file gives. \<open>fs_root\<close> is the resolved Work root of the call, None when
  \<open>current_work_root()\<close> raises.
\<close>

datatype file_content = RegularFile str | OtherFile | AbsentFile | ReadFails

record filesystem =
  fs_root :: "str list option"
  fs_cwd :: "str list"
  fs_resolve :: "str list \<Rightarrow> str list option"
  fs_read :: "str list \<Rightarrow> file_content"
  fs_decode :: "str \<Rightarrow> str option"
  fs_base64 :: "str \<Rightarrow> str"
  fs_preimage :: "str \<Rightarrow> str \<Rightarrow> str"

section \<open>pathlib\<close>

definition is_absolute :: "str \<Rightarrow> bool" where
  "is_absolute raw \<longleftrightarrow> starts_with raw ''/''"

definition path_parts :: "str \<Rightarrow> str list" where
  "path_parts raw = filter (\<lambda>c. c \<noteq> [] \<and> c \<noteq> ''.'') (split_on (CHR ''/'') raw)"

text \<open>\<open>candidate if candidate.is_absolute() else root / candidate\<close>\<close>

definition path_under :: "str list \<Rightarrow> str \<Rightarrow> str list" where
  "path_under root raw = (if is_absolute raw then path_parts raw else root @ path_parts raw)"

definition path_str :: "str list \<Rightarrow> str" where
  "path_str parts = ''/'' @ join ''/'' parts"

text \<open>\<open>p.relative_to(root)\<close>: None is ValueError.\<close>

definition relative_to :: "str list \<Rightarrow> str list \<Rightarrow> str list option" where
  "relative_to p root = (if prefix root p then Some (drop (length root) p) else None)"

section \<open>tools/core/paths.py\<close>

definition normalized_workspace_rel :: "str \<Rightarrow> str" where
  "normalized_workspace_rel rel_path =
     replace_char backslash (CHR ''/'') (lstrip_chars ''/'' (strip rel_path))"

definition is_seed_corpus_path :: "str \<Rightarrow> bool" where
  "is_seed_corpus_path rel_path =
     (let normalized = normalized_workspace_rel rel_path
      in normalized = ''sources/seed'' \<or> starts_with normalized ''sources/seed/'')"

datatype path_error = SeedCorpusDisabled | PathOutsideWorkspace

text \<open>
  \<open>_resolve_path\<close>: \<open>root\<close> is the resolved Work root and \<open>deploy_root\<close> the resolved
  deployment workspace. \<open>resolve\<close> is taken total here, as the function does not catch
  OSError.
\<close>

definition resolve_path ::
  "(str list \<Rightarrow> str list) \<Rightarrow> str list \<Rightarrow> str list \<Rightarrow> bool \<Rightarrow> str \<Rightarrow> path_error + str list" where
  "resolve_path resolve root deploy_root visibility_seed rel_path =
     (let seed = is_seed_corpus_path rel_path in
      if seed \<and> \<not> visibility_seed then Inl SeedCorpusDisabled
      else let base = (if seed then deploy_root else root);
               target = resolve (path_under base rel_path)
           in case relative_to target base of
                None \<Rightarrow> Inl PathOutsideWorkspace
              | Some _ \<Rightarrow> Inr target)"

text \<open>The rejection payload is always the same; only whether it is returned matters.\<close>

definition write_path_block :: "str \<Rightarrow> bool" where
  "write_path_block rel_path =
     (let normalized = normalized_workspace_rel rel_path
      in normalized = ''.git'' \<or> starts_with normalized ''.git/'')"

definition is_exec_config_path :: "str \<Rightarrow> bool" where
  "is_exec_config_path rel_path =
     (let normalized = normalized_workspace_rel rel_path in
      if normalized = ''.vscode/tasks.json'' \<or> normalized = ''package.json'' then True
      else starts_with normalized ''.github/workflows/'' \<or> starts_with normalized ''.husky/'')"

section \<open>policy/snapshot.py\<close>

definition canonical_path :: "filesystem \<Rightarrow> str \<Rightarrow> str option" where
  "canonical_path fs raw = (case fs_root fs of
      None \<Rightarrow> None
    | Some root \<Rightarrow> map_option path_str (fs_resolve fs (path_under root raw)))"

definition canonical_key :: "filesystem \<Rightarrow> dict \<Rightarrow> str \<Rightarrow> dict" where
  "canonical_key fs out key = (case dict_get out key of
      JStr raw \<Rightarrow>
        if strip raw = [] then out
        else (case canonical_path fs raw of
                Some resolved \<Rightarrow> if resolved = [] then out else dict_set out key (JStr resolved)
              | None \<Rightarrow> out)
    | _ \<Rightarrow> out)"

definition canonicalize_arguments :: "filesystem \<Rightarrow> dict \<Rightarrow> dict" where
  "canonicalize_arguments fs arguments =
     (let out = canonical_key fs (canonical_key fs arguments ''path'') ''file_path'' in
      case dict_get out ''command'' of
        JStr command \<Rightarrow>
          if strip command = [] then out
          else (case command_argv command of
                  Some argv \<Rightarrow> dict_set out ''command'' (JStr (join '' '' argv))
                | None \<Rightarrow> out)
      | _ \<Rightarrow> out)"

definition path_escapes :: "filesystem \<Rightarrow> dict \<Rightarrow> bool" where
  "path_escapes fs arguments =
     (case py_or (dict_get arguments ''path'') (dict_get arguments ''file_path'') of
        JStr raw \<Rightarrow>
          if strip raw = [] then False
          else (case fs_root fs of
                  None \<Rightarrow> False
                | Some root \<Rightarrow>
                    (case fs_resolve fs (path_under root raw) of
                       None \<Rightarrow> True
                     | Some resolved \<Rightarrow> relative_to resolved root = None))
      | _ \<Rightarrow> False)"

text \<open>
  \<open>take_snapshot\<close> over the two state fields it writes: the map of saved files and the
  shadow revision. \<open>fs_preimage rel turn\<close> is the revision \<open>snapshot_preimage\<close> returns,
  empty when it fails. Python's \<open>setdefault\<close> keeps the first snapshot of a path.
\<close>

definition set_default :: "(str \<times> json) list \<Rightarrow> str \<Rightarrow> json \<Rightarrow> (str \<times> json) list" where
  "set_default d k v = (if map_of d k = None then d @ [(k, v)] else d)"

definition stored_bytes :: "filesystem \<Rightarrow> str \<Rightarrow> json" where
  "stored_bytes fs old = (case fs_decode fs old of
      Some txt \<Rightarrow> JStr txt
    | None \<Rightarrow> JObj [(''b64'', JStr (fs_base64 fs old))])"

definition take_snapshot ::
  "filesystem \<Rightarrow> str \<Rightarrow> (str \<times> json) list \<times> str \<Rightarrow> dict \<Rightarrow> bool \<times> (str \<times> json) list \<times> str"
where
  "take_snapshot fs turn_id snaps arguments =
     (case dict_get arguments ''path'' of
        JStr raw \<Rightarrow>
          if strip raw = [] then (True, snaps)
          else (case fs_root fs of
                  None \<Rightarrow> (False, snaps)
                | Some root \<Rightarrow>
                    (case fs_resolve fs (path_under root raw) of
                       None \<Rightarrow> (False, snaps)
                     | Some resolved \<Rightarrow>
                         (case relative_to resolved root of
                            None \<Rightarrow> (False, snaps)
                          | Some rel \<Rightarrow>
                              let keep = (\<lambda>old. (True,
                                    set_default (fst snaps) (path_str resolved) (stored_bytes fs old),
                                    (let rev = fs_preimage fs (join ''/'' rel) turn_id
                                     in if rev \<noteq> [] then rev else snd snaps)))
                              in (case fs_read fs resolved of
                                    RegularFile old \<Rightarrow> keep old
                                  | AbsentFile \<Rightarrow> keep []
                                  | OtherFile \<Rightarrow> (False, snaps)
                                  | ReadFails \<Rightarrow> (False, snaps)))))
      | _ \<Rightarrow> (True, snaps))"

section \<open>Facts\<close>

lemma relative_to_Some: "relative_to p root = Some rel \<longleftrightarrow> p = root @ rel"
  by (auto simp: relative_to_def prefix_def)

text \<open>\<open>resolve_path\<close> only ever returns a path inside the root it used.\<close>

lemma resolve_path_inside:
  assumes "resolve_path resolve root deploy seed rel = Inr target"
  shows "prefix (if is_seed_corpus_path rel then deploy else root) target"
  using assms by (auto simp: resolve_path_def relative_to_def Let_def split: if_splits option.splits)

lemma split_on_nonempty [simp]: "split_on sep s \<noteq> []"
  by (induction sep s rule: split_on.induct) (auto split: list.splits)

lemma split_on_no_sep: "w \<in> set (split_on sep s) \<Longrightarrow> sep \<notin> set w"
proof (induction sep s arbitrary: w rule: split_on.induct)
  case (2 sep c cs)
  show ?case
  proof (cases "c = sep")
    case True
    with 2 show ?thesis by auto
  next
    case False
    obtain v vs where "split_on sep cs = v # vs" by (cases "split_on sep cs") auto
    with 2 False show ?thesis by auto
  qed
qed simp

lemma split_on_word: "sep \<notin> set w \<Longrightarrow> split_on sep w = [w]"
  by (induction w) auto

lemma split_on_join_Cons: "sep \<notin> set w \<Longrightarrow> split_on sep (w @ sep # s) = w # split_on sep s"
  by (induction w) auto

lemma split_on_join:
  "ws \<noteq> [] \<Longrightarrow> \<forall>w \<in> set ws. sep \<notin> set w \<Longrightarrow> split_on sep (join [sep] ws) = ws"
proof (induction "[sep]" ws rule: join.induct)
  case (3 w v ws)
  then show ?case by (simp add: split_on_join_Cons)
qed (auto simp: split_on_word)

text \<open>A path component as \<open>resolve\<close> yields them.\<close>

definition proper_part :: "str \<Rightarrow> bool" where
  "proper_part c \<longleftrightarrow> c \<noteq> [] \<and> c \<noteq> ''.'' \<and> CHR ''/'' \<notin> set c"

lemma path_parts_str: "\<forall>c \<in> set parts. proper_part c \<Longrightarrow> path_parts (path_str parts) = parts"
proof (cases "parts = []")
  case True
  then show ?thesis by (simp add: path_parts_def path_str_def)
next
  case False
  assume "\<forall>c \<in> set parts. proper_part c"
  with False show ?thesis
    by (simp add: path_parts_def path_str_def split_on_join proper_part_def)
qed

lemma canonical_path_absolute: "canonical_path fs raw = Some p \<Longrightarrow> is_absolute p"
  by (auto simp: canonical_path_def path_str_def is_absolute_def starts_with_def split: option.splits)

section \<open>A sample Work root\<close>

text \<open>Work root \<open>/ws\<close>, paths that resolve to themselves, no file on disk.\<close>

definition sample_fs :: filesystem where
  "sample_fs = \<lparr>fs_root = Some [''ws''], fs_cwd = [''ws''], fs_resolve = Some, fs_read = (\<lambda>_. AbsentFile),
     fs_decode = Some, fs_base64 = (\<lambda>s. s), fs_preimage = (\<lambda>_ _. ''r1'')\<rparr>"

end
