(* ===== verification/ScenarioPolicy.thy ===== *)
theory ScenarioPolicy
  imports PolicyMatrix WorkPath
begin

text \<open>
  \<open>services/runtime/app/policy/scenario_policy.py\<close>: what a scenario profile may add (command
  prefixes) and what it may only tighten (every other decision). The profile registry is a
  parameter: the \<open>security\<close> attribute of a scenario's profile, None when the lookup raises.
\<close>

type_synonym registry = "str \<Rightarrow> json option"

definition security :: "registry \<Rightarrow> str \<Rightarrow> dict" where
  "security reg sid = (if sid = [] then []
     else (case reg sid of Some (JObj d) \<Rightarrow> d | _ \<Rightarrow> []))"

definition scenario_version :: "registry \<Rightarrow> str \<Rightarrow> str" where
  "scenario_version reg sid = str_field (security reg sid) ''version''"

definition scenario_command_allowed :: "registry \<Rightarrow> str \<Rightarrow> str \<Rightarrow> bool" where
  "scenario_command_allowed reg sid command =
     (let prefixes = py_or (dict_get (security reg sid) ''commands'') (JList []);
          txt = strip command
      in case prefixes of
           JList ps \<Rightarrow> if txt = [] then False
                       else (\<exists>pre \<in> set ps. command_matches_prefix txt (py_str pre))
         | _ \<Rightarrow> False)"

definition scenario_network_hosts :: "registry \<Rightarrow> str \<Rightarrow> str list option" where
  "scenario_network_hosts reg sid =
     (case py_or (dict_get (security reg sid) ''network'') (JObj []) of
        JObj network \<Rightarrow>
          (case dict_get network ''hosts'' of
             JList hosts \<Rightarrow> Some (map (\<lambda>item. lower (strip (py_str item)))
                              (filter (\<lambda>item. strip (py_str item) \<noteq> []) hosts))
           | _ \<Rightarrow> None)
      | _ \<Rightarrow> None)"

definition scenario_detector_mode :: "registry \<Rightarrow> str \<Rightarrow> str" where
  "scenario_detector_mode reg sid =
     (case py_or (dict_get (security reg sid) ''detectors'') (JObj []) of
        JObj detectors \<Rightarrow>
          (let mode = lower (strip (str_field detectors ''injection''))
           in if mode \<in> {''observe'', ''enforce''} then mode else [])
      | _ \<Rightarrow> [])"

definition scenario_mode :: "registry \<Rightarrow> str \<Rightarrow> str" where
  "scenario_mode reg sid =
     (let mode = lower (strip (py_str (py_or (dict_get (security reg sid) ''mode'') (JStr ''observe''))))
      in if mode \<in> {''observe'', ''enforce''} then mode else ''observe'')"

definition structural_controls_hold :: "registry \<Rightarrow> str \<Rightarrow> bool" where
  "structural_controls_hold reg sid = (let _ = scenario_mode reg sid in True)"

text \<open>The text of one entry of \<open>paths\<close>, with and without the leading characters removed.\<close>

definition path_entry :: "json \<Rightarrow> str" where
  "path_entry item = replace_char backslash (CHR ''/'') (strip (py_str (py_or item (JStr []))))"

definition path_prefix_entry :: "json \<Rightarrow> str" where
  "path_prefix_entry item = lstrip_chars ''./'' (path_entry item)"

definition scenario_path_allowed :: "filesystem \<Rightarrow> registry \<Rightarrow> str \<Rightarrow> dict \<Rightarrow> bool" where
  "scenario_path_allowed fs reg sid args =
     (case dict_get (security reg sid) ''paths'' of
        JList raw \<Rightarrow>
          if raw = [] then True
          else if (\<exists>item \<in> set raw. path_entry item \<in> {[], ''.'', ''./''}) then True
          else let path = strip (py_str (py_or (py_or (dict_get args ''path'')
                            (dict_get args ''file_path'')) (JStr []))) in
          if path = [] then True
          else (case fs_root fs of
                  None \<Rightarrow> True
                | Some root \<Rightarrow>
                    (case fs_resolve fs (path_under (fs_cwd fs) path) of
                       None \<Rightarrow> False
                     | Some resolved \<Rightarrow>
                         (case relative_to resolved root of
                            None \<Rightarrow> False
                          | Some rel \<Rightarrow>
                              let rel_s = join ''/'' rel in
                              (\<exists>item \<in> set raw.
                                 let pre = path_prefix_entry item in
                                 pre \<in> {[], ''.''} \<or> rel_s = pre \<or> starts_with rel_s (pre @ ''/'')))))
      | _ \<Rightarrow> True)"

section \<open>The overlay\<close>

fun wanted_decision :: "str \<Rightarrow> decision option" where
  "wanted_decision w = (if w = ''require_approval'' then Some RequireApproval
     else if w = ''deny'' then Some Deny else None)"

definition memory_overlay :: "dict \<Rightarrow> str \<Rightarrow> decision \<Rightarrow> decision option" where
  "memory_overlay memory window decision =
     (let external = (if window = ''external'' then
            (let choice = lower (strip (py_str (py_or (dict_get memory ''external'') (JStr ''approval''))))
             in if choice = ''deny'' then Some Deny
                else if decision = Allow then Some RequireApproval else None)
          else None)
      in case external of
           Some d \<Rightarrow> Some d
         | None \<Rightarrow>
             if window = ''workspace'' then
               (let choice = lower (strip (py_str (py_or (dict_get memory ''workspace'') (JStr ''work''))))
                in if choice = ''deny'' then Some Deny
                   else if choice \<in> {''approval'', ''require_approval''} \<and> decision = Allow
                     then Some RequireApproval else None)
             else None)"

definition matrix_wanted :: "dict \<Rightarrow> str \<Rightarrow> str \<Rightarrow> str \<Rightarrow> str" where
  "matrix_wanted sec sink tool_name window =
     (case py_or (dict_get sec ''matrix'') (JObj []) of
        JObj matrix \<Rightarrow>
          (case py_or (py_or (dict_get matrix sink) (dict_get matrix tool_name)) (JObj []) of
             JObj row \<Rightarrow> py_str (py_or (py_or (dict_get row window) (dict_get row ''*'')) (JStr []))
           | JStr row \<Rightarrow> row
           | _ \<Rightarrow> [])
      | _ \<Rightarrow> [])"

definition apply_overlay :: "registry \<Rightarrow> decision \<Rightarrow> str \<Rightarrow> str \<Rightarrow> str \<Rightarrow> str \<Rightarrow> decision" where
  "apply_overlay reg decision sink sid tool_name window =
     (if \<not> structural_controls_hold reg sid then decision
      else if sink = ''S5'' \<or> decision = Deny then decision
      else let sec = security reg sid;
               memory = (if tool_name \<in> {''remember'', ''forget''} then
                   (case py_or (dict_get sec ''memory'') (JObj []) of
                      JObj m \<Rightarrow> memory_overlay m window decision
                    | _ \<Rightarrow> None)
                 else None)
           in case memory of
                Some d \<Rightarrow> d
              | None \<Rightarrow>
                  (case wanted_decision (matrix_wanted sec sink tool_name window) of
                     None \<Rightarrow> decision
                   | Some wanted \<Rightarrow> if severity wanted > severity decision then wanted else decision))"

lemma memory_overlay_tightens:
  "memory_overlay m w d = Some d' \<Longrightarrow> d \<le> d'"
  by (auto simp: memory_overlay_def Let_def split: if_splits option.splits)

lemma apply_overlay_tightens: "d \<le> apply_overlay reg d sink sid t w"
proof -
  define mem where "mem = (if t \<in> {''remember'', ''forget''} then
      (case py_or (dict_get (security reg sid) ''memory'') (JObj []) of
         JObj m \<Rightarrow> memory_overlay m w d | _ \<Rightarrow> None) else None)"
  define row where "row = wanted_decision (matrix_wanted (security reg sid) sink t w)"
  have mem_le: "d \<le> d'" if "mem = Some d'" for d'
    using that unfolding mem_def
    by (simp split: if_splits json.splits) (rule memory_overlay_tightens)
  have eq: "apply_overlay reg d sink sid t w =
     (if sink = ''S5'' \<or> d = Deny then d
      else case mem of Some d' \<Rightarrow> d'
        | None \<Rightarrow> (case row of None \<Rightarrow> d | Some wanted \<Rightarrow> if severity wanted > severity d then wanted else d))"
    unfolding apply_overlay_def mem_def row_def
    by (simp only: structural_controls_hold_def Let_def not_True_eq_False if_False)
  show ?thesis
    unfolding eq by (auto simp: less_eq_decision_def [of d] dest: mem_le split: option.splits)
qed

interpretation overlay: tightener "\<lambda>d. apply_overlay reg d sink sid t w" for reg sink sid t w
  by unfold_locales (rule apply_overlay_tightens)

lemma overlay_S5: "apply_overlay reg d ''S5'' sid t w = d"
  by (simp add: apply_overlay_def)

section \<open>Properties\<close>

text \<open>
  A profile's \<open>paths\<close> list can only shrink the Work root. When a scenario confines its
  paths and the call names one, an allowed path resolves to a place inside the Work root
  whose relative name is, or lies under, one of the listed entries.
\<close>

theorem scenario_paths_shrink_root:
  assumes "scenario_path_allowed fs reg sid args"
    and "dict_get (security reg sid) ''paths'' = JList raw" "raw \<noteq> []"
    and "\<forall>item \<in> set raw. path_prefix_entry item \<notin> {[], ''.''}"
    and "\<forall>item \<in> set raw. path_entry item \<notin> {[], ''.'', ''./''}"
    and "path = strip (py_str (py_or (py_or (dict_get args ''path'') (dict_get args ''file_path'')) (JStr [])))"
    and "path \<noteq> []" and "fs_root fs = Some root"
  shows "\<exists>rel item. fs_resolve fs (path_under (fs_cwd fs) path) = Some (root @ rel) \<and> item \<in> set raw
     \<and> (join ''/'' rel = path_prefix_entry item \<or> prefix (path_prefix_entry item @ ''/'') (join ''/'' rel))"
proof -
  have "\<not> (\<exists>item \<in> set raw. path_entry item \<in> {[], ''.'', ''./''})"
    using assms(5) by blast
  with assms(1-3,6-8) obtain resolved rel where r:
      "fs_resolve fs (path_under (fs_cwd fs) path) = Some resolved" "relative_to resolved root = Some rel"
      "\<exists>item \<in> set raw. path_prefix_entry item \<in> {[], ''.''} \<or> join ''/'' rel = path_prefix_entry item
         \<or> starts_with (join ''/'' rel) (path_prefix_entry item @ ''/'')"
    unfolding scenario_path_allowed_def
    by (simp add: Let_def split: option.splits)
  then show ?thesis
    using assms(4) by (auto simp: starts_with_def relative_to_Some)
qed

text \<open>
  A leading dot of a \<open>paths\<close> entry is lost: \<open>lstrip("./")\<close> removes characters, not the text
  \<open>./\<close>. A scenario confined to \<open>.github\<close> is refused \<open>.github/ci.yml\<close> and is given
  \<open>github/ci.yml\<close>, which its profile does not name.
\<close>

theorem dot_directory_entry_is_mangled:
  "\<not> scenario_path_allowed sample_fs (\<lambda>_. Some (JObj [(''paths'', JList [JStr ''.github''])])) ''s''
        [(''path'', JStr ''/ws/.github/ci.yml'')]
   \<and> scenario_path_allowed sample_fs (\<lambda>_. Some (JObj [(''paths'', JList [JStr ''.github''])])) ''s''
        [(''path'', JStr ''/ws/github/ci.yml'')]"
  by code_simp

text \<open>
  The overlay only tightens. Whatever the profile says, the decision after the overlay is
  at least as severe, and a denial and an S5 call
  stay as they were.
\<close>

theorem overlay_only_tightens:
  "d \<le> apply_overlay reg d sink sid tool w \<and> apply_overlay reg Deny sink sid tool w = Deny
   \<and> apply_overlay reg d ''S5'' sid tool w = d"
  using apply_overlay_tightens by (auto simp: apply_overlay_def)

lemma scenario_paths_shrink_root_witness:
  "\<exists>rel item. fs_resolve sample_fs (path_under [''ws''] ''/ws/src/a.py'') = Some ([''ws''] @ rel)
     \<and> item \<in> set [JStr ''src'']"
proof -
  let ?reg = "\<lambda>_. Some (JObj [(''paths'', JList [JStr ''src''])])"
  have a: "scenario_path_allowed sample_fs ?reg ''s'' [(''path'', JStr ''/ws/src/a.py'')]"
    by code_simp
  have b: "dict_get (security ?reg ''s'') ''paths'' = JList [JStr ''src'']" by code_simp
  have c: "\<forall>item \<in> set [JStr ''src'']. path_prefix_entry item \<notin> {[], ''.''}" by code_simp
  have d: "\<forall>item \<in> set [JStr ''src'']. path_entry item \<notin> {[], ''.'', ''./''}" by code_simp
  have e: "''/ws/src/a.py'' = strip (py_str (py_or (py_or (dict_get [(''path'', JStr ''/ws/src/a.py'')] ''path'')
      (dict_get [(''path'', JStr ''/ws/src/a.py'')] ''file_path'')) (JStr [])))" by code_simp
  show ?thesis
    using scenario_paths_shrink_root [OF a b _ c d e, of "[''ws'']"] by (auto simp: sample_fs_def)
qed

end
