(* ===== verification/Detector.thy ===== *)
theory Detector
  imports Taint ScenarioPolicy
begin

text \<open>
  \<open>policy/detector.py\<close> and \<open>policy/ingress.py\<close>: the detector's verdicts, the rule that a
  signal may only tighten, and the stamping, isolation and capping of a tool result before
  it enters the transcript. The detector service is a parameter: its answer to one request,
  None for any exception (time-out, HTTP error, broken JSON).
\<close>

datatype signal = SigAllow | SigDeny | SigApproval | SigUnavailable

definition CANARY :: str where
  "CANARY = ''[[HIGH_CONFIDENCE_INJECT]]''"

fun verdict_signal :: "str \<Rightarrow> signal" where
  "verdict_signal v = (if v = ''allow'' then SigAllow else if v = ''deny'' then SigDeny
     else if v = ''require_approval'' then SigApproval else SigUnavailable)"

text \<open>\<open>str((data or {}).get("verdict") or default)\<close>; other JSON than an object raises.\<close>

definition verdict_of :: "json \<Rightarrow> str \<Rightarrow> str option" where
  "verdict_of data dflt = (case py_or data (JObj []) of
      JObj d \<Rightarrow> Some (py_str (py_or (dict_get d ''verdict'') (JStr dflt)))
    | _ \<Rightarrow> None)"

definition injection_mode :: "str \<Rightarrow> str" where
  "injection_mode setting =
     (let mode = (if setting = [] then ''observe'' else setting)
      in if lower (strip mode) = ''enforce'' then ''enforce'' else ''observe'')"

text \<open>\<open>url\<close> is the configured detector URL, \<open>reply\<close> the service's JSON for this body.\<close>

definition inspect_body :: "str \<Rightarrow> (str \<Rightarrow> json option) \<Rightarrow> str \<Rightarrow> signal option" where
  "inspect_body url reply txt =
     (if strip url = [] then Some (if occurs_in CANARY txt then SigDeny else SigAllow)
      else (case reply txt of
              None \<Rightarrow> Some SigUnavailable
            | Some data \<Rightarrow> map_option verdict_signal (verdict_of data ''allow'')))"

definition check_deviation :: "str \<Rightarrow> (str \<Rightarrow> dict \<Rightarrow> json option) \<Rightarrow> str \<Rightarrow> dict \<Rightarrow> signal option" where
  "check_deviation url reply goal arguments =
     (if strip url = [] then
        (let blob = (if arguments = [] then [] else py_repr (JObj arguments))
         in Some (if occurs_in CANARY blob then SigDeny else SigApproval))
      else (case reply (take 2000 goal) arguments of
              None \<Rightarrow> Some SigUnavailable
            | Some data \<Rightarrow> map_option verdict_signal (verdict_of data ''require_approval'')))"

definition tighten :: "decision \<Rightarrow> signal \<Rightarrow> str \<Rightarrow> decision" where
  "tighten decision sig mode =
     (if mode \<noteq> ''enforce'' then decision
      else if sig = SigUnavailable then (if decision = Allow then RequireApproval else decision)
      else if sig = SigDeny then Deny
      else if sig = SigApproval \<and> decision = Allow then RequireApproval
      else decision)"

interpretation detector: tightener "\<lambda>d. tighten d sig mode" for sig mode
  by unfold_locales (auto simp: tighten_def)

section \<open>Ingress\<close>

definition TEXT_KEYS :: "str list" where
  "TEXT_KEYS = [''content'', ''stdout'', ''text'', ''excerpt'', ''summary'']"

definition CAP :: nat where
  "CAP = 32000"

definition truncated_note :: str where
  "truncated_note = CHR 0x0A # ''...[truncated]''"

definition hit_text :: "json \<Rightarrow> str list" where
  "hit_text hit = (case hit of
      JObj d \<Rightarrow> [py_str (py_or (py_or (dict_get d ''text'') (dict_get d ''content'')) (JStr []))]
    | _ \<Rightarrow> [])"

definition result_text :: "dict \<Rightarrow> str" where
  "result_text result =
     join [CHR 0x0A]
       (concat (map (\<lambda>key. case dict_get result key of JStr s \<Rightarrow> [s] | _ \<Rightarrow> []) TEXT_KEYS) @
        (case dict_get result ''hits'' of JList hits \<Rightarrow> concat (map hit_text hits) | _ \<Rightarrow> []))"

definition cap_key :: "dict \<Rightarrow> str \<Rightarrow> dict" where
  "cap_key result key = (case dict_get result key of
      JStr s \<Rightarrow> if length s > CAP then dict_set result key (JStr (take CAP s @ truncated_note)) else result
    | _ \<Rightarrow> result)"

definition cap_result :: "dict \<Rightarrow> dict" where
  "cap_result result = foldl cap_key result TEXT_KEYS"

definition declared_taint :: "str \<Rightarrow> dict \<Rightarrow> str" where
  "declared_taint tool_name result =
     (case dict_get result ''_taint'' of
        JStr (c # cs) \<Rightarrow> c # cs
      | _ \<Rightarrow>
          let declared = snd (declared_class tool_name) in
          if declared = ''child'' then
            (let child = py_str (py_or (dict_get result ''window_taint'') (JStr ''external''))
             in if known_taint child then child else ''external'')
          else if declared = ''stored'' then ''workspace''
          else if declared = [] then ''workspace'' else declared)"

definition isolate_key :: "str \<Rightarrow> dict \<Rightarrow> str \<Rightarrow> dict" where
  "isolate_key notice result key = (case dict_get result key of
      JStr s \<Rightarrow> dict_set result key (JStr notice)
    | _ \<Rightarrow> result)"

definition isolate :: "str \<Rightarrow> str \<Rightarrow> dict \<Rightarrow> dict" where
  "isolate notice item_id result =
     (let r1 = foldl (isolate_key notice) result TEXT_KEYS;
          r2 = (case dict_get r1 ''hits'' of JList _ \<Rightarrow> dict_set r1 ''hits'' (JList []) | _ \<Rightarrow> r1)
      in dict_set (dict_set r2 ''quarantine_id'' (JStr item_id)) ''isolated'' (JBool True))"

text \<open>
  \<open>apply_ingress\<close> with the detector's signal for the capped text and the id \<open>put\<close> returns.
  \<open>notice\<close> is \<open>ISOLATION_NOTICE\<close> (a Chinese sentence). The audit records are left out; the
  quarantined body is returned as the third component.
\<close>

definition apply_ingress ::
  "str \<Rightarrow> str \<Rightarrow> (str \<Rightarrow> signal) \<Rightarrow> str \<Rightarrow> str \<Rightarrow> dict \<Rightarrow> turn_state \<Rightarrow> dict \<times> turn_state \<times> str option"
where
  "apply_ingress notice mode sig item_id tool_name result0 state0 =
     (let result1 = cap_result result0;
          taint1 = declared_taint tool_name result1;
          signal1 = sig (result_text result1);
          (result2, taint2, state2, body) =
            (if signal1 = SigUnavailable
               then (result1, higher taint1 ''external'', raise_window state0 ''external'', None)
             else if signal1 = SigDeny \<and> mode = ''enforce'' then
               (let txt = result_text result1;
                    original = (if txt = [] then py_repr (JObj result1) else txt)
                in (isolate notice item_id result1, ''external'', state0, Some original))
             else (result1, taint1, state0, None));
          result3 = dict_set result2 ''_taint'' (JStr taint2);
          state3 = raise_window state2 (if known_taint taint2 then taint2 else ''external'')
      in if tool_name = ''delegate'' then
           (let child = py_str (py_or (dict_get result3 ''window_taint'') (JStr taint2));
                state4 = raise_window state3 (if known_taint child then child else ''external'')
            in (dict_set result3 ''_taint'' (JStr (window_taint state4)), state4, body))
         else (result3, state3, body))"

section \<open>Facts\<close>

lemma cap_key_bound:
  "dict_get (cap_key r k) k = JStr s \<Longrightarrow> length s \<le> CAP + length truncated_note"
  by (auto simp: cap_key_def split: json.splits if_splits)

lemma cap_key_other: "j \<noteq> k \<Longrightarrow> dict_get (cap_key r k) j = dict_get r j"
  by (auto simp: cap_key_def split: json.splits)

lemma cap_fold_other: "j \<notin> set ks \<Longrightarrow> dict_get (foldl cap_key r ks) j = dict_get r j"
  by (induction ks arbitrary: r) (auto simp: cap_key_other)

lemma cap_fold_bound:
  "distinct ks \<Longrightarrow> k \<in> set ks \<Longrightarrow> dict_get (foldl cap_key r ks) k = JStr s
     \<Longrightarrow> length s \<le> CAP + length truncated_note"
proof (induction ks arbitrary: r)
  case (Cons a ks)
  show ?case
  proof (cases "k = a")
    case True
    with Cons.prems show ?thesis by (auto simp: cap_fold_other dest: cap_key_bound)
  next
    case False
    with Cons show ?thesis by auto
  qed
qed simp

lemma cap_result_bound:
  "k \<in> set TEXT_KEYS \<Longrightarrow> dict_get (cap_result r) k = JStr s
     \<Longrightarrow> length s \<le> CAP + length truncated_note"
proof -
  have "distinct TEXT_KEYS" by (simp add: TEXT_KEYS_def)
  then show "k \<in> set TEXT_KEYS \<Longrightarrow> dict_get (cap_result r) k = JStr s
     \<Longrightarrow> length s \<le> CAP + length truncated_note"
    unfolding cap_result_def by (rule cap_fold_bound)
qed

lemma ingress_rank:
  "taint_rank (effective_window st)
     \<le> taint_rank (effective_window (fst (snd (apply_ingress notice mode sig i t r st))))"
proof -
  have up: "taint_rank (effective_window s) \<le> taint_rank (effective_window (raise_window s l))" for s l
    by (rule raise_window_rank)
  show ?thesis
    by (auto simp: apply_ingress_def Let_def split: if_splits intro: order_trans [OF up up]
        order_trans [OF up order_trans [OF up up]] up)
qed

lemma known_or_external: "known_taint (if known_taint t then t else ''external'')"
  by simp

lemma raise_covers: "taint_rank t \<le> taint_rank (effective_window (raise_window st (if known_taint t then t else ''external'')))"
proof -
  have "taint_rank t = taint_rank (if known_taint t then t else ''external'')"
    by (simp add: rank_unknown)
  then show ?thesis using raise_window_reaches [OF known_or_external] by simp
qed

lemma window_taint_raised: "window_taint (raise_window st l) = effective_window (raise_window st l)"
proof -
  have "window_taint (raise_window st l) = higher (effective_window st) (if known_taint l then l else ''external'')"
    by (simp add: raise_window_def Let_def)
  then show ?thesis by (simp add: effective_raise)
qed

lemma isolate_key_same: "dict_get (isolate_key notice r k) k = JStr s \<Longrightarrow> s = notice"
  by (auto simp: isolate_key_def split: json.splits)

lemma isolate_key_other: "j \<noteq> k \<Longrightarrow> dict_get (isolate_key notice r k) j = dict_get r j"
  by (auto simp: isolate_key_def split: json.splits)

lemma isolate_fold:
  "distinct ks \<Longrightarrow> k \<in> set ks \<Longrightarrow> dict_get (foldl (isolate_key notice) r ks) k = JStr s \<Longrightarrow> s = notice"
proof (induction ks arbitrary: r)
  case (Cons a ks)
  have other: "j \<notin> set ks \<Longrightarrow> dict_get (foldl (isolate_key notice) r ks) j = dict_get r j" for j r
    by (induction ks arbitrary: r) (auto simp: isolate_key_other)
  show ?case
  proof (cases "k = a")
    case True
    with Cons.prems other show ?thesis by (auto dest: isolate_key_same)
  next
    case False
    with Cons show ?thesis by auto
  qed
qed simp

lemma isolate_text:
  assumes "k \<in> set TEXT_KEYS" and "dict_get (isolate notice i r) k = JStr s"
  shows "s = notice"
proof -
  have k: "k \<noteq> ''hits''" "k \<noteq> ''quarantine_id''" "k \<noteq> ''isolated''" "distinct TEXT_KEYS"
    using assms(1) by (auto simp: TEXT_KEYS_def)
  then have "dict_get (isolate notice i r) k = dict_get (foldl (isolate_key notice) r TEXT_KEYS) k"
    by (auto simp: isolate_def Let_def split: json.splits)
  with assms k isolate_fold [of TEXT_KEYS k] show ?thesis by simp
qed

lemma isolate_hits:
  assumes "dict_get (isolate notice i r) ''hits'' = JList hs"
  shows "hs = []"
  using assms by (auto simp: isolate_def Let_def split: json.splits)

section \<open>Properties\<close>

text \<open>
  The window covers every result. The result leaves the ingress stamped with a taint
  label, and the window after it is at least as tainted as that label and as before; when the
  detector could not be reached the window is external.
\<close>

theorem ingress_window_covers_result:
  "\<exists>t. dict_get (fst (apply_ingress notice mode sig i tool r st)) ''_taint'' = JStr t
     \<and> taint_rank t \<le> taint_rank (effective_window (fst (snd (apply_ingress notice mode sig i tool r st))))
     \<and> taint_rank (effective_window st)
         \<le> taint_rank (effective_window (fst (snd (apply_ingress notice mode sig i tool r st))))"
  using ingress_rank [of st notice mode sig i tool r]
  by (auto simp: apply_ingress_def Let_def raise_covers window_taint_raised)

text \<open>
  An isolated result carries none of the body. When the detector says deny and the mode is
  enforce, every text field of the result holds the isolation notice, the hit list is empty,
  the body is handed to the quarantine store and the window is external.
\<close>

theorem isolation_removes_body:
  assumes "sig (result_text (cap_result r)) = SigDeny" and "tool \<noteq> ''delegate''"
    and "apply_ingress notice ''enforce'' sig i tool r st = (r', st', body)"
  shows "(\<forall>k s. k \<in> set TEXT_KEYS \<longrightarrow> dict_get r' k = JStr s \<longrightarrow> s = notice)
     \<and> (\<forall>hs. dict_get r' ''hits'' = JList hs \<longrightarrow> hs = [])
     \<and> effective_window st' = ''external''
     \<and> body = Some (if result_text (cap_result r) = [] then py_repr (JObj (cap_result r))
                    else result_text (cap_result r))"
proof -
  have r': "r' = dict_set (isolate notice i (cap_result r)) ''_taint'' (JStr ''external'')"
    and st': "st' = raise_window st ''external''"
    and body: "body = Some (if result_text (cap_result r) = [] then py_repr (JObj (cap_result r))
                    else result_text (cap_result r))"
    using assms by (auto simp: apply_ingress_def Let_def)
  have "k \<noteq> ''_taint''" if "k \<in> set TEXT_KEYS" for k
    using that by (auto simp: TEXT_KEYS_def)
  then show ?thesis
    using isolate_text [of _ notice i] isolate_hits [of notice i] by (auto simp: r' st' body)
qed

lemma ingress_caps_text:
  assumes "k \<in> set TEXT_KEYS" and "dict_get (cap_result r) k = JStr s"
  shows "length s \<le> 32000 + length truncated_note"
  using cap_result_bound [OF assms] by (simp add: CAP_def)

lemma isolation_removes_body_witness:
  "\<exists>r' st' b. apply_ingress ''gone'' ''enforce'' (\<lambda>_. SigDeny) ''q1'' ''read_file''
      [(''content'', JStr ''evil'')] (new_turn_state ''agent'') = (r', st', b)
    \<and> effective_window st' = ''external'' \<and> b \<noteq> None"
proof -
  obtain r' st' b where a: "apply_ingress ''gone'' ''enforce'' (\<lambda>_. SigDeny) ''q1'' ''read_file''
      [(''content'', JStr ''evil'')] (new_turn_state ''agent'') = (r', st', b)" by (metis prod_cases3)
  from isolation_removes_body [OF _ _ a] show ?thesis using a by simp
qed

end
