(* ===== verification/Egress.thy ===== *)
theory Egress
  imports Detector "HOL-Library.Word"
begin

unbundle bit_operations_syntax

text \<open>
  \<open>policy/egress.py\<close> and the verdict half of \<open>policy/egress_proxy.py\<close>: which destinations are
  blocked, what one \<open>http_fetch\<close> call is classified as, and what the proxy lets through.
  Addresses are 32-bit and 128-bit words and a network test is a mask, as in Python's
  \<open>ipaddress\<close>; the address and URL parsers are those of the standard library (for ASCII
  input). The DNS resolver, the allow list setting and the hosts granted so far are
  parameters.
\<close>

section \<open>ipaddress\<close>

datatype ip = V4 "32 word" | V6 "128 word"

definition is_hex :: "char \<Rightarrow> bool" where
  "is_hex c \<longleftrightarrow> is_digit c \<or> (let n = (of_char c :: nat) in (65 \<le> n \<and> n \<le> 70) \<or> (97 \<le> n \<and> n \<le> 102))"

definition hex_value :: "char \<Rightarrow> nat" where
  "hex_value c = (let n = of_char c in if n \<le> 57 then n - 48 else if n \<le> 70 then n - 55 else n - 87)"

definition parse_octet :: "str \<Rightarrow> nat option" where
  "parse_octet s =
     (if s = [] \<or> \<not> list_all is_digit s \<or> length s > 3 then None
      else if s \<noteq> ''0'' \<and> hd s = CHR ''0'' then None
      else (case read_nat s of Some n \<Rightarrow> if n > 255 then None else Some n | None \<Rightarrow> None))"

definition parse_v4 :: "str \<Rightarrow> 32 word option" where
  "parse_v4 s = (case map parse_octet (split_on (CHR ''.'') s) of
      [Some a, Some b, Some c, Some d] \<Rightarrow>
        Some (word_of_nat (((a * 256 + b) * 256 + c) * 256 + d))
    | _ \<Rightarrow> None)"

definition parse_hextet :: "str \<Rightarrow> nat option" where
  "parse_hextet s = (if s = [] \<or> \<not> list_all is_hex s \<or> length s > 4 then None
     else Some (foldl (\<lambda>acc c. 16 * acc + hex_value c) 0 s))"

definition hextets :: "str list \<Rightarrow> nat list option" where
  "hextets parts = (if None \<in> set (map parse_hextet parts) then None
     else Some (map (\<lambda>p. or_else (parse_hextet p) 0) parts))"

definition v6_of_hextets :: "nat list \<Rightarrow> 128 word" where
  "v6_of_hextets hs = foldl (\<lambda>acc h. push_bit 16 acc OR word_of_nat h) 0 hs"

text \<open>The hextet texts of a trailing dotted quad: \<open>'%x' % ...\<close> on both halves.\<close>

fun hex_text :: "nat \<Rightarrow> str" where
  "hex_text n = (if n < 16 then [hex_digit n] else hex_text (n div 16) @ [hex_digit (n mod 16)])"

declare hex_text.simps [simp del]

definition expand_v4_tail :: "str list \<Rightarrow> str list option" where
  "expand_v4_tail parts =
     (if CHR ''.'' \<in> set (last parts) then
        (case parse_v4 (last parts) of
           None \<Rightarrow> None
         | Some w \<Rightarrow> Some (butlast parts @ [hex_text (unat w div 65536), hex_text (unat w mod 65536)]))
      else Some parts)"

text \<open>Inner empty parts: the positions of \<open>::\<close>.\<close>

definition inner_empty :: "str list \<Rightarrow> nat list" where
  "inner_empty parts = filter (\<lambda>i. parts ! i = []) [1..<length parts - 1]"

definition parse_v6_parts :: "str list \<Rightarrow> 128 word option" where
  "parse_v6_parts parts =
     (case inner_empty parts of
        [] \<Rightarrow>
          if length parts \<noteq> 8 \<or> hd parts = [] \<or> last parts = [] then None
          else map_option v6_of_hextets (hextets parts)
      | [k] \<Rightarrow>
          let hi0 = k; lo0 = length parts - k - 1;
              hi = (if hd parts = [] then hi0 - 1 else hi0);
              lo = (if last parts = [] then lo0 - 1 else lo0)
          in if (hd parts = [] \<and> hi \<noteq> 0) \<or> (last parts = [] \<and> lo \<noteq> 0) \<or> hi + lo > 7 then None
             else (case (hextets (take hi parts), hextets (drop (length parts - lo) parts)) of
                     (Some h, Some l) \<Rightarrow> Some (v6_of_hextets (h @ replicate (8 - (hi + lo)) 0 @ l))
                   | _ \<Rightarrow> None)
      | _ \<Rightarrow> None)"

text \<open>\<open>_split_scope_id\<close> refuses an empty scope and a second percent sign.\<close>

definition parse_v6 :: "str \<Rightarrow> 128 word option" where
  "parse_v6 s =
     (if CHR ''/'' \<in> set s then None
      else (case split_on (CHR ''%'') s of
          [] \<Rightarrow> None
        | addr # scope \<Rightarrow>
            if scope = [[]] \<or> length scope > 1 then None
            else let parts = split_on (CHR '':'') addr in
              if length parts < 3 then None
              else (case expand_v4_tail parts of
                      None \<Rightarrow> None
                    | Some ps \<Rightarrow> if length ps > 9 then None else parse_v6_parts ps)))"

definition ip_address :: "str \<Rightarrow> ip option" where
  "ip_address s = (case parse_v4 s of Some w \<Rightarrow> Some (V4 w) | None \<Rightarrow> map_option V6 (parse_v6 s))"

text \<open>A network as its address and mask. A network of the other version contains nothing.\<close>

datatype net = Net4 "32 word" nat | Net6 "128 word" nat

fun in_net :: "ip \<Rightarrow> net \<Rightarrow> bool" where
  "in_net (V4 w) (Net4 a len) \<longleftrightarrow> w AND push_bit (32 - len) (mask len) = a"
| "in_net (V6 w) (Net6 a len) \<longleftrightarrow> w AND push_bit (128 - len) (mask len) = a"
| "in_net _ _ \<longleftrightarrow> False"

section \<open>Blocked destinations\<close>

definition BLOCKED_NAMES :: "str list" where
  "BLOCKED_NAMES = [''localhost'', ''postgres'', ''redis'', ''model-gateway'', ''metadata'',
     ''metadata.google.internal'']"

definition BLOCKED_NETS :: "net list" where
  "BLOCKED_NETS =
     [Net4 0x00000000 8, Net4 0x0A000000 8, Net4 0x7F000000 8, Net4 0xA9FE0000 16,
      Net4 0xAC100000 12, Net4 0xC0A80000 16, Net6 1 128,
      Net6 0xFC000000000000000000000000000000 7, Net6 0xFE800000000000000000000000000000 10]"

definition METADATA :: str where
  "METADATA = ''169.254.169.254''"

definition URL_MAX_CHARS :: nat where
  "URL_MAX_CHARS = 2048"

text \<open>\<open>_host_name\<close> of the proxy and the first line of \<open>destination_blocked\<close>.\<close>

definition host_name :: "str \<Rightarrow> str" where
  "host_name host = rstrip_chars ''.'' (lower (strip host))"

definition destination_blocked :: "str \<Rightarrow> bool" where
  "destination_blocked host =
     (let name = host_name host in
      if name = [] \<or> name \<in> set BLOCKED_NAMES \<or> ends_with name ''.internal'' then True
      else if name = METADATA then True
      else (case ip_address name of
              None \<Rightarrow> False
            | Some address \<Rightarrow> (\<exists>net \<in> set BLOCKED_NETS. in_net address net)))"

definition host_allowlisted :: "str \<Rightarrow> str \<Rightarrow> bool" where
  "host_allowlisted setting host \<longleftrightarrow>
     lower (strip host) \<in> set (map (\<lambda>item. lower (strip item))
        (filter (\<lambda>item. strip item \<noteq> []) (split_on (CHR '','') setting)))"

text \<open>The resolver's answer: None is OSError. The result is the reason, None for no block.\<close>

definition resolve_blocked :: "policy_store \<Rightarrow> (str \<Rightarrow> str list option) \<Rightarrow> str \<Rightarrow> str option" where
  "resolve_blocked st resolver host =
     (if destination_blocked host \<or> host_emergency_denied st host then Some ''blocked destination''
      else (case resolver host of
              None \<Rightarrow> Some ''dns failed''
            | Some addresses \<Rightarrow>
                if (\<exists>address \<in> set addresses. destination_blocked address)
                then Some ''dns rebinding'' else None))"

definition REGISTRIES :: "str list" where
  "REGISTRIES = [''pypi.org'', ''files.pythonhosted.org'', ''registry.npmjs.org'',
     ''registry.yarnpkg.com'', ''crates.io'', ''static.crates.io'', ''proxy.golang.org'',
     ''sum.golang.org'', ''github.com'']"

definition registry_host :: "str \<Rightarrow> bool" where
  "registry_host host =
     (let name = host_name host
      in (\<exists>item \<in> set REGISTRIES. name = item \<or> ends_with name (''.'' @ item)))"

section \<open>urlparse\<close>

definition scheme_char :: "char \<Rightarrow> bool" where
  "scheme_char c \<longleftrightarrow> (let n = (of_char c :: nat) in
     (97 \<le> n \<and> n \<le> 122) \<or> (65 \<le> n \<and> n \<le> 90) \<or> is_digit c \<or> c \<in> set ''+-.'')"

definition ascii_alpha :: "char \<Rightarrow> bool" where
  "ascii_alpha c \<longleftrightarrow> (let n = (of_char c :: nat) in (97 \<le> n \<and> n \<le> 122) \<or> (65 \<le> n \<and> n \<le> 90))"

definition split_scheme :: "str \<Rightarrow> str \<times> str" where
  "split_scheme url =
     (let s = takeWhile (\<lambda>c. c \<noteq> CHR '':'') url; rest = drop (Suc (length s)) url
      in if length s < length url \<and> s \<noteq> [] \<and> ascii_alpha (hd s) \<and> list_all scheme_char s
         then (lower s, rest) else ([], url))"

definition clean_url :: "str \<Rightarrow> str" where
  "clean_url url = filter (\<lambda>c. c \<notin> {CHR 0x09, CHR 0x0D, CHR 0x0A})
     (dropWhile (\<lambda>c. (of_char c :: nat) \<le> 32) url)"

text \<open>The part after the last separator, or the whole string: \<open>s.rpartition(sep)[2]\<close>.\<close>

definition after_last :: "char \<Rightarrow> str \<Rightarrow> str" where
  "after_last sep s = last (split_on sep s)"

definition url_hostname :: "str \<Rightarrow> str option" where
  "url_hostname netloc =
     (let hostinfo = after_last (CHR ''@'') netloc;
          raw = (if CHR ''['' \<in> set hostinfo
                 then takeWhile (\<lambda>c. c \<noteq> CHR '']'') (tl (dropWhile (\<lambda>c. c \<noteq> CHR ''['') hostinfo))
                 else takeWhile (\<lambda>c. c \<noteq> CHR '':'') hostinfo);
          name = takeWhile (\<lambda>c. c \<noteq> CHR ''%'') raw
      in if raw = [] then None else Some (lower name @ drop (length name) raw))"

text \<open>The check of a bracketed host: an IPv6 address or an \<open>IPvFuture\<close> literal.\<close>

definition bracket_ok :: "str \<Rightarrow> bool" where
  "bracket_ok netloc =
     (let inner = takeWhile (\<lambda>c. c \<noteq> CHR '']'') (tl (dropWhile (\<lambda>c. c \<noteq> CHR ''['') netloc))
      in if starts_with inner ''v''
         then (let ver = takeWhile is_hex (tl inner); rest = drop (length ver) (tl inner)
               in ver \<noteq> [] \<and> starts_with rest ''.'' \<and> length rest > 1)
         else (case ip_address inner of Some (V6 _) \<Rightarrow> True | _ \<Rightarrow> False))"

text \<open>Scheme and hostname; None is the ValueError of a malformed bracketed host.\<close>

definition urlparse :: "str \<Rightarrow> (str \<times> str option) option" where
  "urlparse url0 =
     (let (scheme, url) = split_scheme (clean_url url0);
          netloc = (if starts_with url ''//''
             then takeWhile (\<lambda>c. c \<notin> set ''/?#'') (drop 2 url) else [])
      in if (CHR ''['' \<in> set netloc) \<noteq> (CHR '']'' \<in> set netloc) then None
         else if CHR ''['' \<in> set netloc \<and> \<not> bracket_ok netloc then None
         else Some (scheme, url_hostname netloc))"

section \<open>One outbound call\<close>

text \<open>
  The surroundings of a call: the emergency store, the profile registry, the resolver, the
  allow list setting, the evaluation flag of the tenant context and the granted hosts.
\<close>

record egress_env =
  eg_store :: policy_store
  eg_registry :: registry
  eg_resolver :: "str \<Rightarrow> str list option"
  eg_allowlist :: str
  eg_ops_eval :: bool
  eg_granted :: "str set"

definition host_granted :: "str set \<Rightarrow> str \<Rightarrow> bool" where
  "host_granted granted host \<longleftrightarrow> host_name host \<noteq> [] \<and> host_name host \<in> granted"

definition grant_hosts :: "str set \<Rightarrow> str list \<Rightarrow> str set" where
  "grant_hosts granted hosts = granted \<union> (host_name ` set (filter (\<lambda>h. host_name h \<noteq> []) hosts))"

definition url_in_context :: "str \<Rightarrow> turn_state \<Rightarrow> bool" where
  "url_in_context url state =
     (if url = [] then False
      else occurs_in url (join [CHR 0x0A] (turn_user_text state # map py_str (messages state))))"

text \<open>\<open>classify_http\<close>; None is the ValueError \<open>urlparse\<close> raises.\<close>

definition classify_http :: "egress_env \<Rightarrow> dict \<Rightarrow> str \<Rightarrow> turn_state \<Rightarrow> decision option" where
  "classify_http env args window state =
     (let url = str_field args ''url'' in
      if length url > URL_MAX_CHARS \<or> url = [] then Some Deny
      else (case urlparse url of
          None \<Rightarrow> None
        | Some (scheme, hostname) \<Rightarrow>
            (case (if scheme \<in> {''http'', ''https''} then hostname else None) of
               None \<Rightarrow> Some Deny
             | Some host \<Rightarrow>
                 if resolve_blocked (eg_store env) (eg_resolver env) host \<noteq> None then Some Deny
                 else if upper (py_str (py_or (dict_get args ''method'') (JStr ''GET''))) \<noteq> ''GET''
                      \<or> truthy (dict_get args ''body'') then Some RequireApproval
                 else if \<not> host_allowlisted (eg_allowlist env) host \<and> \<not> registry_host host \<and> eg_ops_eval env
                   then Some Deny
                 else if \<not> host_allowlisted (eg_allowlist env) host \<and> \<not> registry_host host
                      \<and> \<not> host_granted (eg_granted env) host
                   then Some RequireApproval
                 else (case scenario_network_hosts (eg_registry env) (scenario_id state) of
                         Some hosts \<Rightarrow>
                           if lower host \<notin> set hosts then Some Deny
                           else if window = ''external'' \<and> \<not> url_in_context url state
                             then Some RequireApproval else Some Allow
                       | None \<Rightarrow>
                           if window = ''external'' \<and> \<not> url_in_context url state
                             then Some RequireApproval else Some Allow))))"

section \<open>The proxy\<close>

definition proxy_verdict :: "egress_env \<Rightarrow> str \<Rightarrow> int \<Rightarrow> str \<Rightarrow> decision" where
  "proxy_verdict env host port meth =
     (let name = host_name host in
      if name = [] \<or> port \<notin> {80, 443} then Deny
      else if resolve_blocked (eg_store env) (eg_resolver env) name \<noteq> None then Deny
      else if registry_host name \<or> host_granted (eg_granted env) name
        then (if meth \<in> {''CONNECT'', ''GET'', ''HEAD''} then Allow else Deny)
      else Deny)"

section \<open>Facts\<close>

lemma resolve_blocked_None:
  "resolve_blocked st resolver host = None \<longleftrightarrow>
     \<not> destination_blocked host \<and> \<not> host_emergency_denied st host
     \<and> (\<exists>addresses. resolver host = Some addresses \<and> (\<forall>a \<in> set addresses. \<not> destination_blocked a))"
  by (auto simp: resolve_blocked_def split: option.splits)

text \<open>The text of a dotted quad, and what the address parser makes of it.\<close>

definition dotted_quad :: "nat \<Rightarrow> nat \<Rightarrow> nat \<Rightarrow> nat \<Rightarrow> str" where
  "dotted_quad a b c d = join ''.'' [show_digits a, show_digits b, show_digits c, show_digits d]"

definition quad_word :: "nat \<Rightarrow> nat \<Rightarrow> nat \<Rightarrow> nat \<Rightarrow> 32 word" where
  "quad_word a b c d = word_of_nat (((a * 256 + b) * 256 + c) * 256 + d)"

lemma digits_no_dot: "CHR ''.'' \<notin> set (show_digits n)"
  using show_digits_all [of "CHR ''.''" n] by (auto simp: is_digit_def)

lemma split_quad:
  "split_on (CHR ''.'') (dotted_quad a b c d) = [show_digits a, show_digits b, show_digits c, show_digits d]"
  unfolding dotted_quad_def by (rule split_on_join) (auto simp: digits_no_dot)

lemma length_show_digits: "n < 256 \<Longrightarrow> length (show_digits n) \<le> 3"
  by (subst show_digits.simps, auto, subst show_digits.simps, auto, subst show_digits.simps, auto)

lemma hd_show_digits: "n \<noteq> 0 \<Longrightarrow> hd (show_digits n) \<noteq> CHR ''0''"
proof (induction n rule: show_digits.induct)
  case (1 n)
  show ?case
  proof (cases "n < 10")
    case True
    with 1(2) have "n \<in> {1,2,3,4,5,6,7,8,9}" by auto
    then show ?thesis by (auto simp: show_digits.simps [of n] char_of_def bit_iff_odd)
  next
    case False
    then show ?thesis using 1 by (subst show_digits.simps) (simp add: hd_append)
  qed
qed

lemma parse_octet_show: "n < 256 \<Longrightarrow> parse_octet (show_digits n) = Some n"
proof -
  assume n: "n < 256"
  have "read_nat (show_digits n) = Some n"
    by (simp add: read_nat_def read_show_digits)
  moreover have "list_all is_digit (show_digits n)"
    by (auto simp: list_all_iff show_digits_all)
  moreover have "show_digits n \<noteq> ''0'' \<Longrightarrow> hd (show_digits n) \<noteq> CHR ''0''"
    using hd_show_digits [of n] by (cases "n = 0") (auto simp: show_digits.simps [of 0])
  ultimately show ?thesis
    using n length_show_digits [OF n] by (auto simp: parse_octet_def)
qed

lemma parse_quad:
  assumes "a < 256" "b < 256" "c < 256" "d < 256"
  shows "parse_v4 (dotted_quad a b c d) = Some (quad_word a b c d)"
    and "ip_address (dotted_quad a b c d) = Some (V4 (quad_word a b c d))"
  using assms by (simp_all add: ip_address_def parse_v4_def split_quad parse_octet_show quad_word_def)

lemma unat_word_of_nat32: "n < 2 ^ 32 \<Longrightarrow> unat (word_of_nat n :: 32 word) = n"
  by (simp add: unsigned_of_nat take_bit_nat_eq_self)

lemma network_part: "k \<le> 32 \<Longrightarrow> (w :: 32 word) AND push_bit k (mask (32 - k)) = push_bit k (drop_bit k w)"
  by (rule bit_word_eqI) (auto simp: bit_simps)

lemma network_value:
  assumes "k \<le> 32"
  shows "unat ((w :: 32 word) AND push_bit k (mask (32 - k))) = unat w div 2 ^ k * 2 ^ k"
proof -
  have "unat w div 2 ^ k * 2 ^ k \<le> unat w"
    by (rule div_times_less_eq_dividend)
  moreover have "unat w < 2 ^ 32"
    using unsigned_less [of w, where ?'a = nat] by simp
  ultimately have "unat w div 2 ^ k * 2 ^ k < 2 ^ 32" by linarith
  then show ?thesis
    unfolding network_part [OF assms] unfolding unsigned_push_bit_eq unat_drop_bit_eq
    by (simp add: push_bit_eq_mult drop_bit_eq_div take_bit_nat_eq_self)
qed

lemma in_net_4:
  assumes "k \<le> 32" and "n * 2 ^ k < 2 ^ 32"
  shows "in_net (V4 w) (Net4 (word_of_nat (n * 2 ^ k)) (32 - k)) \<longleftrightarrow> unat w div 2 ^ k = n"
proof -
  have "unat (word_of_nat (n * 2 ^ k) :: 32 word) = n * 2 ^ k"
    by (rule unat_word_of_nat32) (rule assms(2))
  moreover have "32 - (32 - k) = k" using assms(1) by simp
  ultimately show ?thesis
    using network_value [OF assms(1), of w] unfolding in_net.simps word_unat_eq_iff by (simp del: of_nat_mult)
qed

lemma unat_quad:
  assumes "a < 256" "b < 256" "c < 256" "d < 256"
  shows "unat (quad_word a b c d) = ((a * 256 + b) * 256 + c) * 256 + d"
  unfolding quad_word_def using assms by (intro unat_word_of_nat32) simp

lemma quad_div:
  assumes "a < 256" "b < 256" "c < 256" "d < (256::nat)"
  shows "(((a * 256 + b) * 256 + c) * 256 + d) div 2 ^ 24 = a"
    and "(((a * 256 + b) * 256 + c) * 256 + d) div 2 ^ 16 = a * 256 + b"
    and "(((a * 256 + b) * 256 + c) * 256 + d) div 2 ^ 20 = a * 16 + b div 16"
  using assms by simp_all

text \<open>The ranges the network list names, by the first two numbers of the quad.\<close>

definition internal_quad :: "nat \<Rightarrow> nat \<Rightarrow> bool" where
  "internal_quad a b \<longleftrightarrow> a = 0 \<or> a = 10 \<or> a = 127 \<or> (a = 169 \<and> b = 254)
     \<or> (a = 172 \<and> 16 \<le> b \<and> b \<le> 31) \<or> (a = 192 \<and> b = 168)"

lemma blocked_quad_word:
  assumes "a < 256" "b < 256" "c < 256" "d < 256"
  shows "(\<exists>net \<in> set BLOCKED_NETS. in_net (V4 (quad_word a b c d)) net) \<longleftrightarrow> internal_quad a b"
proof -
  let ?w = "quad_word a b c d"
  note q = unat_quad [OF assms] quad_div [OF assms]
  have n8: "in_net (V4 ?w) (Net4 (word_of_nat (n * 2 ^ 24)) 8) \<longleftrightarrow> a = n" if "n < 256" for n
    using in_net_4 [of 24 n ?w] q that by simp
  have n16: "in_net (V4 ?w) (Net4 (word_of_nat ((n * 256 + m) * 2 ^ 16)) 16) \<longleftrightarrow> a = n \<and> b = m"
    if "n < 256" "m < 256" for n m
  proof -
    have "a = n" if "a * 256 + b = n * 256 + m"
      using arg_cong [OF that, of "\<lambda>x. x div 256"] \<open>m < 256\<close> assms(2) by simp
    then have "(a * 256 + b = n * 256 + m) = (a = n \<and> b = m)" by auto
    then show ?thesis
      using in_net_4 [of 16 "n * 256 + m" ?w] q that by simp
  qed
  have n12: "in_net (V4 ?w) (Net4 (word_of_nat ((172 * 16 + 1) * 2 ^ 20)) 12) \<longleftrightarrow> a = 172 \<and> 16 \<le> b \<and> b \<le> 31"
  proof -
    have "a = 172 \<and> b div 16 = 1" if "a * 16 + b div 16 = 172 * 16 + 1"
    proof -
      have "b div 16 < 16" using assms(2) by simp
      then have "a = 172" using arg_cong [OF that, of "\<lambda>x. x div 16"] by simp
      with that show ?thesis by simp
    qed
    moreover have "b div 16 = 1 \<longleftrightarrow> 16 \<le> b \<and> b \<le> 31"
      using less_eq_div_iff_mult_less_eq [of 16 1 b] div_less_iff_less_mult [of 16 b 2] by auto
    ultimately have "(a * 16 + b div 16 = 172 * 16 + 1) = (a = 172 \<and> 16 \<le> b \<and> b \<le> 31)" by auto
    then show ?thesis
      using in_net_4 [of 20 "172 * 16 + 1" ?w] q by simp
  qed
  show ?thesis
    using n8 [of 0] n8 [of 10] n8 [of 127] n16 [of 169 254] n16 [of 192 168] n12
    unfolding BLOCKED_NETS_def internal_quad_def
    by (simp del: in_net.simps(1))
qed

lemma show_digit_plain: "c \<in> set (show_digits n) \<Longrightarrow> \<not> is_space c \<and> lower_char c = c \<and> c \<noteq> CHR ''.''"
  using show_digits_all [of c n] by (auto simp: is_digit_def is_space_def lower_char_def Let_def)

lemma ends_with_last: "ends_with s p \<Longrightarrow> p \<noteq> [] \<Longrightarrow> last s = last p"
  by (auto simp: ends_with_def prefix_def) (metis hd_append hd_rev rev_is_Nil_conv rev_rev_ident)

lemma trim_end: "\<not> P (last s) \<Longrightarrow> rev (dropWhile P (rev s)) = s"
  by (cases s rule: rev_cases) simp_all

lemma host_name_dotted: "host_name (dotted_quad a b c d) = dotted_quad a b c d"
proof -
  let ?s = "dotted_quad a b c d"
  have plain: "\<not> is_space x \<and> lower_char x = x" if "x \<in> set ?s" for x
    using that show_digit_plain [of x] by (auto simp: dotted_quad_def is_space_def lower_char_def)
  have ne: "?s \<noteq> []"
    by (simp add: dotted_quad_def)
  then have "\<not> is_space (hd ?s)" "\<not> is_space (last ?s)"
    using plain [of "hd ?s"] plain [of "last ?s"] by simp_all
  then have "lstrip ?s = ?s" "rstrip ?s = ?s"
    by (simp_all add: lstrip_def rstrip_def dropWhile_eq_self_iff trim_end)
  then have "strip ?s = ?s"
    by (simp add: strip_def)
  moreover have "lower ?s = ?s"
    using plain by (auto simp: lower_def intro: map_idI)
  moreover have "last ?s \<noteq> CHR ''.''"
    using show_digit_plain [of "last (show_digits d)" d] by (simp add: dotted_quad_def)
  ultimately show ?thesis
    by (simp add: host_name_def rstrip_chars_def trim_end)
qed

lemma classify_allow:
  assumes "classify_http env args w st = Some Allow"
  obtains scheme host where "urlparse (str_field args ''url'') = Some (scheme, Some host)"
    "scheme \<in> {''http'', ''https''}" "resolve_blocked (eg_store env) (eg_resolver env) host = None"
    "upper (py_str (py_or (dict_get args ''method'') (JStr ''GET''))) = ''GET''"
    "\<not> truthy (dict_get args ''body'')"
    "host_allowlisted (eg_allowlist env) host \<or> registry_host host
       \<or> (\<not> eg_ops_eval env \<and> host_granted (eg_granted env) host)"
    "case scenario_network_hosts (eg_registry env) (scenario_id st) of
       None \<Rightarrow> True | Some hosts \<Rightarrow> lower host \<in> set hosts"
    "w = ''external'' \<longrightarrow> url_in_context (str_field args ''url'') st"
proof -
  obtain scheme hostname where u: "urlparse (str_field args ''url'') = Some (scheme, hostname)"
    using assms by (cases "urlparse (str_field args ''url'')") (auto simp: classify_http_def Let_def split: if_splits)
  with assms obtain host where h: "hostname = Some host" "scheme \<in> {''http'', ''https''}"
    by (cases hostname) (auto simp: classify_http_def Let_def split: if_splits)
  show thesis
    using assms u h
    by (intro that [of scheme host])
      (auto simp: classify_http_def Let_def split: if_splits option.splits)
qed

text \<open>The IPv6 texts the last properties speak of.\<close>

lemma parse_mapped:
  "parse_v6 ''::ffff:127.0.0.1'' = Some 0xFFFF7F000001" "parse_v6 ''::ffff:10.0.0.1'' = Some 0xFFFF0A000001"
proof -
  have d: "dotted_quad 127 0 0 1 = ''127.0.0.1''" "dotted_quad 10 0 0 1 = ''10.0.0.1''" by code_simp+
  have dg: "hex_digit 7 = CHR ''7''" "hex_digit 15 = CHR ''f''" "hex_digit 0 = CHR ''0''"
    "hex_digit 10 = CHR ''a''" "hex_digit 1 = CHR ''1''" by code_simp+
  have h: "hex_text 32512 = ''7f00''" "hex_text 2560 = ''a00''" "hex_text 1 = ''1''"
    by (simp_all add: hex_text.simps [of 32512] hex_text.simps [of 2032] hex_text.simps [of 127]
        hex_text.simps [of 7] hex_text.simps [of 2560] hex_text.simps [of 160] hex_text.simps [of 10]
        hex_text.simps [of 1] hex_text.simps [of "Suc 0"] dg dg [unfolded One_nat_def])
  have e: "expand_v4_tail [[], [], ''ffff'', s] = Some [[], [], ''ffff'', hex_text (unat w div 65536),
      hex_text (unat w mod 65536)]" if "CHR ''.'' \<in> set s" "parse_v4 s = Some w" for s w
    using that by (simp add: expand_v4_tail_def)
  have t: "expand_v4_tail [[], [], ''ffff'', ''127.0.0.1''] = Some [[], [], ''ffff'', ''7f00'', ''1'']"
    "expand_v4_tail [[], [], ''ffff'', ''10.0.0.1''] = Some [[], [], ''ffff'', ''a00'', ''1'']"
    using e [OF _ parse_quad(1) [of 127 0 0 1]] e [OF _ parse_quad(1) [of 10 0 0 1]]
    unfolding d by (simp_all add: unat_quad h del: One_nat_def)
  have hv: "hex_value (CHR ''f'') = 15" "hex_value (CHR ''7'') = 7" "hex_value (CHR ''0'') = 0"
    "hex_value (CHR ''a'') = 10" "hex_value (CHR ''1'') = 1" by code_simp+
  have ih: "is_hex (CHR ''f'')" "is_hex (CHR ''7'')" "is_hex (CHR ''0'')" "is_hex (CHR ''a'')"
    "is_hex (CHR ''1'')" by code_simp+
  have hx: "hextets [''ffff'', ''7f00'', ''1''] = Some [0xFFFF, 0x7F00, 1]"
    "hextets [''ffff'', ''a00'', ''1''] = Some [0xFFFF, 0xA00, 1]" "hextets [] = Some []"
    by (simp_all add: hextets_def parse_hextet_def hv ih)
  have w: "v6_of_hextets [0, 0, 0, 0, 0, 0xFFFF, 0x7F00, 1] = 0xFFFF7F000001"
    "v6_of_hextets [0, 0, 0, 0, 0, 0xFFFF, 0xA00, 1] = 0xFFFF0A000001"
    by (simp_all add: v6_of_hextets_def)
  have sp: "split_on (CHR '':'') ''::ffff:127.0.0.1'' = [[], [], ''ffff'', ''127.0.0.1'']"
    "split_on (CHR '':'') ''::ffff:10.0.0.1'' = [[], [], ''ffff'', ''10.0.0.1'']" by code_simp+
  have i: "inner_empty [[], [], ''ffff'', x, ''1''] = [1]" if "x \<noteq> []" for x :: str
    using that by (simp add: inner_empty_def upt_rec)
  have v: "parse_v6_parts [[], [], ''ffff'', x, ''1''] =
      map_option (\<lambda>l. v6_of_hextets ([] @ replicate 5 0 @ l)) (hextets [''ffff'', x, ''1''])" if "x \<noteq> []" for x
    using i [OF that] hx(3) by (simp add: parse_v6_parts_def Let_def split: option.split)
  have r: "replicate 5 (0::nat) = [0, 0, 0, 0, 0]" by (simp add: numeral_eq_Suc)
  show "parse_v6 ''::ffff:127.0.0.1'' = Some 0xFFFF7F000001" "parse_v6 ''::ffff:10.0.0.1'' = Some 0xFFFF0A000001"
    by (simp_all add: parse_v6_def sp t v hx Let_def w r split_on_word del: One_nat_def)
qed

lemma quad_blocked:
  assumes "a < 256" "b < 256" "c < 256" "d < 256"
  shows "destination_blocked (dotted_quad a b c d) \<longleftrightarrow> internal_quad a b"
proof -
  let ?s = "dotted_quad a b c d"
  have ip: "ip_address ?s = Some (V4 (quad_word a b c d))"
    by (rule parse_quad) (rule assms)+
  have ne: "?s \<noteq> []" by (simp add: dotted_quad_def)
  have lst: "is_digit (last ?s)"
    using show_digits_all [of "last (show_digits d)" d] by (simp add: dotted_quad_def)
  moreover have "\<forall>n \<in> set BLOCKED_NAMES. \<not> is_digit (last n)" by code_simp
  ultimately have "?s \<notin> set BLOCKED_NAMES" by blast
  moreover have "\<not> ends_with ?s ''.internal''"
  proof
    assume "ends_with ?s ''.internal''"
    then have "last ?s = CHR ''l''" using ends_with_last [of ?s "''.internal''"] by simp
    with lst show False by (simp add: is_digit_def)
  qed
  moreover have "internal_quad a b" if "?s = METADATA"
  proof -
    have "METADATA = dotted_quad 169 254 169 254" by code_simp
    with ip that have "V4 (quad_word 169 254 169 254) = V4 (quad_word a b c d)"
      using parse_quad(2) [of 169 254 169 254] by simp
    then have "internal_quad a b \<longleftrightarrow> internal_quad 169 254"
      using blocked_quad_word [OF assms] blocked_quad_word [of 169 254 169 254] by simp
    then show ?thesis by (simp add: internal_quad_def)
  qed
  ultimately show ?thesis
    using ne by (auto simp: destination_blocked_def host_name_dotted ip blocked_quad_word [OF assms] Let_def)
qed

section \<open>Properties\<close>

text \<open>
  C14: what a fetch that is simply allowed satisfies. Its URL is http or https, the host and
  every address it resolves to pass the destination test, so none of them that is a dotted
  quad lies in this host's, the loopback, the link-local or a private range, it is a GET without a body,
  the host is not on the emergency list and is allow-listed, a package registry or granted, and
  after external content was read the URL occurs verbatim in the conversation. (An address in
  IPv4-mapped form passes the destination test, see \<open>mapped_loopback_not_blocked\<close>.)
\<close>

theorem allowed_fetch_is_contained:
  assumes "classify_http env args w st = Some Allow"
  shows "\<exists>scheme host addresses. urlparse (str_field args ''url'') = Some (scheme, Some host)
     \<and> scheme \<in> {''http'', ''https''}
     \<and> \<not> destination_blocked host \<and> \<not> host_emergency_denied (eg_store env) host
     \<and> eg_resolver env host = Some addresses \<and> (\<forall>a \<in> set addresses. \<not> destination_blocked a)
     \<and> (\<forall>a b c d. a < 256 \<and> b < 256 \<and> c < 256 \<and> d < 256 \<and> dotted_quad a b c d \<in> set (host # addresses)
          \<longrightarrow> \<not> internal_quad a b)
     \<and> upper (py_str (py_or (dict_get args ''method'') (JStr ''GET''))) = ''GET''
     \<and> \<not> truthy (dict_get args ''body'')
     \<and> (host_allowlisted (eg_allowlist env) host \<or> registry_host host \<or> host_granted (eg_granted env) host)
     \<and> (w = ''external'' \<longrightarrow> url_in_context (str_field args ''url'') st)"
proof -
  have quads: "\<not> internal_quad a b" if "a < 256" "b < 256" "c < 256" "d < 256"
    "\<not> destination_blocked (dotted_quad a b c d)" for a b c d
    using that quad_blocked by blast
  show ?thesis
    using assms
    by (rule classify_allow) (use quads in \<open>auto simp: resolve_blocked_None\<close>)
qed

text \<open>
  For a dotted quad the network list is exactly the ranges its documentation names: this
  host, loopback, link-local with the metadata service, and the three private ranges; every
  other dotted quad is a permitted destination.
\<close>

theorem dotted_quad_blocked_iff:
  assumes "a < 256" "b < 256" "c < 256" "d < 256"
  shows "destination_blocked (dotted_quad a b c d) \<longleftrightarrow> internal_quad a b"
  by (rule quad_blocked) (rule assms)+

text \<open>
  An IPv4-mapped address is not recognised. \<open>::ffff:127.0.0.1\<close> and \<open>::ffff:10.0.0.1\<close>, which
  the system connects to loopback and the private range, pass the destination test, although
  their dotted quads do not.
\<close>

theorem mapped_loopback_not_blocked:
  "\<not> destination_blocked ''::ffff:127.0.0.1'' \<and> \<not> destination_blocked ''::ffff:10.0.0.1''
   \<and> destination_blocked ''127.0.0.1'' \<and> destination_blocked ''10.0.0.1''"
proof -
  have v4: "parse_v4 ''::ffff:127.0.0.1'' = None" "parse_v4 ''::ffff:10.0.0.1'' = None"
    by code_simp+
  have hn: "host_name ''::ffff:127.0.0.1'' = ''::ffff:127.0.0.1''"
    "host_name ''::ffff:10.0.0.1'' = ''::ffff:10.0.0.1''" by code_simp+
  have d: "dotted_quad 127 0 0 1 = ''127.0.0.1''" "dotted_quad 10 0 0 1 = ''10.0.0.1''" by code_simp+
  have q: "destination_blocked (dotted_quad 127 0 0 1)" "destination_blocked (dotted_quad 10 0 0 1)"
    using parse_quad quad_blocked [of 127 0 0 1] quad_blocked [of 10 0 0 1] by (simp_all add: internal_quad_def)
  have "\<not> destination_blocked ''::ffff:127.0.0.1''" "\<not> destination_blocked ''::ffff:10.0.0.1''"
    by (simp_all add: destination_blocked_def hn BLOCKED_NAMES_def METADATA_def ends_with_def ip_address_def
        v4 parse_mapped BLOCKED_NETS_def mask_eq_exp_minus_1)
  with q show ?thesis unfolding d by blast
qed

text \<open>
  The proxy opens a tunnel only to a web port of a registry or a granted host that is not
  internal, under its own name or any address it resolves to, and only for a reading method
  or CONNECT.
\<close>

theorem proxy_allows_only_granted:
  assumes "proxy_verdict env host port meth = Allow"
  shows "port \<in> {80, 443} \<and> meth \<in> {''CONNECT'', ''GET'', ''HEAD''}
     \<and> \<not> destination_blocked (host_name host)
     \<and> (\<exists>addresses. eg_resolver env (host_name host) = Some addresses
          \<and> (\<forall>a \<in> set addresses. \<not> destination_blocked a))
     \<and> (registry_host (host_name host) \<or> host_granted (eg_granted env) (host_name host))"
  using assms
  by (auto simp: proxy_verdict_def Let_def resolve_blocked_None split: if_splits)

text \<open>A deployment whose resolver knows one public address, and a fetch it allows.\<close>

definition pypi_env :: egress_env where
  "pypi_env = \<lparr>eg_store = \<lparr>emergency_tools = {}, emergency_hosts = {}, emergency_path = FileMissing,
      disk_writable = True\<rparr>, eg_registry = (\<lambda>_. None), eg_resolver = (\<lambda>_. Some [dotted_quad 151 101 0 223]),
      eg_allowlist = [], eg_ops_eval = False, eg_granted = {}\<rparr>"

lemma pypi_resolves: "resolve_blocked (eg_store pypi_env) (eg_resolver pypi_env) ''pypi.org'' = None"
proof -
  have "ip_address ''pypi.org'' = None" "host_name ''pypi.org'' = ''pypi.org''"
    "\<not> host_emergency_denied (eg_store pypi_env) ''pypi.org''"
    by code_simp+
  then show ?thesis
    by (simp add: resolve_blocked_None destination_blocked_def [of "''pypi.org''"] pypi_env_def quad_blocked
        internal_quad_def BLOCKED_NAMES_def METADATA_def ends_with_def)
qed

lemma allowed_fetch_is_contained_witness:
  "\<exists>host. \<not> destination_blocked host \<and> \<not> truthy (dict_get [(''url'', JStr ''https://pypi.org/simple'')] ''body'')"
proof -
  have u: "urlparse ''https://pypi.org/simple'' = Some (''https'', Some ''pypi.org'')" by code_simp
  have r: "registry_host ''pypi.org''" "upper ''GET'' = ''GET''" by code_simp+
  have "classify_http pypi_env [(''url'', JStr ''https://pypi.org/simple'')] ''user'' (new_turn_state ''agent'')
      = Some Allow"
    using u r pypi_resolves
    by (simp add: classify_http_def str_field_def URL_MAX_CHARS_def pypi_env_def scenario_network_hosts_def
        security_def)
  from allowed_fetch_is_contained [OF this] show ?thesis by blast
qed

lemma dotted_quad_blocked_iff_witness:
  "destination_blocked (dotted_quad 172 20 1 2) \<and> \<not> destination_blocked (dotted_quad 172 32 1 2)"
  using dotted_quad_blocked_iff [of 172 20 1 2] dotted_quad_blocked_iff [of 172 32 1 2]
  by (simp add: internal_quad_def)

lemma proxy_allows_only_granted_witness:
  "\<not> destination_blocked (host_name ''pypi.org'')"
proof -
  have "registry_host ''pypi.org''" "host_name ''pypi.org'' = ''pypi.org''" by code_simp+
  then have "proxy_verdict pypi_env ''pypi.org'' 443 ''CONNECT'' = Allow"
    using pypi_resolves by (simp add: proxy_verdict_def)
  from proxy_allows_only_granted [OF this] show ?thesis by blast
qed

end
