(* ===== verification/Gate.thy ===== *)
theory Gate
  imports Egress
begin

text \<open>
  \<open>policy/gate.py\<close>: the authorisation of one tool call, in the order the code runs its
  checks: the structural denials, the legacy path for specs without a sink, the egress
  classification, the disk quota, snapshot and matrix, the emergency and local rules, the
  scenario overlay, the detector, the permission-mode rules, and the per-call confirmations.
  Each stage is a definition; \<open>authorize\<close> composes them. The result is the block to return,
  or \<open>Pass\<close> when the handler may run, with the updated turn state and granted hosts; None
  is an exception that leaves \<open>authorize\<close>.
\<close>

section \<open>Command recognisers\<close>

text \<open>The characters \<open>\w\<close> matches, and a literal followed by the word boundary \<open>\b\<close>.\<close>

definition word_char :: "char \<Rightarrow> bool" where
  "word_char c \<longleftrightarrow> (let n = (of_char c :: nat) in
     (48 \<le> n \<and> n \<le> 57) \<or> (65 \<le> n \<and> n \<le> 90) \<or> n = 95 \<or> (97 \<le> n \<and> n \<le> 122) \<or>
     n \<in> {170, 178, 179, 181, 185, 186, 188, 189, 190} \<or>
     (192 \<le> n \<and> n \<noteq> 215 \<and> n \<noteq> 247))"

definition phrase_at :: "str \<Rightarrow> str \<Rightarrow> bool" where
  "phrase_at phrase txt \<longleftrightarrow>
     starts_with txt phrase \<and> (case drop (length phrase) txt of [] \<Rightarrow> True | c # _ \<Rightarrow> \<not> word_char c)"

definition BUILD_PHRASES :: "str list" where
  "BUILD_PHRASES = [''pytest'', ''python -m pytest'', ''python3 -m pytest'', ''go test'',
     ''cargo test'', ''cargo build'', ''cargo check'', ''cargo fmt'',
     ''npm test'', ''npm run build'', ''pnpm test'', ''pnpm run build'', ''yarn test'', ''yarn run build'',
     ''npx vitest'', ''npx jest'', ''npx eslint'', ''npx prettier'',
     ''ruff check'', ''ruff format'', ''black'', ''gofmt'', ''go fmt'', ''uv run pytest'']"

definition workspace_build_command :: "str \<Rightarrow> bool" where
  "workspace_build_command command \<longleftrightarrow> (\<exists>p \<in> set BUILD_PHRASES. phrase_at p (squeeze command))"

definition READONLY_GIT :: "str list" where
  "READONLY_GIT = [''status'', ''diff'', ''log'', ''show'']"

definition READONLY_PHRASES :: "str list" where
  "READONLY_PHRASES = map (\<lambda>s. ''git '' @ s) READONLY_GIT @
     [''ls'', ''pwd'', ''python --version'', ''python3 --version'', ''node --version'', ''go --version'']"

text \<open>\<open>git -C <path> status\<close> and its kin: the path is one word.\<close>

fun git_dash_C :: "str list \<Rightarrow> bool" where
  "git_dash_C (g # c # path # sub # rest) \<longleftrightarrow>
     g = ''git'' \<and> c = ''-C'' \<and> (\<exists>p \<in> set READONLY_GIT. phrase_at p sub)"
| "git_dash_C _ \<longleftrightarrow> False"

definition readonly_command :: "str \<Rightarrow> bool" where
  "readonly_command command \<longleftrightarrow>
     (\<exists>p \<in> set READONLY_PHRASES. phrase_at p (squeeze command)) \<or> git_dash_C (split_ws command)"

text \<open>\<open>flag\s+\S+\<close> somewhere in the text.\<close>

definition flag_here :: "str \<Rightarrow> str \<Rightarrow> bool" where
  "flag_here flag txt \<longleftrightarrow> starts_with txt flag \<and>
     (let rest = drop (length flag) txt
      in rest \<noteq> [] \<and> is_space (hd rest) \<and> dropWhile is_space rest \<noteq> [])"

fun search_flag :: "str \<Rightarrow> str \<Rightarrow> bool" where
  "search_flag flag [] \<longleftrightarrow> False"
| "search_flag flag (c # cs) \<longleftrightarrow> flag_here flag (c # cs) \<or> search_flag flag cs"

definition network_needs_approval :: "str \<Rightarrow> bool" where
  "network_needs_approval command \<longleftrightarrow>
     (let txt = strip command in
      occurs_in ''--index-url'' txt \<or> occurs_in ''--extra-index-url'' txt \<or>
      search_flag ''--registry'' txt \<or> search_flag ''-i'' txt)"

definition destructive_command :: "str \<Rightarrow> bool" where
  "destructive_command command =
     (let lowered = squeeze (lower command) in
      if occurs_in ''git reset --hard'' lowered \<or> occurs_in ''git push'' lowered then True
      else if occurs_in ''git clean'' lowered \<and> occurs_in ''-f'' lowered then True
      else occurs_in ''rm -rf'' lowered \<or> occurs_in ''rm -fr'' lowered)"

definition force_approval :: "str \<Rightarrow> dict \<Rightarrow> str" where
  "force_approval tool_name arguments =
     (if (\<exists>key \<in> set [''path'', ''new_path''].
            let raw = str_field arguments key in raw \<noteq> [] \<and> is_exec_config_path raw)
        then ''executable config''
      else if tool_name \<in> {''run_command'', ''run_tests''}
          \<and> destructive_command (str_field arguments ''command'')
        then ''destructive command''
      else [])"

fun collect_hosts :: "str list \<Rightarrow> json list \<Rightarrow> str list" where
  "collect_hosts hosts [] = hosts"
| "collect_hosts hosts (item # items) =
     (let name = host_name (py_str (py_or item (JStr [])))
      in collect_hosts (if name \<noteq> [] \<and> name \<notin> set hosts then hosts @ [name] else hosts) items)"

definition egress_hosts :: "dict \<Rightarrow> str list" where
  "egress_hosts arguments = (case dict_get arguments ''egress_hosts'' of
      JStr raw \<Rightarrow> take 8 (collect_hosts [] [JStr raw])
    | JList raw \<Rightarrow> take 8 (collect_hosts [] raw)
    | _ \<Rightarrow> [])"

section \<open>The surroundings and the result of a call\<close>

record gate_env =
  ge_fs :: filesystem
  ge_egress :: egress_env
  ge_turn_id :: str
  ge_depth :: int
  ge_disk_exceeded :: bool
  ge_user_prefixes :: "str list option"
  ge_sandbox_ready :: bool
  ge_detector_url :: str
  ge_deviation :: "str \<Rightarrow> dict \<Rightarrow> json option"
  ge_injection_setting :: str

record tool_spec =
  spec_sink :: str
  spec_requires_approval :: bool

datatype block_status = StatusError | StatusApproval

record blocked =
  b_status :: block_status
  b_summary :: str
  b_sink :: str
  b_window :: str
  b_external_source :: str
  b_from_child :: bool

datatype gate_result = Pass | Block blocked

abbreviation ge_store :: "gate_env \<Rightarrow> policy_store" where
  "ge_store env \<equiv> eg_store (ge_egress env)"

abbreviation ge_registry :: "gate_env \<Rightarrow> registry" where
  "ge_registry env \<equiv> eg_registry (ge_egress env)"

definition make_blocked :: "decision \<Rightarrow> str \<Rightarrow> str \<Rightarrow> str \<Rightarrow> turn_state \<Rightarrow> blocked" where
  "make_blocked status reason sink window state =
     (if status = Deny
      then \<lparr>b_status = StatusError, b_summary = reason, b_sink = sink, b_window = window,
            b_external_source = [], b_from_child = False\<rparr>
      else \<lparr>b_status = StatusApproval, b_summary = reason, b_sink = sink, b_window = window,
            b_external_source = last_external_tool state, b_from_child = False\<rparr>)"

definition child_or :: "blocked \<Rightarrow> int \<Rightarrow> blocked" where
  "child_or b depth = (if depth \<le> 0 \<or> b_status b = StatusError then b else b\<lparr>b_from_child := True\<rparr>)"

text \<open>
  \<open>command_is_allowlisted\<close>: the stored prefixes of the session's owner, None when there is no
  session or owner or the database fails.
\<close>

definition command_is_allowlisted :: "str list option \<Rightarrow> dict \<Rightarrow> bool" where
  "command_is_allowlisted stored arguments =
     (let command = str_field arguments ''command'' in
      if strip command = [] then False
      else (case stored of None \<Rightarrow> False
            | Some rows \<Rightarrow> (\<exists>pre \<in> set rows. command_matches_prefix command pre)))"

text \<open>The answer a child agent gets from a spec without a sink, as its escape text.\<close>

definition NEED_PARENT :: str where
  "NEED_PARENT = ''u9700 u8981 u7236 u4ee3 u7406 u6267 u884c''"

definition legacy_gate :: "gate_env \<Rightarrow> tool_spec \<Rightarrow> turn_state \<Rightarrow> str \<Rightarrow> dict \<Rightarrow> bool \<Rightarrow> str \<Rightarrow> gate_result" where
  "legacy_gate env spec state tool_name arguments granted window =
     (let memory_tainted = (tool_name = ''remember'' \<and> window = ''external'');
          needs_gate = (spec_requires_approval spec \<or> memory_tainted)
      in if \<not> needs_gate \<or> granted then Pass
         else if tool_name = ''run_command'' \<and> command_is_allowlisted (ge_user_prefixes env) arguments then Pass
         else if ge_depth env > 0
           then Block \<lparr>b_status = StatusError, b_summary = NEED_PARENT, b_sink = [], b_window = [],
                       b_external_source = [], b_from_child = False\<rparr>
         else Block (make_blocked RequireApproval ''approval required'' [] window state))"

section \<open>The stages\<close>

text \<open>Structural denials, before the sink is looked at.\<close>

definition structural_block :: "gate_env \<Rightarrow> turn_state \<Rightarrow> str \<Rightarrow> dict \<Rightarrow> str \<Rightarrow> blocked option" where
  "structural_block env state tool_name arguments window =
     (if path_escapes (ge_fs env) arguments
         \<or> \<not> scenario_path_allowed (ge_fs env) (ge_registry env) (scenario_id state) arguments
        then Some (child_or (make_blocked Deny ''path escapes the work root'' ''S5'' window state) (ge_depth env))
      else if (\<exists>key \<in> set [''path'', ''new_path'']. write_path_block (str_field arguments key))
        then Some (child_or (make_blocked Deny ''refusing to write .git/**'' ''S5'' window state) (ge_depth env))
      else if tool_emergency_denied (ge_store env) tool_name
        then Some (make_blocked Deny ''emergency denylist'' ''S5'' window state)
      else None)"

text \<open>Destination and disk quota. The egress decision is None for every tool but http_fetch.\<close>

definition boundary_block ::
  "gate_env \<Rightarrow> turn_state \<Rightarrow> str \<Rightarrow> decision option \<Rightarrow> str \<Rightarrow> blocked option" where
  "boundary_block env state sink http_decision window =
     (if sink = ''S5'' \<or> http_decision = Some Deny
        then Some (make_blocked Deny ''destination blocked'' ''S5'' window state)
      else if sink \<in> {''S1'', ''S2''} \<and> ge_disk_exceeded env
        then Some (make_blocked Deny ''work disk quota exceeded'' ''S5'' window state)
      else None)"

definition snapshot_stage :: "gate_env \<Rightarrow> turn_state \<Rightarrow> str \<Rightarrow> dict \<Rightarrow> bool \<times> turn_state" where
  "snapshot_stage env state sink arguments =
     (if sink = ''S1''
      then (let (ok, snaps, rev) = take_snapshot (ge_fs env) (ge_turn_id env)
                  (s1_snapshots state, shadow_snapshot_id state) arguments
            in (ok, state\<lparr>s1_snapshots := snaps, shadow_snapshot_id := rev\<rparr>))
      else (True, state))"

definition matrix_stage ::
  "gate_env \<Rightarrow> turn_state \<Rightarrow> str \<Rightarrow> str \<Rightarrow> dict \<Rightarrow> str \<Rightarrow> bool \<Rightarrow> decision option \<Rightarrow> decision \<times> str" where
  "matrix_stage env state tool_name sink arguments window snapshot_ok http_decision =
     (let command = str_field arguments ''command'';
          allowlisted = (sink = ''S2'' \<and>
            (tool_name = ''run_tests'' \<or> command_is_allowlisted (ge_user_prefixes env) arguments
             \<or> scenario_command_allowed (ge_registry env) (scenario_id state) command));
          eval_command = (sink = ''S2'' \<and> ops_eval state \<and> eval_command_allowed command);
          ready = (sink = ''S2'' \<and> ge_sandbox_ready env)
      in decide (ge_store env) tool_name sink window ready allowlisted eval_command snapshot_ok
           http_decision)"

definition local_stage ::
  "gate_env \<Rightarrow> str \<Rightarrow> dict \<Rightarrow> decision \<times> str \<Rightarrow> decision \<times> str" where
  "local_stage env sink arguments d0 =
     (let d1 = (if sink = ''S2'' \<and> command_emergency_denied (ge_store env) (str_field arguments ''command'')
                then (Deny, ''emergency denylist'') else d0)
      in if local_tighten arguments = Some Deny then (Deny, ''local rule'')
         else if local_tighten arguments = Some RequireApproval \<and> fst d1 = Allow
           then (RequireApproval, ''local rule'')
         else d1)"

definition overlay_stage ::
  "gate_env \<Rightarrow> turn_state \<Rightarrow> str \<Rightarrow> str \<Rightarrow> str \<Rightarrow> decision \<times> str \<Rightarrow> decision \<times> str" where
  "overlay_stage env state tool_name sink window d0 =
     (let overlaid = apply_overlay (ge_registry env) (fst d0) sink (scenario_id state) tool_name window
      in if overlaid \<noteq> fst d0 then (overlaid, ''scenario policy'') else d0)"

definition detector_stage ::
  "gate_env \<Rightarrow> turn_state \<Rightarrow> str \<Rightarrow> dict \<Rightarrow> decision \<times> str \<Rightarrow> ((decision \<times> str) \<times> turn_state) option" where
  "detector_stage env state sink arguments d0 =
     (if sink \<in> {''S3'', ''S4''} \<and> fst d0 \<noteq> Deny then
        (case check_deviation (ge_detector_url env) (ge_deviation env) (turn_user_text state) arguments of
           None \<Rightarrow> None
         | Some sig \<Rightarrow>
             let state1 = (if sig = SigUnavailable then raise_window state ''external'' else state);
                 own = scenario_detector_mode (ge_registry env) (scenario_id state);
                 mode = (if own \<noteq> [] then own else injection_mode (ge_injection_setting env));
                 tightened = tighten (fst d0) sig mode
             in Some (if tightened \<noteq> fst d0 then (tightened, ''detector tightened'') else d0, state1))
      else Some (d0, state))"

definition effective_mode :: "turn_state \<Rightarrow> str" where
  "effective_mode state = (if permission_mode state = [] then ''ask'' else permission_mode state)"

text \<open>The rules that turn a require_approval into an allow.\<close>

definition permission_stage ::
  "gate_env \<Rightarrow> turn_state \<Rightarrow> str \<Rightarrow> str \<Rightarrow> str \<Rightarrow> decision \<times> str \<Rightarrow> decision \<times> str" where
  "permission_stage env state sink forced command d0 =
     (let mode = effective_mode state;
          shadow_ok = (shadow_snapshot_id state \<noteq> []);
          asked = (fst d0 = RequireApproval)
      in if mode = ''ask'' \<and> s1_granted_this_turn state \<and> shadow_ok \<and> sink = ''S1'' \<and> asked \<and> forced = []
           then (Allow, ''ask sticky write'')
         else if mode = ''auto_edit'' \<and> shadow_ok \<and> sink = ''S1'' \<and> asked \<and> forced = []
           then (Allow, ''auto_edit with rollback'')
         else if mode = ''full_auto'' \<and> sink = ''S1'' \<and> shadow_ok \<and> asked \<and> forced = []
           then (Allow, ''full_auto with rollback'')
         else if sink = ''S2'' \<and> asked \<and> forced = [] \<and> workspace_build_command command
             \<and> \<not> network_needs_approval command
           then (if ge_sandbox_ready env \<and> \<not> eg_ops_eval (ge_egress env) \<and> \<not> ops_eval state
                 then (Allow, ''workspace build or test'') else d0)
         else if mode = ''ask'' \<and> s2_granted_this_turn state \<and> sink = ''S2'' \<and> asked \<and> forced = []
             \<and> \<not> network_needs_approval command
           then (Allow, ''ask sticky command'')
         else if mode = ''full_auto'' \<and> sink = ''S2'' \<and> asked \<and> forced = []
             \<and> \<not> network_needs_approval command
           then (Allow, ''full_auto workspace command'')
         else if readonly_command command \<and> asked \<and> sink = ''S2''
           then (Allow, ''readonly command'')
         else d0)"

text \<open>Egress hosts and the sandbox relaxation ask again for every call.\<close>

definition per_call_stage :: "dict \<Rightarrow> bool \<Rightarrow> decision \<times> str \<Rightarrow> decision \<times> str" where
  "per_call_stage arguments granted d0 =
     (let d1 = (if egress_hosts arguments \<noteq> [] \<and> \<not> granted
                then (RequireApproval, ''egress host'') else d0)
      in if truthy (dict_get arguments ''sandbox_relax'') \<and> \<not> granted \<and> fst d1 = Allow
         then (RequireApproval, ''sandbox relax'') else d1)"

text \<open>The last step: pass, record the sticky grants, or build the block.\<close>

definition final_stage ::
  "gate_env \<Rightarrow> turn_state \<Rightarrow> str \<Rightarrow> str \<Rightarrow> dict \<Rightarrow> bool \<Rightarrow> str \<Rightarrow> decision \<times> str
     \<Rightarrow> gate_result \<times> turn_state \<times> str set" where
  "final_stage env state sink window arguments granted forced d0 =
     (let hosts = eg_granted (ge_egress env);
          command = str_field arguments ''command'';
          block = (\<lambda>(d, reason). (Block (child_or (make_blocked d reason sink window state) (ge_depth env)),
                                   state, hosts))
      in if fst d0 = Allow \<or> (fst d0 = RequireApproval \<and> granted) then
           (if forced \<noteq> [] \<and> \<not> granted then block (RequireApproval, forced)
            else let hosts' = (if granted \<and> egress_hosts arguments \<noteq> []
                       then grant_hosts hosts (egress_hosts arguments) else hosts);
                     sticky = (granted \<and> effective_mode state = ''ask'');
                     state1 = (if sticky \<and> sink = ''S1''
                       then state\<lparr>s1_granted_this_turn := True\<rparr> else state);
                     state2 = (if sticky \<and> sink = ''S2'' \<and> forced = [] \<and> egress_hosts arguments = []
                         \<and> \<not> network_needs_approval command
                       then state1\<lparr>s2_granted_this_turn := True\<rparr> else state1)
                 in (Pass, state2, hosts'))
         else block d0)"

section \<open>authorize\<close>

text \<open>The decision a call with a sink reaches after the permission and per-call rules.\<close>

definition gate_decision ::
  "gate_env \<Rightarrow> turn_state \<Rightarrow> str \<Rightarrow> str \<Rightarrow> dict \<Rightarrow> bool \<Rightarrow> str \<Rightarrow> decision option
     \<Rightarrow> ((decision \<times> str) \<times> turn_state) option" where
  "gate_decision env state tool_name sink arguments granted window http_decision =
     (let (snapshot_ok, state1) = snapshot_stage env state sink arguments;
          d1 = matrix_stage env state1 tool_name sink arguments window snapshot_ok http_decision;
          d2 = local_stage env sink arguments d1;
          d3 = overlay_stage env state1 tool_name sink window d2
      in case detector_stage env state1 sink arguments d3 of
           None \<Rightarrow> None
         | Some (d4, state2) \<Rightarrow>
             let forced = force_approval tool_name arguments;
                 d5 = permission_stage env state2 sink forced (str_field arguments ''command'') d4
             in Some (per_call_stage arguments granted d5, state2))"

definition authorize ::
  "gate_env \<Rightarrow> tool_spec \<Rightarrow> turn_state \<Rightarrow> str \<Rightarrow> dict \<Rightarrow> bool
     \<Rightarrow> (gate_result \<times> turn_state \<times> str set) option" where
  "authorize env spec state tool_name arguments granted =
     (let window = effective_window state;
          sink = spec_sink spec;
          hosts = eg_granted (ge_egress env)
      in case structural_block env state tool_name arguments window of
           Some b \<Rightarrow> Some (Block b, state, hosts)
         | None \<Rightarrow>
             if sink = [] then Some (legacy_gate env spec state tool_name arguments granted window, state, hosts)
             else (case (if tool_name = ''http_fetch''
                         then map_option Some (classify_http (ge_egress env) arguments window state)
                         else Some None) of
                None \<Rightarrow> None
              | Some http_decision \<Rightarrow>
                  (case boundary_block env state sink http_decision window of
                     Some b \<Rightarrow> Some (Block b, state, hosts)
                   | None \<Rightarrow>
                       (case gate_decision env state tool_name sink arguments granted window http_decision of
                          None \<Rightarrow> None
                        | Some (d, state') \<Rightarrow>
                            Some (final_stage env state' sink window arguments granted
                                    (force_approval tool_name arguments) d)))))"

end
