(* ===== verification/GateSafety.thy ===== *)
theory GateSafety
  imports Gate
begin

text \<open>
  What \<open>authorize\<close> guarantees. First each stage: a denial survives it, and what an allow
  that comes out of it says about what went in. Then the properties of whole calls.
\<close>

section \<open>Denials survive every stage\<close>

lemma local_stage_deny: "fst d = Deny \<Longrightarrow> fst (local_stage env sink args d) = Deny"
  by (auto simp: local_stage_def Let_def)

lemma local_stage_tightens: "fst d \<le> fst (local_stage env sink args d)"
  by (auto simp: local_stage_def Let_def)

lemma overlay_stage_tightens: "fst d \<le> fst (overlay_stage env st tool sink w d)"
  using overlay.tightens [of "fst d" "ge_registry env" sink "scenario_id st" tool w]
  by (simp add: overlay_stage_def Let_def)

lemma detector_stage_tightens:
  "detector_stage env st sink args d = Some (d', st') \<Longrightarrow> fst d \<le> fst d'"
  by (auto simp: detector_stage_def Let_def detector.tightens split: if_splits option.splits)

lemma permission_stage_deny: "fst d = Deny \<Longrightarrow> permission_stage env st sink forced cmd d = d"
  by (auto simp: permission_stage_def Let_def)

lemma permission_stage_other_sink:
  "sink \<notin> {''S1'', ''S2''} \<Longrightarrow> permission_stage env st sink forced cmd d = d"
  by (auto simp: permission_stage_def Let_def)

lemma per_call_deny:
  "fst d = Deny \<Longrightarrow> fst (per_call_stage args granted d)
     = (if egress_hosts args \<noteq> [] \<and> \<not> granted then RequireApproval else Deny)"
  by (auto simp: per_call_stage_def Let_def)

lemma per_call_allow: "fst (per_call_stage args granted d) = Allow \<Longrightarrow> fst d = Allow"
  by (auto simp: per_call_stage_def Let_def split: if_splits)

lemma per_call_pass:
  assumes "fst (per_call_stage args granted d) = Allow
      \<or> fst (per_call_stage args granted d) = RequireApproval \<and> granted"
  shows "fst d \<noteq> Deny"
  using assms by (auto simp: per_call_stage_def Let_def split: if_splits)

lemma deny_le_trans: "d \<le> d' \<Longrightarrow> d = Deny \<Longrightarrow> d' = (Deny::decision)"
  by simp

lemma final_stage_Pass:
  assumes "final_stage env st sink w args granted forced d = (Pass, st', hosts')"
  shows "fst d = Allow \<or> fst d = RequireApproval \<and> granted" and "forced \<noteq> [] \<Longrightarrow> granted"
  using assms by (auto simp: final_stage_def Let_def split: if_splits prod.splits)

section \<open>The shape of a passing call\<close>

lemma authorize_PassE:
  assumes "authorize env spec st tool args granted = Some (Pass, st', hosts')"
    and "spec_sink spec \<noteq> []"
  obtains h d st1 where
    "structural_block env st tool args (effective_window st) = None"
    and "tool = ''http_fetch'' \<Longrightarrow> classify_http (ge_egress env) args (effective_window st) st = h"
    and "tool = ''http_fetch'' \<longleftrightarrow> h \<noteq> None"
    and "boundary_block env st (spec_sink spec) h (effective_window st) = None"
    and "gate_decision env st tool (spec_sink spec) args granted (effective_window st) h = Some (d, st1)"
    and "final_stage env st1 (spec_sink spec) (effective_window st) args granted
           (force_approval tool args) d = (Pass, st', hosts')"
proof -
  let ?w = "effective_window st" and ?s = "spec_sink spec"
  from assms have s: "structural_block env st tool args ?w = None"
    by (auto simp: authorize_def Let_def split: option.splits)
  have main: "\<exists>d st1. boundary_block env st ?s h ?w = None
      \<and> gate_decision env st tool ?s args granted ?w h = Some (d, st1)
      \<and> final_stage env st1 ?s ?w args granted (force_approval tool args) d = (Pass, st', hosts')"
    if "(if tool = ''http_fetch'' then map_option Some (classify_http (ge_egress env) args ?w st)
         else Some None) = Some h" for h
    using assms s that by (auto simp: authorize_def Let_def split: option.splits prod.splits)
  show thesis
  proof (cases "tool = ''http_fetch''")
    case True
    with assms s obtain h where h: "classify_http (ge_egress env) args ?w st = Some h"
      by (auto simp: authorize_def Let_def split: option.splits)
    with True main [of "Some h"] that [of "Some h"] s show thesis by auto
  next
    case False
    with main [of None] that [of None] s show thesis by auto
  qed
qed

text \<open>The decision the matrix takes inside \<open>authorize\<close>.\<close>

definition matrix_decision ::
  "gate_env \<Rightarrow> turn_state \<Rightarrow> str \<Rightarrow> str \<Rightarrow> dict \<Rightarrow> decision option \<Rightarrow> decision" where
  "matrix_decision env st tool sink args h =
     (let (ok, st1) = snapshot_stage env st sink args
      in fst (matrix_stage env st1 tool sink args (effective_window st) ok h))"

lemma gate_decision_chain:
  assumes "gate_decision env st tool sink args granted (effective_window st) h = Some (d, st2)"
  obtains d2 d4 where
    "matrix_decision env st tool sink args h \<le> d2"
    and "local_tighten args = Some Deny \<Longrightarrow> d2 = Deny"
    and "sink = ''S2'' \<Longrightarrow> command_emergency_denied (ge_store env) (str_field args ''command'') \<Longrightarrow> d2 = Deny"
    and "d2 \<le> fst d4"
    and "d = per_call_stage args granted
          (permission_stage env st2 sink (force_approval tool args) (str_field args ''command'') d4)"
proof -
  obtain ok st1 where snap: "snapshot_stage env st sink args = (ok, st1)" by fastforce
  let ?d1 = "matrix_stage env st1 tool sink args (effective_window st) ok h"
  let ?d2 = "local_stage env sink args ?d1"
  let ?d3 = "overlay_stage env st1 tool sink (effective_window st) ?d2"
  from assms snap obtain d4 where d4: "detector_stage env st1 sink args ?d3 = Some (d4, st2)"
      and d: "d = per_call_stage args granted
          (permission_stage env st2 sink (force_approval tool args) (str_field args ''command'') d4)"
    by (auto simp: gate_decision_def Let_def split: option.splits)
  have "fst ?d1 \<le> fst ?d2" by (rule local_stage_tightens)
  moreover have "fst ?d2 \<le> fst d4"
    using overlay_stage_tightens detector_stage_tightens [OF d4] by (rule order_trans)
  moreover have "local_tighten args = Some Deny \<Longrightarrow> fst ?d2 = Deny"
    by (simp add: local_stage_def Let_def)
  moreover have "sink = ''S2'' \<Longrightarrow> command_emergency_denied (ge_store env) (str_field args ''command'')
      \<Longrightarrow> fst ?d2 = Deny"
    by (simp add: local_stage_def Let_def)
  moreover have "matrix_decision env st tool sink args h = fst ?d1"
    by (simp add: matrix_decision_def snap)
  ultimately show thesis
    using that [of "fst ?d2" d4] d by metis
qed

lemma passing_not_denied:
  assumes "gate_decision env st tool sink args granted (effective_window st) h = Some (d, st2)"
    and "fst d = Allow \<or> fst d = RequireApproval \<and> granted"
  shows "matrix_decision env st tool sink args h \<noteq> Deny"
    and "local_tighten args \<noteq> Some Deny"
    and "sink = ''S2'' \<Longrightarrow> \<not> command_emergency_denied (ge_store env) (str_field args ''command'')"
proof -
  obtain d2 d4 where c: "matrix_decision env st tool sink args h \<le> d2"
    "local_tighten args = Some Deny \<Longrightarrow> d2 = Deny"
    "sink = ''S2'' \<Longrightarrow> command_emergency_denied (ge_store env) (str_field args ''command'') \<Longrightarrow> d2 = Deny"
    "d2 \<le> fst d4"
    and d: "d = per_call_stage args granted
          (permission_stage env st2 sink (force_approval tool args) (str_field args ''command'') d4)"
    using gate_decision_chain [OF assms(1)] by metis
  have "fst d4 \<noteq> Deny"
  proof
    assume deny: "fst d4 = Deny"
    then have "d = per_call_stage args granted d4"
      by (simp add: d permission_stage_deny)
    with deny assms(2) per_call_pass show False by blast
  qed
  then have "d2 \<noteq> Deny" using c(4) deny_le_trans by blast
  then show "matrix_decision env st tool sink args h \<noteq> Deny"
    and "local_tighten args \<noteq> Some Deny"
    and "sink = ''S2'' \<Longrightarrow> \<not> command_emergency_denied (ge_store env) (str_field args ''command'')"
    using c(1-3) deny_le_trans by blast+
qed

lemma structural_None:
  "structural_block env st tool args w = None \<longleftrightarrow>
     \<not> path_escapes (ge_fs env) args
     \<and> scenario_path_allowed (ge_fs env) (ge_registry env) (scenario_id st) args
     \<and> \<not> write_path_block (str_field args ''path'') \<and> \<not> write_path_block (str_field args ''new_path'')
     \<and> \<not> tool_emergency_denied (ge_store env) tool"
  by (auto simp: structural_block_def)

lemma boundary_None:
  "boundary_block env st sink h w = None \<longleftrightarrow>
     sink \<noteq> ''S5'' \<and> h \<noteq> Some Deny \<and> \<not> (sink \<in> {''S1'', ''S2''} \<and> ge_disk_exceeded env)"
  by (auto simp: boundary_block_def)

lemma matrix_not_deny:
  assumes "matrix_decision env st tool sink args h \<noteq> Deny"
  shows "sink \<noteq> ''S0'' \<Longrightarrow> \<not> policy_unreadable (ge_store env)"
    and "sink = ''S2'' \<Longrightarrow> ge_sandbox_ready env"
    and "sink \<in> {''S0'', ''S1'', ''S2'', ''S3'', ''S4''}"
  using assms decide_unreadable
  by (auto simp: matrix_decision_def matrix_stage_def decide_def Let_def split: prod.splits if_splits)




section \<open>Properties of a call\<close>

text \<open>
  C2: no approval overrides a structural control. When a call of a tool with a sink class passes
  the gate, with or without a user's grant, then its path stays inside the Work root and the
  scenario's prefixes, the text of neither path argument begins with \<open>.git\<close> (a comparison of
  texts, see \<open>git_rule_compares_texts\<close>), the tool is not on the emergency
  list, the emergency file was readable unless the tool only reads, a write or command finds
  disk space, a command runs in a ready sandbox and matches no emergency command, and no
  wipe marker occurs in it. An undeclared sink never passes.
\<close>

theorem gate_pass_structural:
  assumes "authorize env spec st tool args granted = Some (Pass, st', hosts')"
    and "spec_sink spec \<noteq> []"
  shows "\<not> path_escapes (ge_fs env) args
    \<and> scenario_path_allowed (ge_fs env) (ge_registry env) (scenario_id st) args
    \<and> \<not> write_path_block (str_field args ''path'') \<and> \<not> write_path_block (str_field args ''new_path'')
    \<and> \<not> tool_emergency_denied (ge_store env) tool
    \<and> spec_sink spec \<in> {''S0'', ''S1'', ''S2'', ''S3'', ''S4''}
    \<and> (spec_sink spec = ''S0'' \<or> \<not> policy_unreadable (ge_store env))
    \<and> local_tighten args \<noteq> Some Deny
    \<and> (spec_sink spec \<notin> {''S1'', ''S2''} \<or> \<not> ge_disk_exceeded env)
    \<and> (spec_sink spec \<noteq> ''S2'' \<or> ge_sandbox_ready env
         \<and> \<not> command_emergency_denied (ge_store env) (str_field args ''command''))"
proof -
  obtain h d st1 where
    s: "structural_block env st tool args (effective_window st) = None"
    and b: "boundary_block env st (spec_sink spec) h (effective_window st) = None"
    and g: "gate_decision env st tool (spec_sink spec) args granted (effective_window st) h = Some (d, st1)"
    and f: "final_stage env st1 (spec_sink spec) (effective_window st) args granted
           (force_approval tool args) d = (Pass, st', hosts')"
    using authorize_PassE [OF assms] by metis
  note pass = final_stage_Pass(1) [OF f]
  note nd = passing_not_denied [OF g pass]
  show ?thesis
    using s b nd(2,3) matrix_not_deny [OF nd(1)]
    by (auto simp: structural_None boundary_None)
qed

text \<open>
  C3: executable configuration and destructive commands, and calls that name egress hosts, are
  confirmed one by one: without a grant for this very call the gate never passes them, in
  any permission mode and whatever the sticky flags say.
\<close>

theorem forced_needs_grant:
  assumes "spec_sink spec \<noteq> []"
    and "force_approval tool args \<noteq> [] \<or> egress_hosts args \<noteq> []"
  shows "authorize env spec st tool args False \<noteq> Some (Pass, st', hosts')"
proof
  assume p: "authorize env spec st tool args False = Some (Pass, st', hosts')"
  obtain h d st1 where
    g: "gate_decision env st tool (spec_sink spec) args False (effective_window st) h = Some (d, st1)"
    and f: "final_stage env st1 (spec_sink spec) (effective_window st) args False
           (force_approval tool args) d = (Pass, st', hosts')"
    using authorize_PassE [OF p assms(1)] by metis
  have "force_approval tool args = []" using final_stage_Pass(2) [OF f] by auto
  with assms(2) have e: "egress_hosts args \<noteq> []" by blast
  obtain d4 where "d = per_call_stage args False
          (permission_stage env st1 (spec_sink spec) (force_approval tool args) (str_field args ''command'') d4)"
    using gate_decision_chain [OF g] by metis
  with e have "fst d = RequireApproval"
    by (simp add: per_call_stage_def Let_def)
  with final_stage_Pass(1) [OF f] show False by simp
qed

text \<open>
  A memory, skill or outbound call that passes without a grant was allowed by the matrix
  itself: the permission modes and sticky flags only ever loosen writes and commands.
\<close>

theorem ungranted_S3_S4_matrix_allow:
  assumes "authorize env spec st tool args False = Some (Pass, st', hosts')"
    and "spec_sink spec \<in> {''S3'', ''S4''}"
  shows "\<exists>h. matrix_decision env st tool (spec_sink spec) args h = Allow
     \<and> (tool = ''http_fetch'' \<longleftrightarrow> h \<noteq> None)
     \<and> (tool = ''http_fetch'' \<longrightarrow> classify_http (ge_egress env) args (effective_window st) st = h)"
proof -
  from assms(2) have ne: "spec_sink spec \<noteq> []" by auto
  obtain h d st1 where
    h: "tool = ''http_fetch'' \<Longrightarrow> classify_http (ge_egress env) args (effective_window st) st = h"
      "tool = ''http_fetch'' \<longleftrightarrow> h \<noteq> None"
    and g: "gate_decision env st tool (spec_sink spec) args False (effective_window st) h = Some (d, st1)"
    and f: "final_stage env st1 (spec_sink spec) (effective_window st) args False
           (force_approval tool args) d = (Pass, st', hosts')"
    using authorize_PassE [OF assms(1) ne] by metis
  obtain d2 d4 where le: "matrix_decision env st tool (spec_sink spec) args h \<le> d2" "d2 \<le> fst d4"
    and d: "d = per_call_stage args False
          (permission_stage env st1 (spec_sink spec) (force_approval tool args) (str_field args ''command'') d4)"
    using gate_decision_chain [OF g] by metis
  have "permission_stage env st1 (spec_sink spec) (force_approval tool args) (str_field args ''command'') d4 = d4"
    using assms(2) by (intro permission_stage_other_sink) auto
  with d final_stage_Pass(1) [OF f] have "fst d4 = Allow"
    by (auto dest: per_call_allow)
  with le have "matrix_decision env st tool (spec_sink spec) args h = Allow"
    by (metis decision_order(4) order_trans)
  with h show ?thesis by blast
qed

text \<open>
  A sticky flag is only ever set by a granted call in ask mode. When a call ends with the
  command flag set that was clear before, this very call was a granted command, it passed, it
  was not a forced one, and it named no egress host.
\<close>

theorem sticky_command_flag_origin:
  assumes "authorize env spec st tool args granted = Some (res, st', hosts')"
    and "s2_granted_this_turn st'" and "\<not> s2_granted_this_turn st"
  shows "res = Pass \<and> granted \<and> spec_sink spec = ''S2'' \<and> effective_mode st = ''ask''
    \<and> force_approval tool args = [] \<and> egress_hosts args = []"
proof -
  have snap: "s2_granted_this_turn st1 = s2_granted_this_turn st
      \<and> permission_mode st1 = permission_mode st"
    if "snapshot_stage env st sink args = (ok, st1)" for ok st1 sink
    using that by (auto simp: snapshot_stage_def Let_def split: if_splits prod.splits)
  have det: "s2_granted_this_turn st2 = s2_granted_this_turn st1
      \<and> permission_mode st2 = permission_mode st1"
    if "detector_stage env st1 sink args d = Some (d', st2)" for st1 st2 sink d d'
    using that by (auto simp: detector_stage_def Let_def split: if_splits option.splits)
  have gd: "s2_granted_this_turn st2 = s2_granted_this_turn st \<and> permission_mode st2 = permission_mode st"
    if "gate_decision env st tool sink args granted w h = Some (d, st2)" for st2 sink w h d
  proof -
    obtain ok st1 where s1: "snapshot_stage env st sink args = (ok, st1)" by fastforce
    then show ?thesis
      using that snap [OF s1] by (auto simp: gate_decision_def Let_def dest!: det split: option.splits)
  qed
  have fin: "res = Pass \<and> granted \<and> sink = ''S2'' \<and> effective_mode st2 = ''ask''
      \<and> forced = [] \<and> egress_hosts args = []"
    if "final_stage env st2 sink w args granted forced d = (res, st', hosts')"
      "\<not> s2_granted_this_turn st2" for st2 sink w forced d
    using that assms(2) by (auto simp: final_stage_def Let_def split: if_splits prod.splits)
  from assms obtain h d st2 where
    g: "gate_decision env st tool (spec_sink spec) args granted (effective_window st) h = Some (d, st2)"
    and f: "final_stage env st2 (spec_sink spec) (effective_window st) args granted
           (force_approval tool args) d = (res, st', hosts')"
    by (auto simp: authorize_def Let_def split: option.splits if_splits prod.splits)
  have "\<not> s2_granted_this_turn st2" and mode: "effective_mode st2 = effective_mode st"
    using gd [OF g] assms(3) by (simp_all add: effective_mode_def)
  from fin [OF f this(1)] mode show ?thesis by simp
qed


text \<open>
  A denial that names egress hosts is reported as an approval request. The call still
  cannot pass, but the user is asked to approve what the gate has denied.
\<close>

theorem denial_with_egress_hosts_asks:
  assumes "egress_hosts args \<noteq> []"
  shows "\<exists>b. fst (final_stage env st sink w args False forced (per_call_stage args False (Deny, why))) = Block b
     \<and> b_status b = StatusApproval"
  using assms by (simp add: per_call_stage_def final_stage_def make_blocked_def child_or_def Let_def)

text \<open>
  An emergency denial of a tool takes effect on the next call. With the store that
  \<open>emergency_deny_tool\<close> leaves, even if the file could not be written, every call of
  the tool ends in an error block and changes no state, whatever the spec, the arguments and
  the grant.
\<close>

theorem emergency_deny_immediate:
  "\<exists>b. authorize (env\<lparr>ge_egress := (ge_egress env)\<lparr>eg_store := emergency_deny_tool (ge_store env) tool\<rparr>\<rparr>)
         spec st tool args granted = Some (Block b, st, eg_granted (ge_egress env))
      \<and> b_status b = StatusError"
proof -
  have "tool_emergency_denied (emergency_deny_tool s tool) tool" for s
    by (simp add: tool_emergency_denied_def emergency_deny_tool_def Let_def)
  then show ?thesis
    by (auto simp: authorize_def structural_block_def Let_def make_blocked_def child_or_def)
qed

text \<open>
  An emergency denial issued while the emergency file is unreadable replaces the file, so
  the fail-closed state ends: afterwards the policy counts as readable again, and a
  reversible write by any other tool that is not denied in process is allowed.
\<close>

theorem deny_on_unreadable_reopens:
  assumes "emergency_path s = FileUnreadable" and "disk_writable s"
    and "other \<noteq> tool" and "other \<notin> emergency_tools s"
  shows "fst (decide s other ''S1'' w r a e True None) = Deny
    \<and> fst (decide (emergency_deny_tool s tool) other ''S1'' w r a e True None) = Allow"
  using assms
  by (auto simp: decide_def policy_unreadable_def load_emergency_file_def emergency_deny_tool_def
      save_emergency_file_def tool_emergency_denied_def empty_emergency_def Let_def)

text \<open>
  After external content the model cannot write memory on its own. A \<open>remember\<close> call
  without a grant never passes while the window is external, neither through the matrix
  nor through the legacy path of a spec without a sink.
\<close>

theorem remember_after_external_blocked:
  assumes "effective_window st = ''external''" and "spec_sink spec \<in> {''S3'', []}"
  shows "authorize env spec st ''remember'' args False \<noteq> Some (Pass, st', hosts')"
proof (cases "spec_sink spec = []")
  case True
  then show ?thesis
    using assms(1) by (auto simp: authorize_def legacy_gate_def Let_def split: option.splits)
next
  case False
  with assms(2) have sink: "spec_sink spec = ''S3''" by simp
  show ?thesis
  proof
    assume "authorize env spec st ''remember'' args False = Some (Pass, st', hosts')"
    from ungranted_S3_S4_matrix_allow [OF this] sink obtain h where
      "matrix_decision env st ''remember'' ''S3'' args h = Allow" by auto
    then show False
      using assms(1) by (auto simp: matrix_decision_def matrix_stage_def decide_allow_iff Let_def
          split: prod.splits)
  qed
qed

section \<open>Concrete calls\<close>

text \<open>
  A small deployment to run calls in: Work root \<open>/ws\<close>, paths that resolve to themselves, no
  file on disk, no emergency entries, no scenario profile, a ready sandbox.
\<close>

definition sample_store :: policy_store where
  "sample_store = \<lparr>emergency_tools = {}, emergency_hosts = {}, emergency_path = FileMissing, disk_writable = True\<rparr>"

definition sample_egress :: egress_env where
  "sample_egress = \<lparr>eg_store = sample_store, eg_registry = (\<lambda>_. None), eg_resolver = (\<lambda>_. Some [''140.82.112.3'']),
     eg_allowlist = [], eg_ops_eval = False, eg_granted = {}\<rparr>"

definition sample_env :: gate_env where
  "sample_env = \<lparr>ge_fs = sample_fs, ge_egress = sample_egress, ge_turn_id = ''t1'', ge_depth = 0,
     ge_disk_exceeded = False, ge_user_prefixes = Some [''npm test''], ge_sandbox_ready = True,
     ge_detector_url = [], ge_deviation = (\<lambda>_ _. None), ge_injection_setting = ''observe''\<rparr>"

definition spec_of :: "str \<Rightarrow> tool_spec" where
  "spec_of sink = \<lparr>spec_sink = sink, spec_requires_approval = False\<rparr>"

abbreviation sample_state :: turn_state where
  "sample_state \<equiv> new_turn_state ''agent''"

lemma sample_command_run:
  "authorize sample_env (spec_of ''S2'') sample_state ''run_command''
     [(''command'', JStr ''make all'')] True
   = Some (Pass, sample_state\<lparr>s2_granted_this_turn := True\<rparr>, {})"
  by code_simp

lemma sample_remember_run:
  "authorize sample_env (spec_of ''S3'') sample_state ''remember'' [(''text'', JStr ''x'')] False
   = Some (Pass, sample_state, {})"
  by code_simp

lemma gate_pass_structural_witness:
  "authorize sample_env (spec_of ''S2'') sample_state ''run_command''
       [(''command'', JStr ''make all'')] True
     = Some (Pass, sample_state\<lparr>s2_granted_this_turn := True\<rparr>, {})
   \<and> ge_sandbox_ready sample_env"
  using sample_command_run gate_pass_structural [OF sample_command_run] by (simp add: spec_of_def)

lemma forced_needs_grant_witness:
  "authorize sample_env (spec_of ''S2'') sample_state ''run_command''
     [(''command'', JStr ''git push'')] False \<noteq> Some (Pass, sample_state, {})"
  by (rule forced_needs_grant) (simp add: spec_of_def, code_simp)

lemma ungranted_S3_S4_matrix_allow_witness:
  "\<exists>h. matrix_decision sample_env sample_state ''remember'' ''S3'' [(''text'', JStr ''x'')] h = Allow"
  using ungranted_S3_S4_matrix_allow [OF sample_remember_run] by (auto simp: spec_of_def)

lemma sticky_command_flag_origin_witness:
  "force_approval ''run_command'' [(''command'', JStr ''make all'')] = []
   \<and> effective_mode sample_state = ''ask''"
  using sticky_command_flag_origin [OF sample_command_run] by (simp add: new_turn_state_def)

lemma denial_with_egress_hosts_asks_witness:
  "\<exists>b. fst (final_stage sample_env sample_state ''S2'' ''user''
        [(''egress_hosts'', JStr ''example.org'')] False []
        (per_call_stage [(''egress_hosts'', JStr ''example.org'')] False (Deny, ''sandbox unavailable'')))
      = Block b \<and> b_status b = StatusApproval"
  by (rule denial_with_egress_hosts_asks) code_simp

lemma deny_on_unreadable_reopens_witness:
  "fst (decide (sample_store\<lparr>emergency_path := FileUnreadable\<rparr>) ''write_file'' ''S1'' ''user''
      True False False True None) = Deny
   \<and> fst (decide (emergency_deny_tool (sample_store\<lparr>emergency_path := FileUnreadable\<rparr>) ''http_fetch'')
      ''write_file'' ''S1'' ''user'' True False False True None) = Allow"
  by (rule deny_on_unreadable_reopens) (simp_all add: sample_store_def)

lemma remember_after_external_blocked_witness:
  "authorize sample_env (spec_of ''S3'') (sample_state\<lparr>saw_external := True\<rparr>) ''remember''
     [(''text'', JStr ''x'')] False \<noteq> Some (Pass, sample_state, {})"
  by (rule remember_after_external_blocked) (simp_all add: spec_of_def effective_external)


end
