(* ===== verification/ToolExecutor.thy ===== *)
theory ToolExecutor
  imports GateSafety
begin

text \<open>
  \<open>ToolExecutor.run\<close> of \<open>services/runtime/app/context/engine.py\<close> and \<open>policy/approval.py\<close>: one
  tool call from the arguments the model gave to the handler and back. The hash of the
  canonical arguments (sha256 of sorted JSON), the clock, the schema check (a third-party
  validator) and the handler are parameters. Audit records, metrics and the context
  variables bound around the handler are left out.
\<close>

section \<open>policy/approval.py\<close>

definition POLICY_VERSION :: str where
  "POLICY_VERSION = ''p1''"

record approval_grant =
  ag_tool_name :: str
  ag_tool_call_id :: str
  ag_args_hash :: str
  ag_policy_version :: str
  ag_expires_at :: "int option"

definition canonical_args_hash :: "(dict \<Rightarrow> str) \<Rightarrow> filesystem \<Rightarrow> dict \<Rightarrow> str" where
  "canonical_args_hash digest fs arguments = digest (canonicalize_arguments fs arguments)"

definition grant_matches ::
  "(dict \<Rightarrow> str) \<Rightarrow> filesystem \<Rightarrow> int \<Rightarrow> approval_grant option \<Rightarrow> str \<Rightarrow> str \<Rightarrow> dict \<Rightarrow> bool" where
  "grant_matches digest fs now grant tool_name tool_call_id arguments =
     (case grant of
        None \<Rightarrow> False
      | Some g \<Rightarrow>
          if ag_policy_version g \<noteq> POLICY_VERSION then False
          else if (case ag_expires_at g of None \<Rightarrow> False | Some t \<Rightarrow> now > t) then False
          else if ag_tool_name g \<noteq> tool_name \<or> ag_tool_call_id g \<noteq> tool_call_id then False
          else if ag_args_hash g = [] then False
          else ag_args_hash g = canonical_args_hash digest fs arguments)"

section \<open>policy/credentials.py\<close>

definition SECRET_KEYS :: "str list" where
  "SECRET_KEYS = [''authorization'', ''token'', ''api_key'', ''password'', ''secret'', ''cookie'']"

definition strip_model_secrets :: "dict \<Rightarrow> dict" where
  "strip_model_secrets arguments = filter (\<lambda>(key, value). lower key \<notin> set SECRET_KEYS) arguments"

section \<open>The executor\<close>

datatype handler_outcome = HandlerDict dict | HandlerOther json | HandlerTimeout | HandlerTypeError | HandlerFails

datatype run_result =
    ToolNotAvailable
  | InvalidArguments
  | CallBlocked blocked
  | CallResult dict
  | CallOther json
  | CallTimeout
  | CallRejected
  | CallFailed

record executor_env =
  ex_gate :: gate_env
  ex_specs :: "(str \<times> tool_spec) list"
  ex_digest :: "dict \<Rightarrow> str"
  ex_now :: int
  ex_validate :: bool
  ex_invalid :: "str \<Rightarrow> dict \<Rightarrow> bool"
  ex_handler :: "str \<Rightarrow> dict \<Rightarrow> handler_outcome"
  ex_notice :: str
  ex_signal :: "str \<Rightarrow> signal"
  ex_item_id :: str

text \<open>\<open>tier != "test"\<close> forces the schema check; the switch counts in the test tier only.\<close>

definition schema_required :: "str \<Rightarrow> bool \<Rightarrow> bool" where
  "schema_required tier switch =
     (let t = lower (strip (if tier = [] then ''dev'' else tier))
      in if t \<noteq> ''test'' then True else switch)"

text \<open>The arguments the gate sees and the arguments the handler gets.\<close>

definition call_arguments :: "executor_env \<Rightarrow> str \<Rightarrow> dict \<Rightarrow> dict \<times> dict" where
  "call_arguments ex tool_name raw_args =
     (let call_args = canonicalize_arguments (ge_fs (ex_gate ex)) raw_args
      in if tool_name = ''http_fetch'' then (strip_model_secrets call_args, strip_model_secrets raw_args)
         else (call_args, raw_args))"

text \<open>After the gate: the handler and the ingress of its result.\<close>

definition run_handler ::
  "executor_env \<Rightarrow> str \<Rightarrow> dict \<Rightarrow> turn_state \<Rightarrow> run_result \<times> turn_state" where
  "run_handler ex tool_name raw_args state =
     (case ex_handler ex tool_name raw_args of
        HandlerDict result \<Rightarrow>
          (let (result', state', body) = apply_ingress (ex_notice ex)
                 (injection_mode (ge_injection_setting (ex_gate ex))) (ex_signal ex) (ex_item_id ex)
                 tool_name result state
           in (CallResult result', state'))
      | HandlerOther v \<Rightarrow> (CallOther v, state)
      | HandlerTimeout \<Rightarrow> (CallTimeout, state)
      | HandlerTypeError \<Rightarrow> (CallRejected, state)
      | HandlerFails \<Rightarrow> (CallFailed, state))"

text \<open>
  \<open>run\<close>: the result and the turn state; None is an exception from the gate, which lies
  outside the handler's try block.
\<close>

definition executor_run ::
  "executor_env \<Rightarrow> str \<Rightarrow> str \<Rightarrow> dict \<Rightarrow> turn_state \<Rightarrow> approval_grant option
     \<Rightarrow> (run_result \<times> turn_state) option" where
  "executor_run ex tool_name tool_call_id raw_args state approval =
     (case map_of (ex_specs ex) tool_name of
        None \<Rightarrow> Some (ToolNotAvailable, state)
      | Some spec \<Rightarrow>
          let state1 = note_external_tool state tool_name;
              (call_args, handler_args) = call_arguments ex tool_name raw_args
          in if ex_validate ex \<and> ex_invalid ex tool_name call_args
             then Some (InvalidArguments, state1)
             else let granted = grant_matches (ex_digest ex) (ge_fs (ex_gate ex)) (ex_now ex) approval
                        tool_name tool_call_id call_args
                  in (case authorize (ex_gate ex) spec state1 tool_name call_args granted of
                        None \<Rightarrow> None
                      | Some (Block b, state2, hosts) \<Rightarrow> Some (CallBlocked b, state2)
                      | Some (Pass, state2, hosts) \<Rightarrow> Some (run_handler ex tool_name handler_args state2)))"

section \<open>Facts\<close>

definition handled :: "run_result \<Rightarrow> bool" where
  "handled r \<longleftrightarrow> (case r of CallResult _ \<Rightarrow> True | CallOther _ \<Rightarrow> True | CallTimeout \<Rightarrow> True
     | CallRejected \<Rightarrow> True | CallFailed \<Rightarrow> True | _ \<Rightarrow> False)"

lemma run_handler_handled: "handled (fst (run_handler ex t args st))"
  by (auto simp: run_handler_def handled_def split: handler_outcome.splits prod.splits)

text \<open>The gate call inside \<open>run\<close>, and the three ways a call of a known tool ends.\<close>

definition executor_gate ::
  "executor_env \<Rightarrow> tool_spec \<Rightarrow> str \<Rightarrow> str \<Rightarrow> dict \<Rightarrow> turn_state \<Rightarrow> approval_grant option
     \<Rightarrow> (gate_result \<times> turn_state \<times> str set) option" where
  "executor_gate ex spec tool cid raw st approval =
     (let args = fst (call_arguments ex tool raw) in
      authorize (ex_gate ex) spec (note_external_tool st tool) tool args
        (grant_matches (ex_digest ex) (ge_fs (ex_gate ex)) (ex_now ex) approval tool cid args))"

lemma executor_run_gate:
  assumes "map_of (ex_specs ex) tool = Some spec"
  shows "executor_run ex tool cid raw st approval =
     (if ex_validate ex \<and> ex_invalid ex tool (fst (call_arguments ex tool raw))
      then Some (InvalidArguments, note_external_tool st tool)
      else (case executor_gate ex spec tool cid raw st approval of
              None \<Rightarrow> None
            | Some (g, st2, hosts) \<Rightarrow>
                (case g of Block b \<Rightarrow> Some (CallBlocked b, st2)
                 | Pass \<Rightarrow> Some (run_handler ex tool (snd (call_arguments ex tool raw)) st2))))"
proof -
  obtain args hargs where ca: "call_arguments ex tool raw = (args, hargs)" by fastforce
  show ?thesis
    by (simp add: executor_run_def executor_gate_def assms ca Let_def
        split: option.split prod.split gate_result.split)
qed

lemma executor_handledE:
  assumes "executor_run ex tool cid raw st approval = Some (r, st')" and "handled r"
  obtains spec st2 hosts where "map_of (ex_specs ex) tool = Some spec"
    and "executor_gate ex spec tool cid raw st approval = Some (Pass, st2, hosts)"
    and "(r, st') = run_handler ex tool (snd (call_arguments ex tool raw)) st2"
proof (cases "map_of (ex_specs ex) tool")
  case None
  with assms show thesis by (simp add: executor_run_def handled_def)
next
  case (Some spec)
  note eq = executor_run_gate [OF Some, of cid raw st approval]
  show thesis
  proof (cases "executor_gate ex spec tool cid raw st approval")
    case None
    with assms eq show thesis by (simp add: handled_def split: if_splits)
  next
    case gate: (Some x)
    obtain g st2 hosts where x: "x = (g, st2, hosts)" by (cases x) auto
    show thesis
    proof (cases g)
      case Pass
      with assms eq gate x Some that show thesis by (auto simp: handled_def split: if_splits)
    next
      case (Block b)
      with assms eq gate x show thesis by (auto simp: handled_def split: if_splits)
    qed
  qed
qed

lemma grant_matchesD:
  assumes "grant_matches digest fs now grant tool cid args"
  obtains g where "grant = Some g" "ag_tool_name g = tool" "ag_tool_call_id g = cid"
    "ag_policy_version g = POLICY_VERSION" "ag_args_hash g = canonical_args_hash digest fs args"
    "ag_args_hash g \<noteq> []" "\<forall>t. ag_expires_at g = Some t \<longrightarrow> now \<le> t"
proof (cases grant)
  case None
  with assms show thesis by (simp add: grant_matches_def)
next
  case (Some g)
  show thesis
  proof (rule that [OF Some])
    show "\<forall>t. ag_expires_at g = Some t \<longrightarrow> now \<le> t"
      using assms Some by (auto simp: grant_matches_def split: if_splits)
  qed (use assms Some in \<open>simp_all add: grant_matches_def split: if_splits\<close>)
qed

lemma effective_window_note_external:
  "tool \<in> set EXTERNAL_TOOL_NAMES \<Longrightarrow> effective_window (note_external_tool st tool) = ''external''"
proof -
  assume t: "tool \<in> set EXTERNAL_TOOL_NAMES"
  have "effective_window (s\<lparr>last_external_tool := n\<rparr>) = effective_window s" for s n
    by (simp add: effective_window_def)
  then show ?thesis using t by (simp add: note_external_tool_def)
qed

lemma note_external_rank:
  "taint_rank (effective_window st) \<le> taint_rank (effective_window (note_external_tool st tool))"
proof -
  have "effective_window (s\<lparr>last_external_tool := n\<rparr>) = effective_window s" for s n
    by (simp add: effective_window_def)
  then show ?thesis
    using raise_window_rank [of st "''external''"] by (simp add: note_external_tool_def)
qed

section \<open>The window over a call\<close>

lemma snapshot_stage_window:
  "effective_window (snd (snapshot_stage env st sink args)) = effective_window st"
  by (auto simp: snapshot_stage_def effective_window_def Let_def split: prod.splits)

lemma detector_stage_window:
  "detector_stage env st sink args d = Some (d', st')
     \<Longrightarrow> taint_rank (effective_window st) \<le> taint_rank (effective_window st')"
  using raise_window_rank [of st "''external''"]
  by (auto simp: detector_stage_def Let_def split: if_splits option.splits)

lemma final_stage_window:
  "final_stage env st sink w args granted forced d = (r, st', hosts)
     \<Longrightarrow> effective_window st' = effective_window st"
  by (auto simp: final_stage_def effective_window_def Let_def split: if_splits prod.splits)

lemma gate_decision_window:
  assumes "gate_decision env st tool sink args granted w h = Some (d, st')"
  shows "taint_rank (effective_window st) \<le> taint_rank (effective_window st')"
proof -
  obtain ok st1 where s1: "snapshot_stage env st sink args = (ok, st1)" by fastforce
  with snapshot_stage_window [of env st sink args] have "effective_window st1 = effective_window st"
    by simp
  with assms s1 show ?thesis
    by (auto simp: gate_decision_def Let_def dest!: detector_stage_window split: option.splits)
qed

lemma authorize_window:
  assumes "authorize env spec st tool args granted = Some (r, st', hosts)"
  shows "taint_rank (effective_window st) \<le> taint_rank (effective_window st')"
  using assms
  by (auto simp: authorize_def Let_def split: option.splits if_splits prod.splits
      dest!: gate_decision_window final_stage_window)

lemma run_handler_window:
  "taint_rank (effective_window st) \<le> taint_rank (effective_window (snd (run_handler ex t args st)))"
proof (cases "ex_handler ex t args")
  case (HandlerDict result)
  obtain a b c where ing: "apply_ingress (ex_notice ex)
      (injection_mode (ge_injection_setting (ex_gate ex))) (ex_signal ex) (ex_item_id ex) t result st = (a, b, c)"
    by (metis prod_cases3)
  show ?thesis
    using ingress_rank [of st "ex_notice ex" "injection_mode (ge_injection_setting (ex_gate ex))"
        "ex_signal ex" "ex_item_id ex" t result]
    by (simp add: run_handler_def HandlerDict ing)
qed (simp_all add: run_handler_def)

section \<open>Absolute paths and the executable configuration\<close>

lemma rstrip_Cons_solid: "\<not> is_space c \<Longrightarrow> rstrip (c # xs) = c # rstrip xs"
proof -
  assume c: "\<not> is_space c"
  have "dropWhile is_space (ys @ [c]) = dropWhile is_space ys @ [c]" for ys
    using c by (induction ys) auto
  then show ?thesis by (simp add: rstrip_def)
qed

lemma prefix_rstrip: "prefix (rstrip s) s"
proof -
  have "s = rstrip s @ rev (takeWhile is_space (rev s))"
    by (metis rev_append rev_rev_ident rstrip_def takeWhile_dropWhile_id)
  then show ?thesis by (metis prefixI)
qed

lemma rstrip_slash: "\<exists>ys. rstrip (CHR ''/'' # c # xs) = CHR ''/'' # ys \<and> (ys = [] \<or> hd ys = c)"
proof (intro exI conjI)
  show "rstrip (CHR ''/'' # c # xs) = CHR ''/'' # rstrip (c # xs)"
    by (rule rstrip_Cons_solid) (simp add: is_space_def)
  show "rstrip (c # xs) = [] \<or> hd (rstrip (c # xs)) = c"
    using prefix_rstrip [of "c # xs"] by (cases "rstrip (c # xs)") auto
qed

lemma normalized_absolute:
  assumes "c \<noteq> CHR ''/''"
  shows "normalized_workspace_rel (CHR ''/'' # c # xs) = []
     \<or> hd (normalized_workspace_rel (CHR ''/'' # c # xs)) = (if c = backslash then CHR ''/'' else c)"
proof -
  have "lstrip (CHR ''/'' # c # xs) = CHR ''/'' # c # xs"
    by (simp add: lstrip_def is_space_def)
  moreover obtain ys where "rstrip (CHR ''/'' # c # xs) = CHR ''/'' # ys" "ys = [] \<or> hd ys = c"
    using rstrip_slash by blast
  ultimately have "lstrip_chars ''/'' (strip (CHR ''/'' # c # xs)) = ys"
    using assms by (cases ys) (auto simp: strip_def lstrip_chars_def)
  then show ?thesis
    using \<open>ys = [] \<or> hd ys = c\<close> by (cases ys) (auto simp: normalized_workspace_rel_def replace_char_def)
qed

lemma absolute_not_exec_config:
  assumes "c \<noteq> CHR ''/''" "c \<noteq> CHR ''.''" "c \<noteq> CHR ''p''"
  shows "\<not> is_exec_config_path (CHR ''/'' # c # xs)"
  using normalized_absolute [OF assms(1), of xs] assms
  by (cases "normalized_workspace_rel (CHR ''/'' # c # xs)")
    (auto simp: is_exec_config_path_def Let_def starts_with_def split: if_splits)

lemma path_str_first: "\<exists>xs. path_str ((c # w) # r) = CHR ''/'' # c # xs"
  by (cases r) (simp_all add: path_str_def)

lemma call_path_absolute:
  assumes "fs_root (ge_fs (ex_gate ex)) = Some ((c # w) # root)"
    and "fs_resolve (ge_fs (ex_gate ex)) (path_under ((c # w) # root) raw) = Some (((c # w) # root) @ rel)"
    and "strip raw \<noteq> []"
  obtains xs where "fst (call_arguments ex tool [(''path'', JStr raw)]) = [(''path'', JStr (CHR ''/'' # c # xs))]"
proof -
  obtain xs where p: "path_str (((c # w) # root) @ rel) = CHR ''/'' # c # xs"
    using path_str_first [of c w "root @ rel"] by auto
  have "canonical_path (ge_fs (ex_gate ex)) raw = Some (CHR ''/'' # c # xs)"
    using assms(1,2) p by (simp add: canonical_path_def)
  then have "canonicalize_arguments (ge_fs (ex_gate ex)) [(''path'', JStr raw)] = [(''path'', JStr (CHR ''/'' # c # xs))]"
    using assms(3) by (simp add: canonicalize_arguments_def canonical_key_def)
  then show thesis
    by (intro that)
      (simp add: call_arguments_def Let_def strip_model_secrets_def SECRET_KEYS_def lower_def lower_char_def)
qed

lemma absolute_not_git:
  assumes "c \<noteq> CHR ''/''" "c \<noteq> CHR ''.''"
  shows "\<not> write_path_block (CHR ''/'' # c # xs)"
  using normalized_absolute [OF assms(1), of xs] assms
  by (cases "normalized_workspace_rel (CHR ''/'' # c # xs)")
    (auto simp: write_path_block_def Let_def starts_with_def split: if_splits)


section \<open>Properties\<close>

lemma executor_window_rises:
  assumes "executor_run ex tool cid raw st approval = Some (r, st')"
  shows "taint_rank (effective_window st) \<le> taint_rank (effective_window st')"
proof (cases "map_of (ex_specs ex) tool")
  case None
  with assms show ?thesis by (simp add: executor_run_def)
next
  case (Some spec)
  let ?st1 = "note_external_tool st tool"
  have up: "taint_rank (effective_window st) \<le> taint_rank (effective_window ?st1)"
    by (rule note_external_rank)
  note eq = executor_run_gate [OF Some, of cid raw st approval]
  have gate_up: "taint_rank (effective_window ?st1) \<le> taint_rank (effective_window st2)"
    if "executor_gate ex spec tool cid raw st approval = Some (g, st2, hosts)" for g st2 hosts
    using that by (auto simp: executor_gate_def Let_def dest: authorize_window)
  show ?thesis
  proof (cases "executor_gate ex spec tool cid raw st approval")
    case None
    with assms eq up show ?thesis by (auto split: if_splits)
  next
    case gate: (Some x)
    obtain g st2 hosts where x: "x = (g, st2, hosts)" by (cases x) auto
    have st2: "taint_rank (effective_window st) \<le> taint_rank (effective_window st2)"
      using up gate_up gate x order_trans by blast
    have "st' = ?st1 \<or> st' = st2
          \<or> st' = snd (run_handler ex tool (snd (call_arguments ex tool raw)) st2)"
    proof (cases "ex_validate ex \<and> ex_invalid ex tool (fst (call_arguments ex tool raw))")
      case True
      with assms eq show ?thesis by simp
    next
      case False
      with assms [unfolded eq] gate x show ?thesis
        by (cases g) (auto dest: arg_cong [of _ _ snd])
    qed
    then show ?thesis
      using up st2 order_trans [OF st2 run_handler_window] by auto
  qed
qed

text \<open>
  C4: no tool call lowers the turn window. Whatever the tool, the arguments, the grant, the
  handler's result and the detector's verdict, the window after the call is at least as
  tainted as before; external stays external for the rest of the turn.
\<close>

theorem executor_never_lowers_window:
  assumes "executor_run ex tool cid raw st approval = Some (r, st')"
  shows "taint_rank (effective_window st) \<le> taint_rank (effective_window st')"
  using assms by (rule executor_window_rises)

text \<open>
  C5: a handler runs under a grant only for the approved call. When the call was one that may
  not pass without a grant and the handler ran, then a grant was presented for this tool,
  this call id, these canonical arguments and the current policy version, and it had not
  expired.
\<close>

theorem forced_call_ran_with_matching_grant:
  assumes "executor_run ex tool cid raw st approval = Some (r, st')" and "handled r"
    and "map_of (ex_specs ex) tool = Some spec" and "spec_sink spec \<noteq> []"
    and "force_approval tool (fst (call_arguments ex tool raw)) \<noteq> []
         \<or> egress_hosts (fst (call_arguments ex tool raw)) \<noteq> []"
  shows "\<exists>g. approval = Some g \<and> ag_tool_name g = tool \<and> ag_tool_call_id g = cid
     \<and> ag_policy_version g = POLICY_VERSION
     \<and> ag_args_hash g = canonical_args_hash (ex_digest ex) (ge_fs (ex_gate ex)) (fst (call_arguments ex tool raw))
     \<and> (case ag_expires_at g of None \<Rightarrow> True | Some t \<Rightarrow> ex_now ex \<le> t)"
proof -
  let ?args = "fst (call_arguments ex tool raw)"
  obtain st2 hosts where "executor_gate ex spec tool cid raw st approval = Some (Pass, st2, hosts)"
    using executor_handledE [OF assms(1,2)] assms(3) by (metis option.inject)
  then have "authorize (ex_gate ex) spec (note_external_tool st tool) tool ?args
           (grant_matches (ex_digest ex) (ge_fs (ex_gate ex)) (ex_now ex) approval tool cid ?args)
         = Some (Pass, st2, hosts)"
    by (simp add: executor_gate_def Let_def)
  then have "grant_matches (ex_digest ex) (ge_fs (ex_gate ex)) (ex_now ex) approval tool cid ?args"
    using forced_needs_grant [OF assms(4,5)] by (metis (full_types))
  then show ?thesis by (rule grant_matchesD) (auto split: option.splits)
qed

text \<open>
  The approval for executable configuration is never asked for a \<open>path\<close> argument. The
  executor canonicalises \<open>path\<close> before it calls the gate, and the gate looks for
  \<open>package.json\<close> or \<open>.github/workflows/\<close> at the start of that absolute path; unless the
  Work root itself begins with one of those names (here: with a dot or a p), no path inside
  it is forced, whatever its relative name.
\<close>

theorem exec_config_path_not_forced:
  assumes "fs_root (ge_fs (ex_gate ex)) = Some ((c # w) # root)" and "c \<notin> {CHR ''/'', CHR ''.'', CHR ''p''}"
    and "fs_resolve (ge_fs (ex_gate ex)) (path_under ((c # w) # root) raw) = Some (((c # w) # root) @ rel)"
    and "strip raw \<noteq> []" and "tool \<notin> {''run_command'', ''run_tests''}"
  shows "force_approval tool (fst (call_arguments ex tool [(''path'', JStr raw)])) = []"
proof -
  obtain xs where "fst (call_arguments ex tool [(''path'', JStr raw)]) = [(''path'', JStr (CHR ''/'' # c # xs))]"
    using call_path_absolute [OF assms(1,3,4)] by blast
  moreover have "\<not> is_exec_config_path (CHR ''/'' # c # xs)"
    using assms(2) absolute_not_exec_config [of c xs] by simp
  ultimately show ?thesis
    using assms(5) by (simp add: force_approval_def str_field_def py_or_def Let_def)
qed

text \<open>
  The rule against writing into \<open>.git\<close> compares texts. The executor turns \<open>path\<close> into an absolute path
  before the gate sees it, so unless the Work root itself begins with a dot the gate's rule
  never applies to \<open>path\<close>; the tools repeat the test on the path as the model wrote it, and
  there \<open>./\<close> in front of \<open>.git\<close> is enough to pass.
\<close>

theorem git_rule_compares_texts:
  assumes "fs_root (ge_fs (ex_gate ex)) = Some ((c # w) # root)" and "c \<notin> {CHR ''/'', CHR ''.''}"
    and "fs_resolve (ge_fs (ex_gate ex)) (path_under ((c # w) # root) raw) = Some (((c # w) # root) @ rel)"
    and "raw = ''./'' @ p"
  shows "\<not> write_path_block (str_field (fst (call_arguments ex tool [(''path'', JStr raw)])) ''path'')
     \<and> \<not> write_path_block raw"
proof
  have dots: "lstrip raw = CHR ''.'' # CHR ''/'' # p"
    by (simp add: assms(4) lstrip_def is_space_def)
  obtain ys where ys: "rev p = takeWhile is_space (rev p) @ ys" "ys = dropWhile is_space (rev p)"
    by (metis takeWhile_dropWhile_id)
  have "rstrip (CHR ''.'' # CHR ''/'' # p) = CHR ''.'' # CHR ''/'' # rev ys"
    by (auto simp: rstrip_def ys(2) dropWhile_append is_space_def)
  with dots have st: "strip raw = CHR ''.'' # CHR ''/'' # rev ys"
    by (simp add: strip_def)
  then show "\<not> write_path_block raw"
    by (simp add: write_path_block_def normalized_workspace_rel_def lstrip_chars_def replace_char_def
        starts_with_def Let_def)
  obtain xs where "fst (call_arguments ex tool [(''path'', JStr raw)]) = [(''path'', JStr (CHR ''/'' # c # xs))]"
    by (rule call_path_absolute [OF assms(1,3)]) (simp_all add: st)
  then show "\<not> write_path_block (str_field (fst (call_arguments ex tool [(''path'', JStr raw)])) ''path'')"
    using absolute_not_git assms(2) by (simp add: str_field_def py_or_def)
qed

section \<open>A sample executor\<close>

text \<open>
  The sample deployment with two tools whose handlers answer with an empty object; no
  argument is rejected by the schema and every digest is the same non-empty text.
\<close>

definition sample_executor :: executor_env where
  "sample_executor = \<lparr>ex_gate = sample_env,
     ex_specs = [(''write_file'', spec_of ''S1''), (''run_command'', spec_of ''S2'')],
     ex_digest = (\<lambda>_. ''d0''), ex_now = 100, ex_validate = True, ex_invalid = (\<lambda>_ _. False),
     ex_handler = (\<lambda>_ _. HandlerDict []), ex_notice = ''n'', ex_signal = (\<lambda>_. SigAllow),
     ex_item_id = ''i''\<rparr>"

definition sample_grant :: approval_grant where
  "sample_grant = \<lparr>ag_tool_name = ''run_command'', ag_tool_call_id = ''c1'', ag_args_hash = ''d0'',
     ag_policy_version = ''p1'', ag_expires_at = Some 200\<rparr>"

lemma sample_git_push_run:
  "executor_run sample_executor ''run_command'' ''c1'' [(''command'', JStr ''git push'')] sample_state
     (Some sample_grant)
   = Some (CallResult [(''_taint'', JStr ''workspace'')],
       sample_state\<lparr>audit_log := [(''user'', ''workspace'')], window_taint := ''workspace''\<rparr>)"
  by code_simp

lemma executor_never_lowers_window_witness:
  "taint_rank (effective_window sample_state)
     \<le> taint_rank (effective_window (sample_state\<lparr>audit_log := [(''user'', ''workspace'')],
         window_taint := ''workspace''\<rparr>))"
  by (rule executor_never_lowers_window [OF sample_git_push_run])

lemma forced_call_ran_with_matching_grant_witness:
  "\<exists>g. Some sample_grant = Some g \<and> ag_tool_name g = ''run_command'' \<and> ag_tool_call_id g = ''c1''"
proof -
  have "handled (CallResult [(''_taint'', JStr ''workspace'')])"
    by (simp add: handled_def)
  moreover have "map_of (ex_specs sample_executor) ''run_command'' = Some (spec_of ''S2'')"
    by (simp add: sample_executor_def)
  moreover have "force_approval ''run_command''
      (fst (call_arguments sample_executor ''run_command'' [(''command'', JStr ''git push'')])) \<noteq> []"
    by code_simp
  ultimately show ?thesis
    using forced_call_ran_with_matching_grant [OF sample_git_push_run] by (simp add: spec_of_def)
qed

lemma exec_config_path_not_forced_witness:
  "force_approval ''write_file''
     (fst (call_arguments sample_executor ''write_file'' [(''path'', JStr ''package.json'')])) = []
   \<and> force_approval ''write_file'' [(''path'', JStr ''package.json'')] \<noteq> []"
proof
  show "force_approval ''write_file''
     (fst (call_arguments sample_executor ''write_file'' [(''path'', JStr ''package.json'')])) = []"
    by (rule exec_config_path_not_forced [where c = "CHR ''w''" and w = "''s''" and root = "[]"
          and rel = "[''package.json'']"]) code_simp+
  show "force_approval ''write_file'' [(''path'', JStr ''package.json'')] \<noteq> []"
    by code_simp
qed

lemma git_rule_compares_texts_witness:
  "\<not> write_path_block (str_field (fst (call_arguments sample_executor ''write_file''
       [(''path'', JStr ''./.git/config'')])) ''path'')
   \<and> \<not> write_path_block ''./.git/config'' \<and> write_path_block ''.git/config''"
proof -
  have "\<not> write_path_block (str_field (fst (call_arguments sample_executor ''write_file''
       [(''path'', JStr ''./.git/config'')])) ''path'') \<and> \<not> write_path_block ''./.git/config''"
    by (rule git_rule_compares_texts [where c = "CHR ''w''" and w = "''s''" and root = "[]"
          and rel = "[''.git'', ''config'']" and p = "''.git/config''"]) code_simp+
  moreover have "write_path_block ''.git/config''" by code_simp
  ultimately show ?thesis by blast
qed

end
