(* ===== verification/AgentTools.thy ===== *)
theory AgentTools
  imports VerifyReceipt ToolExecutor "HOL-Library.List_Lexorder" "HOL-Library.Char_ord"
begin

text \<open>
  One tool call of the agent, \<open>AgentEngine._run_tool\<close> of
  \<open>services/runtime/app/engine/agent_engine.py\<close>, with the late-stage scope of \<open>tools/scope.py\<close>:
  the guards before the call, the result cache, the executor, the bookkeeping of reads and
  edits, and the ways the call ends (answered, parked for approval or for a child, cancelled,
  terminating the turn). Events are left out. What the call asks its surroundings is the
  record \<open>tool_env\<close>: the executor, content hashes before and after, the cancel flag, limits,
  the redaction of \<open>policy/inject.py\<close>, and the texts that are not ASCII.
\<close>

section \<open>tools/scope.py\<close>

definition LATE_STAGE_DROP :: "str list" where
  "LATE_STAGE_DROP = [''search_sources'', ''delegate'', ''remember'', ''recall'', ''forget'', ''load_skill'']"

definition late_stage_tools_disabled :: "int \<Rightarrow> int \<Rightarrow> dict option \<Rightarrow> bool" where
  "late_stage_tools_disabled steps max_s dlv \<longleftrightarrow>
     (case dlv of None \<Rightarrow> False
      | Some d \<Rightarrow> py_str (dict_get_default d ''delivery_status'' (JStr [])) \<in> {''ok'', ''warning''})
     \<or> (steps \<ge> 8 \<and> max_s - steps \<le> 6)"

definition stage_tool_runtime_blocked :: "str \<Rightarrow> int \<Rightarrow> int \<Rightarrow> dict option \<Rightarrow> bool" where
  "stage_tool_runtime_blocked tool_name steps max_s dlv \<longleftrightarrow>
     tool_name \<in> set LATE_STAGE_DROP \<and> late_stage_tools_disabled steps max_s dlv"

section \<open>The engine and its surroundings\<close>

record engine =
  pending_approval :: "dict option"
  pending_children :: "dict list"
  tool_result_cache :: "(str \<times> dict) list"
  tool_repeat_counts :: "(str \<times> int) list"
  search_sources_calls :: int
  read_file_calls :: int
  evidence_citation_ids :: "str set"
  read_bodies :: "(str \<times> str) list"
  engine_volatile :: str

record tool_env =
  te_execute :: "str \<Rightarrow> str \<Rightarrow> json \<Rightarrow> approval_grant option \<Rightarrow> agent_state \<Rightarrow> (dict \<times> agent_state) option"
  te_inject :: "str \<Rightarrow> dict \<Rightarrow> dict"
  te_fs :: filesystem
  te_digest :: "dict \<Rightarrow> str"
  te_now :: int
  te_approval_id :: str
  te_approval_seconds :: int
  te_disk_before :: "str \<Rightarrow> str option"
  te_disk :: "str \<Rightarrow> str option"
  te_cancel :: "bool \<times> bool"
  te_draft_cancel :: "bool \<times> bool"
  te_read_limit :: int
  te_search_limit :: int
  te_policy_summary :: "str \<Rightarrow> str \<Rightarrow> str"
  te_denial_text :: "denial \<Rightarrow> str"
  te_offer_text :: str
  te_verify :: verify_env
  te_rule_block :: "str \<Rightarrow> str"
  te_citations :: bool
  te_cited :: "str \<Rightarrow> str list"
  te_attach :: "str \<Rightarrow> json \<Rightarrow> dict \<Rightarrow> dict \<times> bool"
  te_fresh_retry :: "str \<Rightarrow> str"

definition CONTROL_OUTCOMES :: "str list" where
  "CONTROL_OUTCOMES = [''waiting_approval'', ''waiting_child'', ''CANCELLED'', ''TERMINATE'']"

definition tool_batch_outcome :: "str \<Rightarrow> str" where
  "tool_batch_outcome summary =
     (if summary \<in> set CONTROL_OUTCOMES then ''tool_summary:'' @ summary else summary)"

section \<open>The result cache\<close>

fun sort_keys :: "json \<Rightarrow> json" where
  "sort_keys (JList xs) = JList (map sort_keys xs)"
| "sort_keys (JObj d) = JObj (sort_key fst (map (\<lambda>(k, v). (k, sort_keys v)) d))"
| "sort_keys v = v"

definition tool_cache_key :: "str \<Rightarrow> json \<Rightarrow> str" where
  "tool_cache_key tool_name arguments = tool_name @ '':'' @ json_dumps_ascii (sort_keys arguments)"

definition repeat_note :: str where
  "repeat_note = ''Identical read-only tool call repeated; result unchanged. '' @
     ''Do NOT call this tool again with the same arguments. '' @
     ''Use prior results, try a different path, or produce the deliverable.''"

definition lookup_tool_cache :: "engine \<Rightarrow> str \<Rightarrow> json \<Rightarrow> dict option \<times> engine" where
  "lookup_tool_cache eng tool_name arguments =
     (let key = tool_cache_key tool_name arguments in
      if tool_name \<notin> set CACHEABLE_TOOLS then (None, eng)
      else (case map_of (tool_result_cache eng) key of None \<Rightarrow> (None, eng)
        | Some cached \<Rightarrow>
          (let n = or_else (map_of (tool_repeat_counts eng) key) 1 + 1;
               result = dict_set (dict_set cached ''_cached'' (JBool True)) ''_repeat_count'' (JInt n)
           in (Some (if n \<ge> 2 then dict_set result ''_note'' (JStr repeat_note) else result),
               eng\<lparr>tool_repeat_counts := dict_set (tool_repeat_counts eng) key n\<rparr>))))"

definition store_tool_cache :: "engine \<Rightarrow> str \<Rightarrow> json \<Rightarrow> dict \<Rightarrow> engine" where
  "store_tool_cache eng tool_name arguments result =
     (let key = tool_cache_key tool_name arguments in
      if tool_name \<notin> set CACHEABLE_TOOLS \<or> truthy (dict_get result ''error'') then eng
      else eng\<lparr>tool_result_cache := dict_set (tool_result_cache eng) key result,
               tool_repeat_counts := dict_set (tool_repeat_counts eng) key 1\<rparr>)"

section \<open>Before the call\<close>

text \<open>\<open>int(d.get(k) or n)\<close>, where an exception gives the default as well.\<close>

definition int_or :: "dict \<Rightarrow> str \<Rightarrow> int \<Rightarrow> int" where
  "int_or d k n = or_else (py_int (py_or (dict_get d k) (JInt n))) n"

text \<open>An early answer: the result, whether it is an error, and the summary returned.\<close>

type_synonym early_answer = "dict \<times> bool \<times> str"

definition skipped_read :: "str \<Rightarrow> str \<Rightarrow> str \<Rightarrow> str \<Rightarrow> early_answer" where
  "skipped_read kind path summary hint =
     ([(''status'', JStr ''skipped''), (''policy'', JStr kind), (''path'', JStr path),
       (''summary'', JStr summary), (''hint'', JStr hint)], False, summary)"

definition denial_kind :: "denial \<Rightarrow> str" where
  "denial_kind d = (case d of Read_after_complete _ \<Rightarrow> ''read_after_complete'' | Read_overlap _ _ _ \<Rightarrow> ''read_overlap'')"

text \<open>The counters of a parallel batch are seeds of the call, otherwise the engine counts.\<close>

definition count_read :: "engine \<Rightarrow> (int \<times> int) option \<Rightarrow> int \<times> engine" where
  "count_read eng counters = (case counters of
      None \<Rightarrow> (read_file_calls eng + 1, eng\<lparr>read_file_calls := read_file_calls eng + 1\<rparr>)
    | Some (r, s) \<Rightarrow> (r + 1, eng))"

definition count_search :: "engine \<Rightarrow> (int \<times> int) option \<Rightarrow> int \<times> engine" where
  "count_search eng counters = (case counters of
      None \<Rightarrow> (search_sources_calls eng + 1, eng\<lparr>search_sources_calls := search_sources_calls eng + 1\<rparr>)
    | Some (r, s) \<Rightarrow> (s + 1, eng))"

definition read_gate :: "tool_env \<Rightarrow> engine \<Rightarrow> agent_state \<Rightarrow> json \<Rightarrow> (int \<times> int) option
    \<Rightarrow> engine \<times> early_answer option" where
  "read_gate env eng st arguments counters =
     (let offset = max 1 (int_or (as_dict arguments) ''offset'' 1);
          path = path_from_tool_arguments arguments
      in (case deny_redundant_read (read_registry st) path offset (evicted_paths st)
            (evicted_reread_used st) (te_disk_before env path) of
          Some d \<Rightarrow> (eng, Some (skipped_read (denial_kind d) path
              (te_policy_summary env (denial_kind d) path) (te_denial_text env d)))
        | None \<Rightarrow>
            if te_read_limit env \<le> 0 then (eng, None)
            else (let (n, eng1) = count_read eng counters in
              if n > te_read_limit env
              then (eng1, Some (skipped_read ''read_budget'' path (te_policy_summary env ''read_budget'' path)
                 (''read_file limit ('' @ show_int (te_read_limit env) @ '') reached this Turn; '' @
                  ''edit with content already read, or finish the deliverable.'')))
              else (eng1, None))))"

definition search_gate :: "tool_env \<Rightarrow> engine \<Rightarrow> (int \<times> int) option \<Rightarrow> engine \<times> early_answer option" where
  "search_gate env eng counters =
     (if te_search_limit env \<le> 0 then (eng, None)
      else (let (n, eng1) = count_search eng counters;
                summary = ''search_sources limit ('' @ show_int (te_search_limit env) @
                  '') reached; use read_file on a known sources/ path or draft with prior hits.''
            in if n > te_search_limit env
               then (eng1, Some ([(''error'', JStr ''search_sources budget exceeded for this turn''),
                   (''summary'', JStr summary), (''hits'', JList []), (''retrieval'', JStr ''none'')], True, summary))
               else (eng1, None)))"

definition call_gate :: "tool_env \<Rightarrow> engine \<Rightarrow> agent_state \<Rightarrow> str \<Rightarrow> json \<Rightarrow> (int \<times> int) option
    \<Rightarrow> engine \<times> early_answer option" where
  "call_gate env eng st tool_name arguments counters =
     (if stage_tool_runtime_blocked tool_name (step_count (core st)) (max_steps (core st)) (delivery st)
      then (eng, Some ([(''error'', JStr ''tool disabled at this stage'')], True, ''tool disabled at this stage''))
      else if tool_name = ''read_file'' then read_gate env eng st arguments counters
      else if tool_name = ''search_sources'' then search_gate env eng counters
      else (eng, None))"

text \<open>
  The replay of a drafted section looks at the cancel flag between slices; an empty content
  has no slice. True when the call stops there.
\<close>

definition draft_cancelled :: "tool_env \<Rightarrow> agent_state \<Rightarrow> str \<Rightarrow> json \<Rightarrow> agent_state \<times> bool" where
  "draft_cancelled env st tool_name arguments =
     (if tool_name \<noteq> ''draft_section''
         \<or> py_str (dict_get_default (as_dict arguments) ''content'' (JStr [])) = [] then (st, False)
      else (let st1 = (if fst (te_draft_cancel env) then note_cancel st (snd (te_draft_cancel env)) ''tool_exec'' else st)
            in (st1, cancelled (core st1))))"

section \<open>The result of a call\<close>

definition note_skill :: "agent_state \<Rightarrow> str \<Rightarrow> dict \<Rightarrow> agent_state" where
  "note_skill st tool_name result =
     (let stem = lower (strip (str_field result ''name'')) in
      if tool_name = ''load_skill'' \<and> dict_get result ''status'' = JStr ''ok''
         \<and> stem \<noteq> [] \<and> stem \<notin> set (loaded_skill_names st)
      then st\<lparr>loaded_skill_names := loaded_skill_names st @ [stem]\<rparr> else st)"

definition skip_read_cache :: "agent_state \<Rightarrow> str \<Rightarrow> json \<Rightarrow> bool" where
  "skip_read_cache st tool_name arguments \<longleftrightarrow>
     tool_name = ''read_file'' \<and>
     (let key = path_from_tool_arguments arguments in key \<noteq> [] \<and>
        (case map_of (read_registry st) key of Some p \<Rightarrow> allow_reread_once p | None \<Rightarrow> False))"

text \<open>
  From the cache or from the executor. The outer None is an exception of the executor, the
  inner None a child that was parked.
\<close>

definition obtain_result ::
  "tool_env \<Rightarrow> engine \<Rightarrow> agent_state \<Rightarrow> int \<Rightarrow> str \<Rightarrow> str \<Rightarrow> json \<Rightarrow> (engine \<times> agent_state \<times> dict option) option" where
  "obtain_result env eng st step tool_call_id tool_name arguments =
     (case (if skip_read_cache st tool_name arguments then (None, eng) else lookup_tool_cache eng tool_name arguments) of
        (Some result, eng1) \<Rightarrow> Some (eng1, st, Some result)
      | (None, eng1) \<Rightarrow>
          (case te_execute env tool_name tool_call_id arguments None st of None \<Rightarrow> None
            | Some (raw, st1) \<Rightarrow>
                (let result = te_inject env tool_name raw;
                     (pending, parked) = park_spawned_child (pending_children eng1) (JObj result)
                        tool_call_id step arguments (turn_id st) (run_id st)
                 in if parked then Some (eng1\<lparr>pending_children := pending\<rparr>, note_skill st1 tool_name result, None)
                    else Some (store_tool_cache eng1 tool_name arguments result,
                           note_skill st1 tool_name result, Some result))))"

text \<open>What a read that succeeded leaves in the registry; the result may gain a field.\<close>

definition note_read :: "tool_env \<Rightarrow> engine \<Rightarrow> agent_state \<Rightarrow> json \<Rightarrow> dict \<Rightarrow> engine \<times> agent_state \<times> dict" where
  "note_read env eng st arguments result =
     (let path = py_str (py_or (dict_get result ''path'') (JStr (path_from_tool_arguments arguments)));
          prior = (case map_of (read_registry st) (normalize_read_path path) of Some p \<Rightarrow> content_hash p | None \<Rightarrow> []);
          now = or_else (te_disk env path) [];
          result1 = (if prior \<noteq> [] \<and> now \<noteq> [] \<and> prior \<noteq> now
             then dict_set result ''changed_since_last_read'' (JBool True) else result);
          whole = truthy (dict_get result ''whole_file_complete'');
          eng1 = (case dict_get result ''content'' of
             JStr body \<Rightarrow> if whole then eng\<lparr>read_bodies := remember_read_body (read_bodies eng) path body\<rparr> else eng
           | _ \<Rightarrow> eng);
          nxt = (case dict_get result ''next_offset'' of JNull \<Rightarrow> None | v \<Rightarrow> py_int v);
          (evicted, used) = consume_evicted_reread path (evicted_paths st) (evicted_reread_used st)
      in (eng1, st\<lparr>read_registry := record_successful_read (read_registry st) path
              (int_or result ''offset'' 1) (int_or result ''end_line'' 0)
              (truthy (dict_get result ''truncated'')) nxt whole now,
            evicted_paths := evicted, evicted_reread_used := used\<rparr>, result1))"

definition note_coverage :: "tool_env \<Rightarrow> engine \<Rightarrow> agent_state \<Rightarrow> str \<Rightarrow> json \<Rightarrow> dict
    \<Rightarrow> engine \<times> agent_state \<times> dict" where
  "note_coverage env eng st tool_name arguments result =
     (if tool_name = ''read_file'' \<and> \<not> truthy (dict_get result ''error'')
      then note_read env eng st arguments result
      else if is_mutating_file_tool_failure tool_name result
      then (eng, st\<lparr>read_registry := note_edit_failure_allows_reread (read_registry st)
              (path_from_tool_arguments arguments)\<rparr>, result)
      else (eng, st, result))"

section \<open>What a result leaves in the turn\<close>

definition ingest_evidence :: "engine \<Rightarrow> str \<Rightarrow> dict \<Rightarrow> engine" where
  "ingest_evidence eng tool_name result =
     (let cids = (if tool_name = ''search_sources''
            then List.map_filter (\<lambda>hit. case hit of
                JObj h \<Rightarrow> if truthy (dict_get h ''citation_id'') then Some (py_str (dict_get h ''citation_id'')) else None
              | _ \<Rightarrow> None) (as_list (dict_get result ''hits''))
            else if tool_name = ''check_citation'' \<and> dict_get result ''valid'' = JBool True
                \<and> truthy (dict_get result ''citation_id'')
            then [py_str (dict_get result ''citation_id'')] else [])
      in eng\<lparr>evidence_citation_ids := evidence_citation_ids eng \<union> set cids\<rparr>)"

definition citation_texts :: "str \<Rightarrow> json \<Rightarrow> dict \<Rightarrow> str list" where
  "citation_texts tool_name arguments result =
     (let arg = (\<lambda>k. py_str (dict_get_default (as_dict arguments) k (JStr []))) in
      if tool_name = ''draft_section'' then [arg ''content'']
      else if tool_name = ''propose_patch'' then [arg ''new_text'']
      else if tool_name = ''export_document'' then
        py_str (dict_get_default result ''summary'' (JStr []))
        # map (\<lambda>k. py_str (dict_get result k)) (filter (\<lambda>k. truthy (dict_get result k)) [''preview'', ''content''])
      else if tool_name = ''write_file'' then [arg ''content'']
      else [])"

definition unverified_note :: "str list \<Rightarrow> str" where
  "unverified_note cids = ''Unverified citations (not in this Turn'' @ [CHR 0x27] @
     ''s retrieval/check_citation evidence): '' @ join '', '' cids"

definition annotate_unverified_citations :: "tool_env \<Rightarrow> engine \<Rightarrow> str \<Rightarrow> json \<Rightarrow> dict \<Rightarrow> dict" where
  "annotate_unverified_citations env eng tool_name arguments result =
     (let cited = foldl (\<lambda>acc cid. if cid \<in> set acc then acc else acc @ [cid]) []
            (concat (map (te_cited env) (citation_texts tool_name arguments result)));
          unverified = filter (\<lambda>cid. cid \<notin> evidence_citation_ids eng) cited;
          prev = str_field result ''summary''
      in if truthy (dict_get result ''error'')
            \<or> dict_get result ''status'' \<in> {JStr ''approval_required'', JStr ''timeout'', JStr ''cancelled''}
            \<or> cited = [] then result
         else (let out = dict_set (dict_set result ''citations_found'' (JList (map JStr cited)))
                     ''unverified_citations'' (JList (map JStr unverified))
           in if unverified = [] then dict_set out ''citation_check'' (JStr ''ok'')
              else dict_set (dict_set out ''summary'' (JStr (if prev \<noteq> [] then prev @ ''; '' @ unverified_note unverified
                     else unverified_note unverified))) ''citation_check'' (JStr ''unverified'')))"

definition count_char :: "char \<Rightarrow> str \<Rightarrow> int" where
  "count_char c s = int (length (filter (\<lambda>x. x = c) s))"

definition line_span :: "str \<Rightarrow> int" where
  "line_span s = count_char (CHR 0x0A) s + (if s = [] then 0 else 1)"

text \<open>\<open>_remember_edit\<close>; \<open>int\<close> of a value that is no number is 0 here.\<close>

definition remember_edit :: "agent_state \<Rightarrow> str \<Rightarrow> dict \<Rightarrow> agent_state" where
  "remember_edit st path result =
     (let rel = lstrip_chars [CHR ''.'', CHR ''/''] (replace_char (CHR 0x5C) (CHR ''/'') path);
          a = int_or result ''lines_added'' 0; r = int_or result ''lines_removed'' 0;
          (added, removed) = (if a = 0 \<and> r = 0
             then (line_span (str_field result ''new_text''), line_span (str_field result ''old_text'')) else (a, r));
          rows = filter (\<lambda>row. py_str (dict_get row ''path'') \<noteq> rel) (edited_files st)
            @ [[(''path'', JStr rel), (''added'', JInt added), (''removed'', JInt removed)]]
      in if rel = [] then st else st\<lparr>edited_files := drop (length rows - 40) rows\<rparr>)"

definition note_written :: "tool_env \<Rightarrow> agent_state \<Rightarrow> str \<Rightarrow> json \<Rightarrow> dict \<Rightarrow> agent_state" where
  "note_written env st tool_name arguments result =
     (let path = py_str (py_or (dict_get result ''path'') (JStr (path_from_tool_arguments arguments))) in
      if tool_name \<in> {''edit_file'', ''write_file''}
         \<and> dict_get result ''status'' \<in> {JStr ''edited'', JStr ''written''}
      then remember_edit (st\<lparr>read_registry := note_written_hash (read_registry st) path (or_else (te_disk env path) [])\<rparr>) path result
      else st)"

text \<open>\<open>exit_code in (0, "0")\<close>: False and 0.0 equal 0 as well.\<close>

definition exit_zero :: "json \<Rightarrow> bool" where
  "exit_zero v = (case v of JInt n \<Rightarrow> n = 0 | JStr s \<Rightarrow> s = ''0'' | JBool b \<Rightarrow> \<not> b | JDec m k \<Rightarrow> m = 0 | _ \<Rightarrow> False)"

definition note_command :: "tool_env \<Rightarrow> agent_state \<Rightarrow> str \<Rightarrow> json \<Rightarrow> dict \<Rightarrow> agent_state" where
  "note_command env st tool_name arguments result =
     (if tool_name \<notin> {''run_command'', ''run_tests''} \<or> truthy (dict_get result ''error'') then st
      else (let cmd = py_str (py_or (py_or (dict_get result ''command'') (dict_get (as_dict arguments) ''command'')) (JStr []));
                st1 = st\<lparr>read_registry := mark_registry_stale (te_disk env) (read_registry st), last_test_command := cmd\<rparr>;
                st2 = (case dict_get result ''delta'' of JObj d \<Rightarrow> st1\<lparr>last_test_delta := d\<rparr> | _ \<Rightarrow> st1)
            in if exit_zero (dict_get_default result ''exit_code'' (dict_get result ''returncode''))
                  \<and> cmd \<noteq> [] \<and> command_offer st2 = []
                  \<and> (tool_name = ''run_tests'' \<or> workspace_build_command cmd)
               then st2\<lparr>command_offer := te_offer_text env @ take 120 cmd\<rparr> else st2))"

fun plan_dicts :: "json list \<Rightarrow> dict list" where
  "plan_dicts [] = []"
| "plan_dicts (JObj d # xs) = d # plan_dicts xs"
| "plan_dicts (_ # xs) = plan_dicts xs"

definition note_plan :: "agent_state \<Rightarrow> str \<Rightarrow> dict \<Rightarrow> agent_state" where
  "note_plan st tool_name result =
     (if tool_name \<noteq> ''update_plan'' then st
      else (let items = plan_dicts (as_list (dict_get result ''items''));
                commands = filter (\<lambda>c. c \<noteq> []) (map (\<lambda>item. strip (str_field item ''acceptance'')) items);
                st1 = (if commands \<noteq> [] then st\<lparr>acceptance_commands := commands\<rparr> else st)
            in (case dict_get result ''items'' of JList xs \<Rightarrow> st1\<lparr>plan_items := items\<rparr> | _ \<Rightarrow> st1)))"

text \<open>\<open>append_path_rules\<close> of \<open>context/project.py\<close>; the rules of the directories are a parameter.\<close>

definition append_path_rules :: "tool_env \<Rightarrow> agent_state \<Rightarrow> str \<Rightarrow> agent_state" where
  "append_path_rules env st rel_path =
     (let block = te_rule_block env rel_path; marker = ''<!-- rules:'' @ strip rel_path @ '' -->'';
          current = volatile_context st; extra = marker @ [CHR 0x0A] @ block
      in if block = [] \<or> occurs_in marker current \<or> length current + length extra > 24000 then st
         else st\<lparr>volatile_context := (if current = [] then extra else strip (current @ [CHR 0x0A, CHR 0x0A] @ extra))\<rparr>)"

definition note_facts :: "tool_env \<Rightarrow> agent_state \<Rightarrow> str \<Rightarrow> json \<Rightarrow> dict \<Rightarrow> agent_state option" where
  "note_facts env st tool_name arguments result =
     map_option (\<lambda>st0.
       (let st1 = note_written env st0 tool_name arguments result;
            st2 = note_plan (note_command env st1 tool_name arguments result) tool_name result;
            touched = path_from_tool_arguments arguments
        in if touched \<noteq> [] \<and> tool_name \<in> {''read_file'', ''edit_file'', ''write_file''}
           then append_path_rules env st2 touched else st2))
       (note_tool_result_for_verify (te_verify env) tool_name result arguments st)"

section \<open>Parking for approval\<close>

text \<open>The window label shown to the user: \<open>str(result.get("window_taint") or ... or default)\<close>.\<close>

definition shown_window :: "dict \<Rightarrow> agent_state \<Rightarrow> str \<Rightarrow> str" where
  "shown_window result st dflt = py_str (py_or (dict_get result ''window_taint'')
     (JStr (if window_taint (core st) = [] then dflt else window_taint (core st))))"

definition child_approval :: "agent_state \<Rightarrow> int \<Rightarrow> str \<Rightarrow> str \<Rightarrow> json \<Rightarrow> dict \<Rightarrow> dict" where
  "child_approval st step tool_call_id tool_name arguments result =
     [(''approval_id'', dict_get result ''approval_id''),
      (''tool_call_id'', JStr (py_str (py_or (dict_get result ''child_tool_call_id'') (JStr tool_call_id)))),
      (''tool_name'', JStr (py_str (py_or (dict_get result ''child_tool_name'') (JStr tool_name)))),
      (''arguments'', JObj (as_dict (dict_get result ''child_arguments''))),
      (''step_index'', JInt step), (''args_hash'', dict_get result ''args_hash''),
      (''policy_version'', dict_get result ''policy_version''), (''expires_at'', dict_get result ''expires_at''),
      (''window_taint'', JStr (shown_window result st [])),
      (''sink_class'', JStr (str_field result ''sink_class'')), (''origin'', JStr (str_field result ''origin'')),
      (''parent_tool_call_id'', JStr tool_call_id), (''parent_arguments'', JObj (as_dict arguments))]"

definition call_approval :: "tool_env \<Rightarrow> agent_state \<Rightarrow> int \<Rightarrow> str \<Rightarrow> str \<Rightarrow> json \<Rightarrow> dict \<Rightarrow> dict" where
  "call_approval env st step tool_call_id tool_name arguments result =
     (let card_args = canonicalize_arguments (te_fs env) (as_dict arguments) in
      [(''approval_id'', JStr (te_approval_id env)), (''tool_call_id'', JStr tool_call_id),
       (''tool_name'', JStr tool_name), (''arguments'', JObj card_args), (''step_index'', JInt step),
       (''args_hash'', JStr (canonical_args_hash (te_digest env) (te_fs env) card_args)),
       (''policy_version'', JStr (if pinned_policy_version st = [] then POLICY_VERSION else pinned_policy_version st)),
       (''expires_at'', JInt (te_now env + te_approval_seconds env)),
       (''window_taint'', JStr (shown_window result st ''user''))])"

definition park_approval :: "tool_env \<Rightarrow> agent_state \<Rightarrow> int \<Rightarrow> str \<Rightarrow> str \<Rightarrow> json \<Rightarrow> dict \<Rightarrow> dict" where
  "park_approval env st step tool_call_id tool_name arguments result =
     (if starts_with (str_field result ''origin'') ''child/''
      then child_approval st step tool_call_id tool_name arguments result
      else call_approval env st step tool_call_id tool_name arguments result)"

section \<open>Answering a call\<close>

definition OPENING_POND_TOOLS :: "str list" where
  "OPENING_POND_TOOLS = [''propose_book_candidates'', ''propose_opening_ponds'', ''propose_chapter_openings'']"

text \<open>\<open>result.get("summary") or result.get("content", "")[:200] or json.dumps(result)[:200]\<close>.\<close>

definition result_summary :: "dict \<Rightarrow> str option" where
  "result_summary result =
     (if truthy (dict_get result ''summary'') then Some (py_str (dict_get result ''summary''))
      else (let dump = take 200 (json_dumps_ascii (JObj result)) in
        case dict_get_default result ''content'' (JStr []) of
          JStr c \<Rightarrow> Some (if c = [] then dump else take 200 c)
        | JList xs \<Rightarrow> Some (if xs = [] then dump else py_repr (JList (take 200 xs)))
        | _ \<Rightarrow> None))"

definition first_excerpt :: "str \<Rightarrow> dict \<Rightarrow> str" where
  "first_excerpt tool_name result =
     (if tool_name \<noteq> ''search_sources'' then []
      else (case as_list (dict_get result ''hits'') of
          hit # _ \<Rightarrow> take 160 (py_str (dict_get_default (as_dict hit) ''excerpt'' (JStr []))) | [] \<Rightarrow> []))"

definition display_summary :: "str \<Rightarrow> dict \<Rightarrow> str \<Rightarrow> str" where
  "display_summary tool_name result summary =
     (let excerpt = first_excerpt tool_name result;
          s1 = (if excerpt = [] then summary else summary @ ''; '' @ excerpt);
          s2 = (case dict_get result ''writing_signals'' of
              JObj _ \<Rightarrow> if occurs_in ''writing_signals'' s1 then s1
                 else if s1 = [] then ''writing_signals''
                 else lstrip_chars [CHR '';'', CHR '' ''] (rstrip_chars [CHR '';'', CHR '' ''] (s1 @ ''; writing_signals''))
            | _ \<Rightarrow> s1);
          err = take 240 (py_str (dict_get result ''error''))
      in if truthy (dict_get result ''error'') \<and> tool_name \<notin> set OPENING_POND_TOOLS \<and> err \<noteq> [] \<and> \<not> occurs_in err s2
         then err else s2)"

definition result_is_error :: "dict \<Rightarrow> bool" where
  "result_is_error result \<longleftrightarrow> truthy (dict_get result ''error'') \<or> str_field result ''status'' = ''error''"

text \<open>\<open>drop_pond_tool_attempt\<close> of \<open>writing/opening_ponds.py\<close> on a history whose last message is given.\<close>

definition drop_pond_tool_attempt :: "json list \<Rightarrow> str \<Rightarrow> json list" where
  "drop_pond_tool_attempt msgs tool_call_id =
     (if msgs = [] then msgs
      else (let final = last msgs; uses = filter (block_is ''tool_use'') (msg_blocks final);
                mine = (\<lambda>b. block_is ''tool_use'' b \<and> str_field b ''id'' = tool_call_id);
                kept = filter (\<lambda>b. \<not> mine b) (msg_blocks final)
            in if \<not> msg_role_is ''assistant'' final \<or> uses = [] then msgs
               else if length uses = 1 \<and> mine (hd uses) then butlast msgs
               else if length kept = length (msg_blocks final) then msgs
               else if filter (block_is ''tool_use'') kept = [] then butlast msgs
               else butlast msgs @ [JObj (dict_set (as_dict final) ''content'' (JList (map JObj kept)))]))"

definition wants_fresh_retry :: "str \<Rightarrow> dict \<Rightarrow> bool" where
  "wants_fresh_retry tool_name result \<longleftrightarrow>
     tool_name \<in> {''propose_book_candidates'', ''propose_opening_ponds''} \<and> result_is_error result
     \<and> truthy (dict_get result ''fresh_retry'') \<and> \<not> truthy (dict_get result ''stop_retry'')"

definition result_label :: "str \<Rightarrow> dict \<Rightarrow> str option" where
  "result_label tool_name result =
     (let t = dict_get result ''_taint''; declared = snd (declared_class tool_name) in
      if truthy t then Some (py_str t)
      else if declared \<in> {''system'', ''user'', ''workspace'', ''external''} then Some declared else None)"

definition answer_result :: "tool_env \<Rightarrow> agent_state \<Rightarrow> str \<Rightarrow> str \<Rightarrow> dict \<Rightarrow> agent_state" where
  "answer_result env st tool_call_id tool_name result =
     (if wants_fresh_retry tool_name result
      then st\<lparr>core := core st\<lparr>messages := drop_pond_tool_attempt (history st) tool_call_id\<rparr>,
              volatile_context := te_fresh_retry env (volatile_context st)\<rparr>
      else (let label = result_label tool_name result;
                body = filter (\<lambda>(k, v). k \<noteq> ''audit'' \<and> k \<noteq> ''_taint'') result;
                st1 = push_message st (tool_result_message tool_call_id (json_dumps (JObj body))
                   (result_is_error result) label)
            in (case label of None \<Rightarrow> st1 | Some l \<Rightarrow> st1\<lparr>core := raise_window (core st1) l\<rparr>)))"

text \<open>Results that end the turn, with the reason they leave.\<close>

definition stop_reason :: "agent_state \<Rightarrow> str \<Rightarrow> dict \<Rightarrow> str option" where
  "stop_reason st tool_name result =
     (let err = result_is_error result; on = (\<lambda>k. truthy (dict_get result k)) in
      if tool_name = ''stub_echo'' then Some (termination_reason st)
      else if tool_name = ''update_plan'' \<and> plan_phase (core st) = Some ''planning'' \<and> \<not> err \<and> on ''awaiting_consent''
      then Some ''plan_awaiting_consent''
      else if tool_name = ''propose_retcon'' \<and> \<not> err \<and> on ''awaiting_consent'' then Some ''retcon_awaiting_consent''
      else if tool_name \<in> set OPENING_POND_TOOLS \<and> \<not> err \<and> on ''awaiting_choice''
      then Some ''opening_ponds_awaiting_choice''
      else if tool_name \<in> set OPENING_POND_TOOLS \<and> err \<and> on ''stop_retry'' then Some ''opening_ponds_retry_exhausted''
      else if tool_name = ''update_outline'' \<and> \<not> err \<and> on ''awaiting_direction'' then Some ''outline_awaiting_direction''
      else None)"

definition note_delivery :: "agent_state \<Rightarrow> str \<Rightarrow> dict \<Rightarrow> agent_state" where
  "note_delivery st tool_name result =
     (if tool_name \<noteq> ''export_document'' then st
      else st\<lparr>delivery := Some [
        (''delivery_status'', JStr (py_str (dict_get_default result ''delivery_status'' (JStr ''failed'')))),
        (''delivery_issues'', JList (py_iter (dict_get result ''delivery_issues''))),
        (''export_path'', JStr (py_str (dict_get_default result ''output_path'' (JStr []))))]\<rparr>)"

section \<open>One call\<close>

definition WRITING_PROSE_TOOLS :: "str list" where
  "WRITING_PROSE_TOOLS = [''draft_section'', ''propose_patch'', ''apply_patch'']"

text \<open>
  A proposed patch may be applied and prose may get its signals: \<open>te_attach\<close> gives the result
  after both, and whether signals were attached.
\<close>

definition attach_signals :: "tool_env \<Rightarrow> str \<Rightarrow> json \<Rightarrow> dict \<Rightarrow> agent_state \<Rightarrow> dict \<times> agent_state" where
  "attach_signals env tool_name arguments result st =
     (let (result1, attached) = te_attach env tool_name arguments result in
      (result1, if attached \<and> tool_name \<in> set WRITING_PROSE_TOOLS \<union> {''evaluate_writing_fragment''}
                then note_writing_signals st result1 else st))"

type_synonym call_end = "str \<times> engine \<times> agent_state"

definition complete_call :: "tool_env \<Rightarrow> engine \<Rightarrow> agent_state \<Rightarrow> str \<Rightarrow> str \<Rightarrow> json \<Rightarrow> dict \<Rightarrow> call_end option" where
  "complete_call env eng st tool_call_id tool_name arguments result0 =
     (let (result, st1) = attach_signals env tool_name arguments result0 st;
          st2 = note_delivery st1 tool_name result
      in (case result_summary result of None \<Rightarrow> None
        | Some summary \<Rightarrow>
            (let st3 = answer_result env st2 tool_call_id tool_name result;
                 eng1 = (if wants_fresh_retry tool_name result
                    then eng\<lparr>engine_volatile := te_fresh_retry env (engine_volatile eng)\<rparr> else eng)
             in case stop_reason st3 tool_name result of
               Some reason \<Rightarrow> Some (''TERMINATE'', eng1, st3\<lparr>termination_reason := reason\<rparr>)
             | None \<Rightarrow> Some (tool_batch_outcome (display_summary tool_name result summary), eng1, st3))))"

definition end_call :: "tool_env \<Rightarrow> engine \<Rightarrow> agent_state \<Rightarrow> int \<Rightarrow> str \<Rightarrow> str \<Rightarrow> json \<Rightarrow> dict \<Rightarrow> call_end option" where
  "end_call env eng st step tool_call_id tool_name arguments result =
     (let status = dict_get result ''status'' in
      if fst (te_cancel env) \<or> status = JStr ''cancelled''
      then Some (''CANCELLED'', eng, note_cancel st (snd (te_cancel env) \<or> cancel_force st) ''tool_exec'')
      else if status = JStr ''approval_required''
      then Some (''waiting_approval'',
             eng\<lparr>pending_approval := Some (park_approval env st step tool_call_id tool_name arguments result)\<rparr>, st)
      else if status = JStr ''timeout''
      then Some (py_str (dict_get_default result ''summary'' (JStr ''tool timed out'')), eng,
             push_message st (tool_result_message tool_call_id (json_dumps_ascii (JObj result)) True None))
      else complete_call env eng st tool_call_id tool_name arguments result)"

text \<open>\<open>call["id"]\<close> and \<open>call["name"]\<close>, texts as the gateways make them; None is an exception.\<close>

definition run_tool :: "tool_env \<Rightarrow> engine \<Rightarrow> agent_state \<Rightarrow> int \<Rightarrow> (int \<times> int) option \<Rightarrow> dict \<Rightarrow> call_end option" where
  "run_tool env eng st step counters call =
     (case (map_of call ''id'', map_of call ''name'') of
        (Some (JStr tool_call_id), Some (JStr tool_name)) \<Rightarrow>
          (let arguments = dict_get_default call ''input'' (JObj []) in
           case call_gate env eng st tool_name arguments counters of
             (eng1, Some (result, is_error, summary)) \<Rightarrow>
               Some (summary, eng1, push_message st
                 (tool_result_message tool_call_id (json_dumps (JObj result)) is_error None))
           | (eng1, None) \<Rightarrow>
               (let (st1, stopped) = draft_cancelled env st tool_name arguments in
                if stopped then Some (''CANCELLED'', eng1, st1)
                else (case obtain_result env eng1 st1 step tool_call_id tool_name arguments of
                    None \<Rightarrow> None
                  | Some (eng2, st2, None) \<Rightarrow> Some (''waiting_child'', eng2, st2)
                  | Some (eng2, st2, Some result) \<Rightarrow>
                      (let (eng3, st3, result1) = note_coverage env eng2 st2 tool_name arguments result;
                           eng4 = ingest_evidence eng3 tool_name result1;
                           result2 = (if te_citations env
                              then annotate_unverified_citations env eng4 tool_name arguments result1 else result1)
                       in (case note_facts env st3 tool_name arguments result1 of None \<Rightarrow> None
                          | Some st4 \<Rightarrow> end_call env eng4 st4 step tool_call_id tool_name arguments result2)))))
      | _ \<Rightarrow> None)"

end
