(* ===== verification/AgentBatch.thy ===== *)
theory AgentBatch
  imports AgentTools
begin

text \<open>
  \<open>AgentEngine._run_tool_batch\<close> of \<open>services/runtime/app/engine/agent_engine.py\<close>: the calls of
  one model reply in order, neighbouring read-only calls on isolated copies of the state that
  are merged afterwards. Each call comes with its surroundings (\<open>tool_env\<close>). The calls of a
  parallel group are taken one after the other where the code lets them interleave; they
  share the engine and the sets and lists the code changes in place. The wall-clock check
  between calls is left out. The locale \<open>tool_surroundings\<close> states what a call relies on.
\<close>

section \<open>Merging an isolated run\<close>

definition loads_obj :: "str \<Rightarrow> dict option" where
  "loads_obj text_of = (case json_loads text_of of Some (JObj d) \<Rightarrow> Some d | _ \<Rightarrow> None)"

text \<open>\<open>int(x)\<close> of the merge, where an exception ends it.\<close>

definition merged_read :: "tool_env \<Rightarrow> dict \<Rightarrow> dict \<Rightarrow> ReadRegistry.registry \<Rightarrow> ReadRegistry.registry" where
  "merged_read env call result reg =
     (let path = py_str (py_or (dict_get result ''path'')
            (JStr (path_from_tool_arguments (JObj (as_dict (dict_get call ''input''))))));
          nxt = (case dict_get result ''next_offset'' of JNull \<Rightarrow> Some None | v \<Rightarrow> map_option Some (py_int v))
      in (case (py_int (py_or (dict_get result ''offset'') (JInt 1)),
                py_int (py_or (dict_get result ''end_line'') (JInt 0)), nxt) of
            (Some off, Some end_line, Some n) \<Rightarrow>
              record_successful_read reg path off end_line (truthy (dict_get result ''truncated'')) n
                (truthy (dict_get result ''whole_file_complete'')) (or_else (te_disk env path) [])
          | _ \<Rightarrow> reg))"

fun merge_readonly_read_registry ::
  "tool_env \<Rightarrow> dict \<Rightarrow> json list \<Rightarrow> ReadRegistry.registry \<Rightarrow> ReadRegistry.registry" where
  "merge_readonly_read_registry env call [] reg = reg"
| "merge_readonly_read_registry env call (m # ms) reg =
     (if dict_get call ''name'' \<noteq> JStr ''read_file'' then reg
      else if \<not> is_tool m then merge_readonly_read_registry env call ms reg
      else (case filter (\<lambda>b. block_is ''tool_result'' b \<and> dict_get b ''tool_use_id'' = dict_get call ''id'') (msg_blocks m) of
          [] \<Rightarrow> merge_readonly_read_registry env call ms reg
        | block # _ \<Rightarrow> (case loads_obj (py_str (dict_get_default block ''content'' (JStr []))) of
              None \<Rightarrow> reg
            | Some result \<Rightarrow> if truthy (dict_get result ''error'') then reg else merged_read env call result reg)))"

section \<open>A batch\<close>

text \<open>The counters each call of a parallel group starts from, and those after the group.\<close>

fun counter_seeds :: "int \<Rightarrow> int \<Rightarrow> dict list \<Rightarrow> (int \<times> int) list \<times> int \<times> int" where
  "counter_seeds r s [] = ([], r, s)"
| "counter_seeds r s (call # calls) =
     (let r' = (if dict_get call ''name'' = JStr ''read_file'' then r + 1 else r);
          s' = (if dict_get call ''name'' = JStr ''search_sources'' then s + 1 else s);
          (seeds, r'', s'') = counter_seeds r' s' calls
      in ((r, s) # seeds, r'', s''))"

text \<open>\<open>copy(state)\<close> with its own message list and registry.\<close>

definition isolate_state :: "agent_state \<Rightarrow> ReadRegistry.registry \<Rightarrow> agent_state" where
  "isolate_state st reg = st\<lparr>core := core st\<lparr>messages := []\<rparr>, read_registry := reg\<rparr>"

text \<open>What a shallow copy shares with the original: sets and lists changed in place.\<close>

definition share_back :: "agent_state \<Rightarrow> agent_state \<Rightarrow> agent_state" where
  "share_back twin st = st\<lparr>evicted_paths := evicted_paths twin,
     evicted_reread_used := evicted_reread_used twin, loaded_skill_names := loaded_skill_names twin\<rparr>"

type_synonym batch_item = "tool_env \<times> dict"

fun run_isolated ::
  "engine \<Rightarrow> agent_state \<Rightarrow> int \<Rightarrow> ReadRegistry.registry \<Rightarrow> (batch_item \<times> int \<times> int) list
     \<Rightarrow> ((str \<times> agent_state) list \<times> engine \<times> agent_state) option" where
  "run_isolated eng st step reg [] = Some ([], eng, st)"
| "run_isolated eng st step reg (((env, call), seed) # items) =
     (case run_tool env eng (isolate_state st reg) step (Some seed) call of
        None \<Rightarrow> None
      | Some (summary, eng1, twin) \<Rightarrow>
          (case run_isolated eng1 (share_back twin st) step reg items of
             None \<Rightarrow> None
           | Some (runs, eng2, st2) \<Rightarrow> Some ((summary, twin) # runs, eng2, st2)))"

definition merge_run :: "agent_state \<Rightarrow> batch_item \<times> str \<times> agent_state \<Rightarrow> agent_state" where
  "merge_run st p = (case p of ((env, call), summary, twin) \<Rightarrow>
     (let st1 = st\<lparr>core := core st\<lparr>messages := messages (core st) @ history twin\<rparr>,
            read_registry := merge_readonly_read_registry env call (history twin) (read_registry st)\<rparr>
      in if cancelled (core twin)
         then note_cancel st1 (cancel_force twin)
           (case cancelled_at_phase twin of Some (c # cs) \<Rightarrow> c # cs | _ \<Rightarrow> ''tool_exec'')
         else st1))"

definition run_parallel ::
  "batch_item list \<Rightarrow> engine \<Rightarrow> agent_state \<Rightarrow> int \<Rightarrow> (str list \<times> engine \<times> agent_state) option" where
  "run_parallel items eng st step =
     (let (seeds, r, s) = counter_seeds (read_file_calls eng) (search_sources_calls eng) (map snd items) in
      case run_isolated eng st step (read_registry st) (zip items seeds) of
        None \<Rightarrow> None
      | Some (runs, eng1, st1) \<Rightarrow>
          Some (map fst runs, eng1\<lparr>read_file_calls := r, search_sources_calls := s\<rparr>,
                foldl merge_run st1 (zip items runs)))"

definition run_group ::
  "batch_item list \<Rightarrow> engine \<Rightarrow> agent_state \<Rightarrow> int \<Rightarrow> (str list \<times> engine \<times> agent_state) option" where
  "run_group items eng st step = (case items of
      [(env, call)] \<Rightarrow> map_option (\<lambda>(s, e, t). ([s], e, t)) (run_tool env eng st step None call)
    | _ \<Rightarrow> run_parallel items eng st step)"

abbreviation parallel_item :: "batch_item \<Rightarrow> bool" where
  "parallel_item p \<equiv> is_parallel_tool_call (snd p)"

function batch_groups :: "batch_item list \<Rightarrow> batch_item list list" where
  "batch_groups [] = []"
| "batch_groups (p # ps) =
     (if parallel_item p then (p # takeWhile parallel_item ps) # batch_groups (dropWhile parallel_item ps)
      else [p] # batch_groups ps)"
  by pat_completeness auto

termination
  by (relation "measure length") (auto simp: le_imp_less_Suc length_dropWhile_le)

definition STOPPING :: "str list" where
  "STOPPING = [''CANCELLED'', ''waiting_approval'', ''TERMINATE'']"

definition last_text :: "str option \<Rightarrow> str list \<Rightarrow> str option" where
  "last_text prev summaries =
     foldl (\<lambda>acc s. if s \<noteq> [] \<and> s \<noteq> ''waiting_child'' then Some s else acc) prev summaries"

fun run_groups ::
  "batch_item list list \<Rightarrow> engine \<Rightarrow> agent_state \<Rightarrow> int \<Rightarrow> str option
     \<Rightarrow> (str option \<times> engine \<times> agent_state) option" where
  "run_groups [] eng st step prev =
     Some (if pending_children eng \<noteq> [] then Some ''waiting_child'' else prev, eng, st)"
| "run_groups (g # gs) eng st step prev =
     (case run_group g eng st step of None \<Rightarrow> None
      | Some (summaries, eng1, st1) \<Rightarrow>
          (case filter (\<lambda>s. s \<in> set STOPPING) summaries of
             s # _ \<Rightarrow> Some (Some s, eng1, st1)
           | [] \<Rightarrow> if cancelled (core st1) then Some (Some ''CANCELLED'', eng1, st1)
                   else run_groups gs eng1 st1 step (last_text prev summaries)))"

definition run_tool_batch ::
  "batch_item list \<Rightarrow> engine \<Rightarrow> agent_state \<Rightarrow> int \<Rightarrow> (str option \<times> engine \<times> agent_state) option" where
  "run_tool_batch items eng st step = run_groups (batch_groups items) eng st step None"

section \<open>What the surroundings owe a call\<close>

lemma single_result_message: "t \<noteq> [] \<Longrightarrow> single_result (tool_result_message t s e l) t"
  by (auto simp: single_result_def tool_result_message_def msg_role_is_def msg_blocks_def block_is_def str_field_Cons)

lemma field_text: "py_str (py_or (JStr t) (JStr [])) = t"
  by (cases "t = []") simp_all

abbreviation pond_call :: "dict \<Rightarrow> bool" where
  "pond_call call \<equiv>
     map_of call ''name'' \<in> {Some (JStr ''propose_book_candidates''), Some (JStr ''propose_opening_ponds'')}"

locale tool_surroundings =
  fixes env :: tool_env
  assumes execute_history: "te_execute env n t a g st = Some (r, st') \<Longrightarrow> history st' = history st"
begin

lemma written_history: "history (note_written env st n a r) = history st"
  by (simp add: note_written_def remember_edit_def Let_def split: prod.splits)

lemma command_history: "history (note_command env st n a r) = history st"
  by (simp add: note_command_def Let_def split: json.splits)

lemma plan_history: "history (note_plan st n r) = history st"
  by (simp add: note_plan_def Let_def split: json.splits)

lemma rules_history: "history (append_path_rules env st p) = history st"
  by (simp add: append_path_rules_def Let_def)

lemma facts_history: "note_facts env st n a r = Some st' \<Longrightarrow> history st' = history st"
  by (auto simp: note_facts_def Let_def rules_history plan_history command_history written_history note_core
      split: if_splits)

lemma attach_history: "attach_signals env n a r st = (r', st') \<Longrightarrow> history st' = history st"
  by (auto simp: attach_signals_def note_writing_signals_def split: prod.splits if_splits option.splits)

lemma read_history:
  assumes "note_read env eng st a r = (eng', st', r')"
  shows "history st' = history st \<and> pending_children eng' = pending_children eng"
proof -
  have "eng' = fst (note_read env eng st a r)" "st' = fst (snd (note_read env eng st a r))"
    using assms by simp_all
  then show ?thesis
    by (simp add: note_read_def Let_def split_beta split: json.split)
qed

lemma coverage_history:
  "note_coverage env eng st n a r = (eng', st', r') \<Longrightarrow>
     history st' = history st \<and> pending_children eng' = pending_children eng"
  using read_history by (auto simp: note_coverage_def split: if_splits)

lemma draft_history: "draft_cancelled env st n a = (st', b) \<Longrightarrow> history st' = history st"
  by (auto simp: draft_cancelled_def Let_def split: if_splits)

lemma delivery_history: "history (note_delivery st n r) = history st"
  by (simp add: note_delivery_def)

lemma skill_history: "history (note_skill st n r) = history st"
  by (simp add: note_skill_def Let_def)

text \<open>A cached or fresh result leaves the history alone; a parked child is noted under its call.\<close>

lemma obtain_history:
  assumes "obtain_result env eng st step t n a = Some (eng', st', r)"
  shows "history st' = history st
    \<and> (case r of Some _ \<Rightarrow> pending_children eng' = pending_children eng
       | None \<Rightarrow> \<exists>spec. pending_children eng' = pending_children eng @ [spec] \<and> str_field spec ''tool_call_id'' = t)"
proof -
  obtain hit eng1 where look: "(if skip_read_cache st n a then (None, eng) else lookup_tool_cache eng n a) = (hit, eng1)"
    by force
  have p1: "pending_children eng1 = pending_children eng"
    using look by (auto simp: lookup_tool_cache_def Let_def split: if_splits option.splits)
  show ?thesis
  proof (cases hit)
    case (Some x)
    with assms look p1 show ?thesis by (auto simp: obtain_result_def)
  next
    case None
    with assms look obtain raw st1 where ex: "te_execute env n t a None st = Some (raw, st1)"
      by (auto simp: obtain_result_def split: option.splits)
    define res where "res = te_inject env n raw"
    obtain pend parked where park: "park_spawned_child (pending_children eng1) (JObj res) t step a (turn_id st) (run_id st) = (pend, parked)"
      by force
    note eq = assms [unfolded obtain_result_def look None]
    show ?thesis
    proof (cases parked)
      case True
      with park have "\<exists>spec. pend = pending_children eng1 @ [spec] \<and> str_field spec ''tool_call_id'' = t"
        by (auto simp: park_spawned_child_def Let_def str_field_def field_text split: if_splits)
      with True eq ex park p1 execute_history [OF ex] skill_history show ?thesis
        by (auto simp: res_def Let_def)
    next
      case False
      have "pending_children (store_tool_cache eng1 n a res) = pending_children eng1"
        by (simp add: store_tool_cache_def Let_def)
      with False eq ex park p1 execute_history [OF ex] skill_history show ?thesis
        by (auto simp: res_def Let_def)
    qed
  qed
qed

lemma answer_history:
  assumes "\<not> wants_fresh_retry n r" and "t \<noteq> []"
  shows "\<exists>m. history (answer_result env st t n r) = history st @ [m] \<and> single_result m t"
  using assms single_result_message [OF assms(2)]
  by (auto simp: answer_result_def Let_def split: option.splits)

text \<open>
  The ways a call ends: stopped, parked for a child, answered by one message, or, for a pond
  tool that asks for a fresh retry, with the attempt dropped from the history.
\<close>

lemma run_tool_ends:
  assumes "run_tool env eng st step counters call = Some (s, eng', st')"
    and "map_of call ''id'' = Some (JStr t)" and "t \<noteq> []"
  shows "(s \<in> set STOPPING \<and> history st' = history st)
    \<or> (history st' = history st \<and> (\<exists>spec. pending_children eng' = pending_children eng @ [spec] \<and> str_field spec ''tool_call_id'' = t))
    \<or> (\<exists>m. history st' = history st @ [m] \<and> single_result m t \<and> pending_children eng' = pending_children eng)
    \<or> (pond_call call \<and> history st' = drop_pond_tool_attempt (history st) t
         \<and> pending_children eng' = pending_children eng)"
proof -
  obtain n where n: "map_of call ''name'' = Some (JStr n)"
    using assms(1,2) by (auto simp: run_tool_def split: option.splits json.splits)
  let ?a = "dict_get_default call ''input'' (JObj [])"
  obtain eng1 early where gate: "call_gate env eng st n ?a counters = (eng1, early)" by force
  have p1: "pending_children eng1 = pending_children eng"
    using gate by (auto simp: call_gate_def read_gate_def search_gate_def count_read_def count_search_def Let_def
        split: if_splits option.splits prod.splits)
  note eq = assms(1) [unfolded run_tool_def assms(2) n]
  show ?thesis
  proof (cases early)
    case (Some e)
    with eq gate p1 single_result_message [OF assms(3)] show ?thesis
      by (cases e) (auto simp: Let_def)
  next
    case None
    obtain st1 stopped where d: "draft_cancelled env st n ?a = (st1, stopped)" by force
    have h1: "history st1 = history st" using draft_history [OF d] .
    show ?thesis
    proof (cases stopped)
      case True
      with eq gate None d h1 show ?thesis by (auto simp: Let_def STOPPING_def)
    next
      case False
      with eq gate None d obtain eng2 st2 res where o: "obtain_result env eng1 st1 step t n ?a = Some (eng2, st2, res)"
        by (auto simp: Let_def split: option.splits)
      note oh = obtain_history [OF o]
      show ?thesis
      proof (cases res)
        case None2: None
        with eq gate None d False o oh h1 p1 show ?thesis by (auto simp: Let_def)
      next
        case (Some r)
        obtain eng3 st3 r1 where c: "note_coverage env eng2 st2 n ?a r = (eng3, st3, r1)" by (cases rule: prod_cases3)
        let ?r2 = "if te_citations env then annotate_unverified_citations env (ingest_evidence eng3 n r1) n ?a r1 else r1"
        obtain eng4 r2 where new: "eng4 = ingest_evidence eng3 n r1" "r2 = ?r2"
          by blast
        obtain st4 where facts: "note_facts env st3 n ?a r1 = Some st4"
          using eq gate None d False o Some c by (auto simp: Let_def simp del: if_split split: option.splits)
        have e: "end_call env eng4 st4 step t n ?a r2 = Some (s, eng', st')"
          using eq gate None d False o Some c facts by (simp add: Let_def new split del: if_split)
        have h4: "history st4 = history st" "pending_children eng4 = pending_children eng"
          using coverage_history [OF c] oh Some h1 p1
          by (simp_all add: new facts_history [OF facts] ingest_evidence_def Let_def)
        consider (stop) "s \<in> set STOPPING" "history st' = history st4"
          | (late) "st' = push_message st4 (tool_result_message t (json_dumps_ascii (JObj r2)) True None)" "eng' = eng4"
          | (complete) "complete_call env eng4 st4 t n ?a r2 = Some (s, eng', st')"
          using e by (auto simp: end_call_def Let_def STOPPING_def split: if_splits)
        then show ?thesis
        proof cases
          case stop
          with h4 show ?thesis by simp
        next
          case late
          with h4 single_result_message [OF assms(3)] show ?thesis by auto
        next
          case complete
          obtain r3 st5 where dom: "attach_signals env n ?a r2 st4 = (r3, st5)" by force
          define st6 where "st6 = answer_result env (note_delivery st5 n r3) t n r3"
          have fin: "pending_children eng' = pending_children eng4 \<and> history st' = history st6"
            using complete dom by (auto simp: complete_call_def Let_def st6_def split: option.splits)
          have h5: "history (note_delivery st5 n r3) = history st"
            using attach_history [OF dom] delivery_history h4 by simp
          show ?thesis
          proof (cases "wants_fresh_retry n r3")
            case True
            then have "pond_call call" using n by (auto simp: wants_fresh_retry_def)
            moreover have "history st6 = drop_pond_tool_attempt (history st) t"
              using True by (simp add: st6_def answer_result_def h5)
            ultimately show ?thesis using fin h4 by simp
          next
            case False
            obtain m where "history st6 = history st @ [m]" "single_result m t"
              using answer_history [OF False assms(3)] unfolding st6_def h5 [symmetric] by blast
            with fin h4 show ?thesis by auto
          qed
        qed
      qed
    qed
  qed
qed

end

section \<open>Every call of a batch is answered or parked\<close>

text \<open>
  The calls with ids \<open>ts\<close>, in order: each is answered by the next message or belongs to the
  next parked child.
\<close>

inductive answers_calls :: "str list \<Rightarrow> json list \<Rightarrow> dict list \<Rightarrow> bool" where
  none: "answers_calls [] [] []"
| answered: "single_result m t \<Longrightarrow> answers_calls ts ms specs \<Longrightarrow> answers_calls (t # ts) (m # ms) specs"
| parked: "str_field spec ''tool_call_id'' = t \<Longrightarrow> answers_calls ts ms specs \<Longrightarrow> answers_calls (t # ts) ms (spec # specs)"

inductive_cases answers_callsE: "answers_calls ts ms specs"

lemma answers_append:
  "answers_calls ts ms specs \<Longrightarrow> answers_calls ts' ms' specs' \<Longrightarrow> answers_calls (ts @ ts') (ms @ ms') (specs @ specs')"
  by (induction rule: answers_calls.induct) (auto intro: answers_calls.intros)

lemma answers_single: "answers_calls ts ms specs \<Longrightarrow> m \<in> set ms \<Longrightarrow> \<exists>t. single_result m t"
  by (induction rule: answers_calls.induct) auto

lemma answers_cover:
  "answers_calls ts ms specs \<Longrightarrow> t \<in> set ts \<Longrightarrow>
     t \<in> set (concat (map result_ids ms)) \<or> t \<in> (\<lambda>spec. str_field spec ''tool_call_id'') ` set specs"
  by (induction rule: answers_calls.induct) (auto simp: single_result_ids)

lemma answers_spec_ids:
  "answers_calls ts ms specs \<Longrightarrow> set (map (\<lambda>spec. str_field spec ''tool_call_id'') specs) \<subseteq> set ts
     \<and> (distinct ts \<longrightarrow> distinct (map (\<lambda>spec. str_field spec ''tool_call_id'') specs))"
  by (induction rule: answers_calls.induct) auto

lemma answers_count: "answers_calls ts ms specs \<Longrightarrow> length (concat (map result_ids ms)) \<le> length ts"
  by (induction rule: answers_calls.induct) (auto simp: single_result_ids)

lemma answers_all: "answers_calls ts ms [] \<Longrightarrow> concat (map result_ids ms) = ts"
  by (induction ts arbitrary: ms) (auto elim: answers_callsE simp: single_result_ids)

text \<open>
  A call with a named id whose surroundings keep their promises, and one that cannot drop its
  attempt. In the calls of a reply only the first may: a pond tool's fresh retry looks for its
  attempt in the last message alone.
\<close>

definition call_named :: "batch_item \<Rightarrow> bool" where
  "call_named p \<longleftrightarrow> tool_surroundings (fst p) \<and> (\<exists>t. t \<noteq> [] \<and> map_of (snd p) ''id'' = Some (JStr t))"

definition call_ok :: "batch_item \<Rightarrow> bool" where
  "call_ok p \<longleftrightarrow> call_named p \<and> \<not> pond_call (snd p)"

definition calls_ok :: "batch_item list \<Rightarrow> bool" where
  "calls_ok items \<longleftrightarrow> (\<forall>p \<in> set items. call_named p) \<and> (\<forall>p \<in> set (drop 1 items). \<not> pond_call (snd p))"

definition item_id :: "batch_item \<Rightarrow> str" where
  "item_id p = (case map_of (snd p) ''id'' of Some (JStr t) \<Rightarrow> t | _ \<Rightarrow> [])"

lemma call_ends:
  assumes "call_ok (env, call)" and "run_tool env eng st step c call = Some (s, eng', st')" and "s \<notin> set STOPPING"
  obtains ms specs where "history st' = history st @ ms" and "pending_children eng' = pending_children eng @ specs"
    and "answers_calls [item_id (env, call)] ms specs"
proof -
  obtain t where t: "t \<noteq> []" "map_of call ''id'' = Some (JStr t)"
    and n: "\<not> pond_call call" and sur: "tool_surroundings env"
    using assms(1) by (auto simp: call_ok_def call_named_def)
  have id: "item_id (env, call) = t" using t by (simp add: item_id_def)
  from tool_surroundings.run_tool_ends [OF sur assms(2) t(2,1)] assms(3) n
  consider (child) spec where "history st' = history st" "pending_children eng' = pending_children eng @ [spec]"
      "str_field spec ''tool_call_id'' = t"
    | (one) m where "history st' = history st @ [m]" "single_result m t" "pending_children eng' = pending_children eng"
    by blast
  then show thesis
  proof cases
    case child
    with id that [of "[]" "[spec]"] show ?thesis by (auto intro: answers_calls.intros)
  next
    case one
    with id that [of "[m]" "[]"] show ?thesis by (auto intro: answers_calls.intros)
  qed
qed

lemma isolated_ends:
  assumes "\<forall>p \<in> set items. call_ok (fst p)"
    and "run_isolated eng st step reg items = Some (runs, eng', st')"
    and "\<forall>r \<in> set runs. fst r \<notin> set STOPPING"
  shows "history st' = history st \<and> length runs = length items
    \<and> (\<exists>specs. pending_children eng' = pending_children eng @ specs
         \<and> answers_calls (map (item_id \<circ> fst) items) (concat (map (history \<circ> snd) runs)) specs)"
  using assms
proof (induction eng st step reg items arbitrary: runs eng' st' rule: run_isolated.induct)
  case (2 eng st step reg env call seed items)
  obtain s eng1 twin where r: "run_tool env eng (isolate_state st reg) step (Some seed) call = Some (s, eng1, twin)"
    using "2.prems"(2) by (auto split: option.splits)
  obtain runs2 st2 where rest: "run_isolated eng1 (share_back twin st) step reg items = Some (runs2, eng', st2)"
    and out: "runs = (s, twin) # runs2" "st' = st2"
    using "2.prems"(2) r by (auto split: option.splits)
  have ok: "call_ok (env, call)" and ns: "s \<notin> set STOPPING"
    using "2.prems"(1,3) out by auto
  from call_ends [OF ok r ns] obtain ms specs where c: "history twin = ms"
    "pending_children eng1 = pending_children eng @ specs" "answers_calls [item_id (env, call)] ms specs"
    by (auto simp: isolate_state_def)
  have "history (share_back twin st) = history st" by (simp add: share_back_def)
  with "2.IH" [OF r refl refl _ rest] "2.prems"(1,3) out obtain specs2 where i: "history st2 = history st"
    "length runs2 = length items" "pending_children eng' = pending_children eng1 @ specs2"
    "answers_calls (map (item_id \<circ> fst) items) (concat (map (history \<circ> snd) runs2)) specs2"
    by (auto simp: comp_def)
  from answers_append [OF c(3) i(4)] c i out show ?case by (auto simp: comp_def)
qed (auto intro: answers_calls.intros)

lemma merge_run_history: "history (merge_run st (p, s, twin)) = history st @ history twin"
  by (cases p) (simp add: merge_run_def Let_def)

lemma merge_runs_history:
  "length items = length runs \<Longrightarrow>
     history (foldl merge_run st (zip items runs)) = history st @ concat (map (history \<circ> snd) runs)"
proof (induction items runs arbitrary: st rule: list_induct2)
  case (Cons p ps r rs)
  then show ?case by (cases r) (simp add: merge_run_history)
qed simp

lemma counter_seeds_length: "length (fst (counter_seeds r s calls)) = length calls"
  by (induction r s calls rule: counter_seeds.induct) (auto simp: Let_def split: prod.splits)

lemma group_ends:
  assumes "\<forall>p \<in> set items. call_ok p" and "run_group items eng st step = Some (summaries, eng', st')"
    and "\<forall>s \<in> set summaries. s \<notin> set STOPPING"
  shows "\<exists>ms specs. history st' = history st @ ms \<and> pending_children eng' = pending_children eng @ specs
    \<and> answers_calls (map item_id items) ms specs"
proof -
  have par: ?thesis if rp: "run_parallel items eng st step = Some (summaries, eng', st')"
  proof -
    obtain seeds r s where cs: "counter_seeds (read_file_calls eng) (search_sources_calls eng) (map snd items) = (seeds, r, s)"
      by (cases rule: prod_cases3)
    obtain runs eng1 st1 where ri: "run_isolated eng st step (read_registry st) (zip items seeds) = Some (runs, eng1, st1)"
      and out: "summaries = map fst runs" "eng' = eng1\<lparr>read_file_calls := r, search_sources_calls := s\<rparr>"
        "st' = foldl merge_run st1 (zip items runs)"
      using rp cs by (auto simp: run_parallel_def split: option.splits)
    have len: "length seeds = length items"
      using counter_seeds_length [of "read_file_calls eng" "search_sources_calls eng" "map snd items"] cs by simp
    have ok: "\<forall>p \<in> set (zip items seeds). call_ok (fst p)" using assms(1) by (auto dest: set_zip_leftD)
    have ns: "\<forall>x \<in> set runs. fst x \<notin> set STOPPING" using assms(3) out(1) by auto
    have ids: "map (item_id \<circ> fst) (zip items seeds) = map item_id items"
      using len by (simp add: map_zip_map flip: map_map)
    from isolated_ends [OF ok ri ns] obtain specs where i: "history st1 = history st" "length runs = length items"
      "pending_children eng1 = pending_children eng @ specs"
      "answers_calls (map item_id items) (concat (map (history \<circ> snd) runs)) specs"
      using len ids by auto
    have "history st' = history st @ concat (map (history \<circ> snd) runs)"
      unfolding out(3) using merge_runs_history [of items runs st1] i by simp
    with i out show ?thesis by auto
  qed
  show ?thesis
  proof (cases "\<exists>env call. items = [(env, call)]")
    case True
    then obtain env call where it: "items = [(env, call)]" by blast
    with assms(2) obtain s where s: "run_tool env eng st step None call = Some (s, eng', st')" "summaries = [s]"
      by (auto simp: run_group_def)
    have "call_ok (env, call)" "s \<notin> set STOPPING" using assms(1,3) it s by auto
    from call_ends [OF this(1) s(1) this(2)] it show ?thesis by (metis list.map(1,2))
  next
    case False
    with assms(2) have "run_parallel items eng st step = Some (summaries, eng', st')"
      by (auto simp: run_group_def split: list.splits)
    then show ?thesis by (rule par)
  qed
qed

lemma concat_batch_groups: "concat (batch_groups items) = items"
  by (induction items rule: batch_groups.induct) auto

lemma groups_end:
  assumes "\<forall>p \<in> set (concat gs). call_ok p" and "run_groups gs eng st step prev = Some (o1, eng', st')"
    and "o1 \<notin> Some ` set STOPPING" and "case prev of Some s \<Rightarrow> s \<notin> set STOPPING | None \<Rightarrow> True"
  shows "\<exists>ms specs. history st' = history st @ ms \<and> pending_children eng' = pending_children eng @ specs
    \<and> answers_calls (map item_id (concat gs)) ms specs"
  using assms
proof (induction gs eng st step prev rule: run_groups.induct)
  case (1 eng st step prev)
  then show ?case by (auto intro: answers_calls.intros)
next
  case (2 g gs eng st step prev)
  obtain summaries eng1 st1 where g: "run_group g eng st step = Some (summaries, eng1, st1)"
    using "2.prems"(2) by (auto split: option.splits)
  have "filter (\<lambda>s. s \<in> set STOPPING) summaries = []"
  proof (rule ccontr)
    assume "filter (\<lambda>s. s \<in> set STOPPING) summaries \<noteq> []"
    then obtain s rest where f: "filter (\<lambda>s. s \<in> set STOPPING) summaries = s # rest"
      by (cases "filter (\<lambda>s. s \<in> set STOPPING) summaries") auto
    then have "s \<in> set (filter (\<lambda>s. s \<in> set STOPPING) summaries)" by simp
    then have "s \<in> set STOPPING" by simp
    with "2.prems"(2,3) g f show False by auto
  qed
  note ns = this
  have nc: "\<not> cancelled (core st1)"
    using "2.prems"(2,3) g ns by (auto simp: STOPPING_def split: if_splits)
  have rest: "run_groups gs eng1 st1 step (last_text prev summaries) = Some (o1, eng', st')"
    using "2.prems"(2) g ns nc by simp
  have sums: "\<forall>s \<in> set summaries. s \<notin> set STOPPING"
    using ns by (simp add: filter_empty_conv)
  have "case last_text prev summaries of Some s \<Rightarrow> s \<notin> set STOPPING | None \<Rightarrow> True"
    unfolding last_text_def using sums "2.prems"(4)
    by (induction summaries arbitrary: prev) auto
  with "2.IH" [OF g refl refl ns nc _ rest "2.prems"(3)] "2.prems"(1) obtain ms2 specs2 where r:
    "history st' = history st1 @ ms2" "pending_children eng' = pending_children eng1 @ specs2"
    "answers_calls (map item_id (concat gs)) ms2 specs2"
    by auto
  have "\<forall>p \<in> set g. call_ok p" using "2.prems"(1) by simp
  from group_ends [OF this g sums] obtain ms specs where a: "history st1 = history st @ ms"
    "pending_children eng1 = pending_children eng @ specs" "answers_calls (map item_id g) ms specs" by blast
  from answers_append [OF a(3) r(3)] a r show ?case by auto
qed

lemma batch_ends:
  assumes "\<forall>p \<in> set items. call_ok p" and "run_tool_batch items eng st step = Some (o1, eng', st')"
    and "o1 \<notin> Some ` set STOPPING"
  obtains ms specs where "history st' = history st @ ms" and "pending_children eng' = pending_children eng @ specs"
    and "answers_calls (map item_id items) ms specs"
  using groups_end [of "batch_groups items" eng st step None o1 eng' st'] assms
  by (auto simp: run_tool_batch_def concat_batch_groups)

section \<open>A reply that begins with a pond tool\<close>

lemma get_after_set: "dict_get (dict_set d k v) k' = (if k' = k then v else dict_get d k')"
  by (simp add: dict_get_def map_of_dict_set)

text \<open>Dropping the attempt of the first call takes the call out of the message, or the message away.\<close>

lemma drop_first_attempt:
  assumes "message_has_tool_use c" and "use_ids c = t # ts" and "distinct (t # ts)"
  shows "ts = [] \<Longrightarrow> drop_pond_tool_attempt (h @ [c]) t = h"
    and "ts \<noteq> [] \<Longrightarrow> \<exists>c'. drop_pond_tool_attempt (h @ [c]) t = h @ [c'] \<and> message_has_tool_use c' \<and> use_ids c' = ts"
proof -
  let ?use = "block_is ''tool_use''" and ?id = "\<lambda>b. str_field b ''id''"
  let ?mine = "\<lambda>b. ?use b \<and> ?id b = t"
  let ?kept = "filter (\<lambda>b. \<not> ?mine b) (msg_blocks c)"
  have role: "msg_role_is ''assistant'' c" using assms(1) by (simp add: message_has_tool_use_def)
  obtain u us where uses: "filter ?use (msg_blocks c) = u # us" "?id u = t" "map ?id us = ts"
    using assms(2) by (auto simp: use_ids_def map_eq_Cons_conv)
  have "u \<in> set (filter ?use (msg_blocks c))" using uses(1) by simp
  then have u: "u \<in> set (msg_blocks c)" "?use u" by simp_all
  show "ts = [] \<Longrightarrow> drop_pond_tool_attempt (h @ [c]) t = h"
    using uses u role by (simp add: drop_pond_tool_attempt_def Let_def)
  assume ts: "ts \<noteq> []"
  have "filter ?use ?kept = filter (\<lambda>b. ?id b \<noteq> t) (filter ?use (msg_blocks c))"
    by (simp add: conj_commute cong: conj_cong)
  also have "\<dots> = filter (\<lambda>b. ?id b \<noteq> t) us"
    using uses by simp
  also have "\<dots> = us"
  proof -
    have "t \<notin> set (map ?id us)" using assms(3) unfolding uses(3) by simp
    then have "\<forall>b \<in> set us. ?id b \<noteq> t" unfolding set_map image_iff by blast
    then show ?thesis by (rule filter_True)
  qed
  finally have keep: "filter ?use ?kept = us" .
  have short: "length ?kept \<noteq> length (msg_blocks c)"
  proof -
    have "length ?kept < length (msg_blocks c)"
      by (rule length_filter_less [OF u(1)]) (simp add: u(2) uses(2))
    then show ?thesis by simp
  qed
  let ?c = "JObj (dict_set (as_dict c) ''content'' (JList (map JObj ?kept)))"
  have blocks: "msg_blocks ?c = ?kept"
    by (simp add: msg_blocks_def get_after_set comp_def)
  have "us \<noteq> []" using ts uses(3) by auto
  then have "drop_pond_tool_attempt (h @ [c]) t = h @ [?c]"
    using uses u role short keep by (simp add: drop_pond_tool_attempt_def Let_def)
  moreover have "use_ids ?c = ts"
    unfolding use_ids_def blocks keep by (rule uses(3))
  moreover have "message_has_tool_use ?c"
  proof -
    obtain v where "v \<in> set (filter ?use ?kept)" unfolding keep using \<open>us \<noteq> []\<close> by (cases us) auto
    then show ?thesis
      using role unfolding message_has_tool_use_def blocks by (auto simp: msg_role_is_def get_after_set)
  qed
  ultimately show "\<exists>c'. drop_pond_tool_attempt (h @ [c]) t = h @ [c'] \<and> message_has_tool_use c' \<and> use_ids c' = ts"
    by blast
qed

lemma pond_serial: "pond_call call \<Longrightarrow> \<not> is_parallel_tool_call call"
  by (auto simp: is_parallel_tool_call_def str_field_def dict_get_def CACHEABLE_TOOLS_def py_or_def Let_def)

text \<open>
  How a batch ends that does not stop the turn: the message of the calls stays, or has lost its
  first call, or is gone; the calls it still has are answered or parked, in order.
\<close>

lemma reply_ends:
  assumes "history st = h @ [c]" and "message_has_tool_use c"
    and "use_ids c = map item_id items" and "distinct (use_ids c)" and "calls_ok items"
    and "run_tool_batch items eng st step = Some (o1, eng', st')" and "o1 \<notin> Some ` set STOPPING"
  shows "(history st' = h \<and> pending_children eng' = pending_children eng)
    \<or> (\<exists>c' ms specs. history st' = h @ c' # ms \<and> message_has_tool_use c' \<and> distinct (use_ids c')
         \<and> set (use_ids c') \<subseteq> set (use_ids c)
         \<and> pending_children eng' = pending_children eng @ specs \<and> answers_calls (use_ids c') ms specs)"
proof (cases "\<forall>p \<in> set items. call_ok p")
  case True
  from batch_ends [OF True assms(6,7)] assms(1-4) show ?thesis by (metis append.assoc append_Cons append_Nil subset_refl)
next
  case False
  then obtain env call ps where items: "items = (env, call) # ps" and pond: "pond_call call"
    and ps: "\<forall>p \<in> set ps. call_ok p" and nm: "call_named (env, call)"
    using assms(5) by (cases items) (auto simp: calls_ok_def call_ok_def)
  obtain t where t: "t \<noteq> []" "map_of call ''id'' = Some (JStr t)" and sur: "tool_surroundings env"
    using nm by (auto simp: call_named_def)
  have id: "item_id (env, call) = t" using t by (simp add: item_id_def)
  have groups: "batch_groups items = [(env, call)] # batch_groups ps"
    using pond_serial [OF pond] by (simp add: items)
  obtain s eng1 st1 where r: "run_tool env eng st step None call = Some (s, eng1, st1)"
    using assms(6) by (auto simp: run_tool_batch_def groups run_group_def split: option.splits)
  have ns: "s \<notin> set STOPPING" and nc: "\<not> cancelled (core st1)"
    and rest: "run_groups (batch_groups ps) eng1 st1 step (last_text None [s]) = Some (o1, eng', st')"
    using assms(6,7) r by (auto simp: run_tool_batch_def groups run_group_def STOPPING_def split: if_splits)
  have "case last_text None [s] of Some s \<Rightarrow> s \<notin> set STOPPING | None \<Rightarrow> True"
    using ns by (simp add: last_text_def)
  from groups_end [OF _ rest assms(7) this] ps obtain ms specs where e: "history st' = history st1 @ ms"
    "pending_children eng' = pending_children eng1 @ specs" "answers_calls (map item_id ps) ms specs"
    by (auto simp: concat_batch_groups)
  have ids: "use_ids c = t # map item_id ps" using assms(3) id by (simp add: items)
  from tool_surroundings.run_tool_ends [OF sur r t(2,1)] ns
  consider (child) spec where "history st1 = history st" "pending_children eng1 = pending_children eng @ [spec]"
      "str_field spec ''tool_call_id'' = t"
    | (one) m where "history st1 = history st @ [m]" "single_result m t" "pending_children eng1 = pending_children eng"
    | (dropped) "history st1 = drop_pond_tool_attempt (h @ [c]) t" "pending_children eng1 = pending_children eng"
    using assms(1) by auto
  then show ?thesis
  proof cases
    case child
    with e ids have "history st' = h @ c # ms" "pending_children eng' = pending_children eng @ spec # specs"
      "answers_calls (use_ids c) ms (spec # specs)"
      using assms(1) by (auto intro: answers_calls.intros)
    with assms(2,4) show ?thesis by blast
  next
    case one
    with e ids have "history st' = h @ c # m # ms" "pending_children eng' = pending_children eng @ specs"
      "answers_calls (use_ids c) (m # ms) specs"
      using assms(1) by (auto intro: answers_calls.intros)
    with assms(2,4) show ?thesis by blast
  next
    case dropped
    have dist: "distinct (t # map item_id ps)" using assms(4) ids by simp
    note drop = drop_first_attempt [OF assms(2) ids dist, of h]
    show ?thesis
    proof (cases "map item_id ps = []")
      case True
      with e(3) have "ms = []" "specs = []" by (auto elim: answers_callsE)
      with drop(1) [OF True] dropped e show ?thesis by simp
    next
      case False
      from drop(2) [OF this] obtain c' where "drop_pond_tool_attempt (h @ [c]) t = h @ [c']"
        "message_has_tool_use c'" "use_ids c' = map item_id ps" by blast
      with dropped e dist ids show ?thesis
        by (intro disjI2 exI [of _ c'] exI [of _ ms] exI [of _ specs]) auto
    qed
  qed
qed

end
