(* ===== verification/AgentApproval.thy ===== *)
theory AgentApproval
  imports AgentBatch
begin

text \<open>
  The agent's calls through the real executor, and what happens after the user decided on a
  parked call: \<open>ToolExecutor.run\<close> of \<open>context/engine.py\<close> with the dictionaries it returns, the
  approval card of \<open>agent_engine.py\<close>, \<open>resume_after_tool_approval\<close> of the same file and the
  decision part of \<open>_resume_after_approval\<close> of \<open>controller/turn_controller.py\<close>. The executor of
  the model meets the contract \<open>tool_surroundings\<close> of theory AgentBatch.
\<close>

section \<open>The executor's results as the agent sees them\<close>

record executor_texts =
  et_invalid :: "str \<Rightarrow> dict \<Rightarrow> dict"
  et_seconds :: "str \<Rightarrow> str"
  et_exception :: "str \<Rightarrow> str"

definition blocked_dict :: "str \<Rightarrow> str \<Rightarrow> blocked \<Rightarrow> dict" where
  "blocked_dict tool_name tool_call_id b =
     (let head = (\<lambda>s. [(''status'', JStr s)]);
          tail = [(''sink_class'', JStr (b_sink b)), (''window_taint'', JStr (b_window b)),
                  (''policy_version'', JStr POLICY_VERSION)]
      in case b_status b of
        StatusError \<Rightarrow> head ''error'' @ [(''error'', JStr (b_summary b)), (''tool_name'', JStr tool_name),
            (''summary'', JStr (b_summary b))] @ (if b_window b = [] then [] else tail)
      | StatusApproval \<Rightarrow> head ''approval_required'' @ [(''tool_call_id'', JStr tool_call_id), (''tool_name'', JStr tool_name),
            (''summary'', JStr (b_summary b))] @ tail @ [(''external_source'', JStr (b_external_source b))]
            @ (if b_from_child b then [(''origin'', JStr ''child'')] else []))"

text \<open>None for a handler whose result is no dictionary: the agent's bookkeeping raises on it.\<close>

definition result_dict :: "executor_texts \<Rightarrow> str \<Rightarrow> str \<Rightarrow> dict \<Rightarrow> run_result \<Rightarrow> dict option" where
  "result_dict tx tool_name tool_call_id args r =
     (case r of
        ToolNotAvailable \<Rightarrow> Some [(''error'', JStr (''Tool not available: '' @ tool_name))]
      | InvalidArguments \<Rightarrow> Some (et_invalid tx tool_name args)
      | CallBlocked b \<Rightarrow> Some (blocked_dict tool_name tool_call_id b)
      | CallResult d \<Rightarrow> Some d
      | CallOther v \<Rightarrow> None
      | CallTimeout \<Rightarrow> Some [(''status'', JStr ''timeout''),
          (''summary'', JStr (''tool '' @ tool_name @ '' timed out after '' @ et_seconds tx tool_name @ ''s''))]
      | CallRejected \<Rightarrow> Some [(''error'', JStr ''invalid_arguments''), (''tool_name'', JStr tool_name),
          (''summary'', JStr (''Tool '' @ tool_name @ '' rejected arguments: '' @ et_exception tx tool_name)),
          (''details'', JList [JStr (et_exception tx tool_name)]), (''missing'', JList [])]
      | CallFailed \<Rightarrow> Some [(''error'', JStr (et_exception tx tool_name))])"

definition execute_call ::
  "executor_env \<Rightarrow> executor_texts \<Rightarrow> str \<Rightarrow> str \<Rightarrow> json \<Rightarrow> approval_grant option \<Rightarrow> agent_state
     \<Rightarrow> (dict \<times> agent_state) option" where
  "execute_call ex tx tool_name tool_call_id arguments grant st =
     (case executor_run ex tool_name tool_call_id (as_dict arguments) (core st) grant of
        None \<Rightarrow> None
      | Some (r, c) \<Rightarrow> map_option (\<lambda>d. (d, st\<lparr>core := c\<rparr>))
          (result_dict tx tool_name tool_call_id (fst (call_arguments ex tool_name (as_dict arguments))) r))"

section \<open>What a call leaves alone\<close>

text \<open>The conversation and the step counters belong to the loop; no call touches them.\<close>

definition turn_frame :: "turn_state \<Rightarrow> json list \<times> int \<times> int" where
  "turn_frame c = (messages c, step_count c, max_steps c)"


lemma raise_window_turn_frame: "turn_frame (raise_window st l) = turn_frame st"
  by (simp add: raise_window_def turn_frame_def Let_def split: if_splits)

lemma note_external_frame: "turn_frame (note_external_tool st t) = turn_frame st"
  using raise_window_turn_frame [of st] by (simp add: note_external_tool_def turn_frame_def)

lemma snapshot_stage_frame: "turn_frame (snd (snapshot_stage env st sink args)) = turn_frame st"
  by (auto simp: snapshot_stage_def turn_frame_def Let_def split: prod.splits)

lemma detector_stage_frame:
  "detector_stage env st sink args d = Some (d', st') \<Longrightarrow> turn_frame st' = turn_frame st"
  by (auto simp: detector_stage_def Let_def raise_window_turn_frame split: if_splits option.splits)

lemma final_stage_frame:
  "final_stage env st sink w args granted forced d = (r, st', hosts) \<Longrightarrow> turn_frame st' = turn_frame st"
  by (auto simp: final_stage_def turn_frame_def Let_def split: if_splits prod.splits)

lemma gate_decision_frame:
  assumes "gate_decision env st tool sink args granted w h = Some (d, st')"
  shows "turn_frame st' = turn_frame st"
proof -
  obtain ok st1 where s1: "snapshot_stage env st sink args = (ok, st1)" by fastforce
  with snapshot_stage_frame [of env st sink args] have "turn_frame st1 = turn_frame st" by simp
  with assms s1 show ?thesis
    by (auto simp: gate_decision_def Let_def dest!: detector_stage_frame split: option.splits)
qed

lemma authorize_frame:
  assumes "authorize env spec st tool args granted = Some (r, st', hosts)"
  shows "turn_frame st' = turn_frame st"
  using assms
  by (auto simp: authorize_def Let_def split: option.splits if_splits prod.splits
      dest!: gate_decision_frame final_stage_frame)

lemma ingress_frame: "apply_ingress notice mode sig item t r st = (a, st', b) \<Longrightarrow> turn_frame st' = turn_frame st"
  by (auto simp: apply_ingress_def Let_def raise_window_turn_frame split: if_splits prod.splits)

lemma run_handler_frame: "turn_frame (snd (run_handler ex t args st)) = turn_frame st"
  by (auto simp: run_handler_def dest: ingress_frame split: handler_outcome.splits prod.splits)

lemma executor_run_frame:
  assumes "executor_run ex tool cid args st g = Some (r, st')"
  shows "turn_frame st' = turn_frame st"
proof (cases "map_of (ex_specs ex) tool")
  case None
  with assms show ?thesis by (simp add: executor_run_def)
next
  case (Some spec)
  note eq = assms [unfolded executor_run_gate [OF Some]]
  show ?thesis
  proof (cases "ex_validate ex \<and> ex_invalid ex tool (fst (call_arguments ex tool args))")
    case True
    with eq show ?thesis by (auto simp: note_external_frame)
  next
    case False
    with eq obtain gr st2 hosts where g: "executor_gate ex spec tool cid args st g = Some (gr, st2, hosts)"
      by (auto split: option.splits)
    then have "turn_frame st2 = turn_frame (note_external_tool st tool)"
      by (auto simp: executor_gate_def Let_def dest: authorize_frame)
    with eq False g show ?thesis
      using run_handler_frame [of ex tool "snd (call_arguments ex tool args)" st2]
      by (cases gr) (auto simp: note_external_frame)
  qed
qed

text \<open>A call's surroundings with the executor of the model behind them.\<close>

definition with_executor :: "executor_env \<Rightarrow> executor_texts \<Rightarrow> tool_env \<Rightarrow> tool_env" where
  "with_executor ex tx env = env\<lparr>te_execute := execute_call ex tx\<rparr>"

interpretation executor_calls: tool_surroundings "with_executor ex tx env" for ex tx env
  by unfold_locales
    (auto simp: with_executor_def execute_call_def dest!: executor_run_frame simp: turn_frame_def split: option.splits)

section \<open>A child call after its approval\<close>

definition reparked_child :: "dict \<Rightarrow> str \<Rightarrow> str \<Rightarrow> json \<Rightarrow> dict \<Rightarrow> dict" where
  "reparked_child pending tool_call_id tool_name arguments result =
     (let either = (\<lambda>k. py_or (dict_get result k) (dict_get pending k)) in
      [(''tool_call_id'', JStr (py_str (py_or (dict_get result ''child_tool_call_id'') (JStr tool_call_id)))),
       (''tool_name'', JStr (py_str (py_or (dict_get result ''child_tool_name'') (JStr tool_name)))),
       (''arguments'', py_or (dict_get result ''child_arguments'') arguments),
       (''step_index'', dict_get pending ''step_index''), (''args_hash'', either ''args_hash''),
       (''policy_version'', either ''policy_version''), (''expires_at'', either ''expires_at''),
       (''window_taint'', either ''window_taint''),
       (''sink_class'', py_or (dict_get result ''sink_class'') (JStr [])),
       (''approval_id'', either ''approval_id''),
       (''origin'', py_or (either ''origin'') (JStr [])),
       (''parent_tool_call_id'', py_or (dict_get pending ''parent_tool_call_id'') (JStr [])),
       (''parent_arguments'', py_or (dict_get pending ''parent_arguments'') (JObj []))])"

text \<open>
  The parked call is run and answered; the first component is False when the agent goes on with
  its loop and True when it waits again.
\<close>

definition resume_after_tool_approval ::
  "tool_env \<Rightarrow> engine \<Rightarrow> agent_state \<Rightarrow> approval_grant option \<Rightarrow> (bool \<times> engine \<times> agent_state) option" where
  "resume_after_tool_approval env eng st approval =
     (let pending = or_else (pending_approval eng) []; eng1 = eng\<lparr>pending_approval := None\<rparr>;
          tool_name = str_field pending ''tool_name''; tool_call_id = str_field pending ''tool_call_id'';
          arguments = JObj (as_dict (dict_get pending ''arguments''))
      in if tool_name = [] \<or> tool_call_id = [] then Some (False, eng1, st)
         else (case te_execute env tool_name tool_call_id arguments approval st of None \<Rightarrow> None
           | Some (result, st1) \<Rightarrow>
               if dict_get result ''status'' = JStr ''approval_required''
               then Some (True, eng1\<lparr>pending_approval :=
                      Some (reparked_child pending tool_call_id tool_name arguments result)\<rparr>, st1)
               else (let t = dict_get result ''_taint''; body = filter (\<lambda>(k, v). k \<noteq> ''_taint'') result;
                         st2 = push_message st1 (tool_result_message tool_call_id (json_dumps (JObj body))
                            (result_is_error body) (if truthy t then Some (py_str t) else None))
                     in Some (False, eng1, if truthy t then st2\<lparr>core := raise_window (core st2) (py_str t)\<rparr> else st2))))"

section \<open>The decision of the user\<close>

text \<open>\<open>time.time() > float(x)\<close> in whole seconds; None is an exception.\<close>

definition passed_deadline :: "int \<Rightarrow> json \<Rightarrow> bool option" where
  "passed_deadline now v = (case v of JNull \<Rightarrow> Some False | _ \<Rightarrow> map_option (\<lambda>t. now > t) (py_int v))"

definition or_policy :: "str \<Rightarrow> str" where
  "or_policy v = (if v = [] then POLICY_VERSION else v)"

text \<open>The grant handed to the executor, None when the call changed or the policy moved on.\<close>

definition resumed_grant :: "tool_env \<Rightarrow> agent_state \<Rightarrow> dict \<Rightarrow> str \<Rightarrow> str \<Rightarrow> dict \<Rightarrow> approval_grant option" where
  "resumed_grant env st call tool_name tool_call_id resolved_args =
     (let live_hash = canonical_args_hash (te_digest env) (te_fs env) resolved_args;
          stored_hash = py_str (py_or (dict_get call ''args_hash'') (JStr live_hash));
          pinned = or_policy (pinned_policy_version st);
          stored_version = py_str (py_or (dict_get call ''policy_version'') (JStr pinned));
          expiry = dict_get call ''expires_at''
      in if stored_hash = live_hash \<and> stored_version = pinned \<and> pinned = POLICY_VERSION
         then Some \<lparr>ag_tool_name = tool_name, ag_tool_call_id = tool_call_id, ag_args_hash = stored_hash,
                ag_policy_version = stored_version, ag_expires_at = (if truthy expiry then py_int expiry else None)\<rparr>
         else None)"

definition interrupt_again :: "tool_env \<Rightarrow> agent_state \<Rightarrow> dict \<Rightarrow> str \<Rightarrow> str \<Rightarrow> dict \<Rightarrow> str \<Rightarrow> dict" where
  "interrupt_again env st call tool_call_id tool_name resolved_args live_hash =
     [(''tool_call_id'', JStr tool_call_id), (''tool_name'', JStr tool_name), (''arguments'', JObj resolved_args),
      (''step_index'', dict_get_default call ''step_index'' (JInt 0)), (''args_hash'', JStr live_hash),
      (''policy_version'', JStr (or_policy (pinned_policy_version st))),
      (''approval_id'', JStr (str_field call ''approval_id'')), (''expires_at'', dict_get call ''expires_at''),
      (''window_taint'', JStr (str_field call ''window_taint''))]"

text \<open>
  How a decision ends: the message was for another call, the call is parked again, or the agent
  goes on (with its pending children first, if it has any).
\<close>

datatype resumed = DecisionIgnored | ParkedAgain dict | GoesOn

definition denied_result :: "str \<Rightarrow> str \<Rightarrow> dict" where
  "denied_result reason tool_name =
     [(''status'', JStr ''denied''), (''reason'', JStr reason), (''tool_name'', JStr tool_name)]"

text \<open>\<open>child\<close> is \<open>resume_parked_child\<close>: the result of the child that was resumed.\<close>

definition finish_approved ::
  "tool_env \<Rightarrow> engine \<Rightarrow> dict \<Rightarrow> str \<Rightarrow> str \<Rightarrow> dict \<Rightarrow> dict \<Rightarrow> agent_state
     \<Rightarrow> (resumed \<times> engine \<times> agent_state) option" where
  "finish_approved env eng call tool_call_id tool_name args result st =
     (let from_child = starts_with (str_field call ''origin'') ''child/'' in
      if dict_get result ''status'' = JStr ''approval_required''
      then (let interrupt = interrupt_again env st call tool_call_id tool_name args
                  (canonical_args_hash (te_digest env) (te_fs env) args)
            in Some (ParkedAgain interrupt, eng\<lparr>pending_approval := Some interrupt\<rparr>, st))
      else (let cid = (if from_child then py_str (py_or (dict_get call ''parent_tool_call_id'') (JStr tool_call_id))
                 else tool_call_id);
                shown = (if from_child then (case dict_get call ''parent_arguments'' of JObj d \<Rightarrow> d | _ \<Rightarrow> args) else args);
                step = or_else (py_int (py_or (dict_get_default call ''step_index'' (JInt 0)) (JInt 0))) 0;
                (pending, parked) = park_spawned_child (pending_children eng) (JObj result) cid step
                   (JObj shown) (turn_id st) (run_id st)
            in if parked then Some (GoesOn, eng\<lparr>pending_children := pending\<rparr>, st)
               else (case result_summary result of None \<Rightarrow> None
                 | Some summary \<Rightarrow> Some (GoesOn, eng,
                     push_message st (tool_result_message cid (json_dumps_ascii (JObj result)) False None)))))"

definition run_approved ::
  "tool_env \<Rightarrow> (str \<Rightarrow> approval_grant option \<Rightarrow> dict) \<Rightarrow> engine \<Rightarrow> agent_state \<Rightarrow> dict \<Rightarrow> str
     \<Rightarrow> (resumed \<times> engine \<times> agent_state) option" where
  "run_approved env child eng st call tool_call_id =
     (let tool_name = py_str (dict_get_default call ''tool_name'' (JStr []));
          args = as_dict (dict_get_default call ''arguments'' (JObj []));
          grant = resumed_grant env st call tool_name tool_call_id args;
          origin = str_field call ''origin'';
          run = (if starts_with origin ''child/'' then Some (child (drop 6 origin) grant, st)
                 else te_execute env tool_name tool_call_id (JObj args) grant st)
      in (case run of None \<Rightarrow> None
        | Some (result, st1) \<Rightarrow> finish_approved env eng call tool_call_id tool_name args result st1))"

definition resume_after_approval ::
  "tool_env \<Rightarrow> (str \<Rightarrow> approval_grant option \<Rightarrow> dict) \<Rightarrow> engine \<Rightarrow> agent_state \<Rightarrow> dict \<Rightarrow> str \<Rightarrow> bool \<Rightarrow> str
     \<Rightarrow> (resumed \<times> engine \<times> agent_state) option" where
  "resume_after_approval env child eng st call tool_call_id approved deny_reason =
     (if dict_get call ''tool_call_id'' \<noteq> JStr tool_call_id then Some (DecisionIgnored, eng, st)
      else (case (if approved then passed_deadline (te_now env) (dict_get call ''expires_at'') else Some False) of
          None \<Rightarrow> None
        | Some late \<Rightarrow>
            if approved \<and> \<not> late then run_approved env child eng st call tool_call_id
            else (let reason = (if late then ''approval_timeout'' else deny_reason);
                      tool_name = py_str (dict_get_default call ''tool_name'' (JStr []))
                  in Some (GoesOn, eng, push_message st (tool_result_message tool_call_id
                       (json_dumps_ascii (JObj (denied_result reason tool_name))) True None)))))"

section \<open>Properties\<close>

definition call_of :: "str \<Rightarrow> str \<Rightarrow> dict \<Rightarrow> dict" where
  "call_of tool_call_id tool_name args =
     [(''tool_call_id'', JStr tool_call_id), (''tool_name'', JStr tool_name), (''arguments'', JObj args)]"

lemma child_origin: "starts_with (''child/'' @ x) ''child/''" "drop 6 (''child/'' @ x) = x"
  by (simp_all add: starts_with_def)

text \<open>
  A child that asks for a second approval loses it. The new card names the call approved
  before and no child; when the user approves again, that first call is run once more, now by
  the parent's own executor, and the child is not resumed.
\<close>

theorem second_child_approval_repeats_first_call:
  assumes "dict_get call ''tool_call_id'' = JStr cid"
    and "map_of call ''tool_name'' = Some (JStr name)" and "map_of call ''arguments'' = Some (JObj args)"
    and "dict_get call ''origin'' = JStr (''child/'' @ sub)"
    and "passed_deadline (te_now env) (dict_get call ''expires_at'') = Some False"
    and "\<And>g. dict_get (child sub g) ''status'' = JStr ''approval_required''"
  shows "\<exists>i. resume_after_approval env child eng st call cid True reason
        = Some (ParkedAgain i, eng\<lparr>pending_approval := Some i\<rparr>, st)
      \<and> (\<forall>child2 eng2. resume_after_approval env child2 eng2 st i cid True reason =
          (case te_execute env name cid (JObj args) (resumed_grant env st i name cid args) st of None \<Rightarrow> None
           | Some (r, st1) \<Rightarrow> finish_approved env eng2 i cid name args r st1))"
proof -
  have org: "str_field call ''origin'' = ''child/'' @ sub" using assms(4) by (simp add: str_field_def)
  have name: "py_str (dict_get_default call ''tool_name'' (JStr [])) = name"
    and args: "as_dict (dict_get_default call ''arguments'' (JObj [])) = args"
    using assms(2,3) by (simp_all add: dict_get_default_def)
  let ?i = "interrupt_again env st call cid name args (canonical_args_hash (te_digest env) (te_fs env) args)"
  have first: "resume_after_approval env child eng st call cid True reason
      = Some (ParkedAgain ?i, eng\<lparr>pending_approval := Some ?i\<rparr>, st)"
    using assms(1,5,6) by (simp add: resume_after_approval_def run_approved_def finish_approved_def Let_def org name args
        child_origin [simplified])
  have again: "dict_get ?i ''tool_call_id'' = JStr cid" "str_field ?i ''origin'' = []"
    "py_str (dict_get_default ?i ''tool_name'' (JStr [])) = name"
    "as_dict (dict_get_default ?i ''arguments'' (JObj [])) = args"
    "dict_get ?i ''expires_at'' = dict_get call ''expires_at''"
    by (simp_all add: interrupt_again_def str_field_def dict_get_default_def)
  have "resume_after_approval env child2 eng2 st ?i cid True reason =
      (case te_execute env name cid (JObj args) (resumed_grant env st ?i name cid args) st of None \<Rightarrow> None
       | Some (r, st1) \<Rightarrow> finish_approved env eng2 ?i cid name args r st1)" for child2 eng2
    using assms(5) by (simp add: resume_after_approval_def run_approved_def Let_def again starts_with_def)
  with first show ?thesis by blast
qed

section \<open>Sample surroundings\<close>

definition plain_env :: tool_env where
  "plain_env = \<lparr>te_execute = (\<lambda>n t a g st. Some ([(''summary'', JStr ''ok'')], st)), te_inject = (\<lambda>n r. r),
     te_fs = sample_fs, te_digest = (\<lambda>_. ''d0''), te_now = 100, te_approval_id = ''a1'', te_approval_seconds = 600,
     te_disk_before = (\<lambda>_. None), te_disk = (\<lambda>_. None), te_cancel = (False, False), te_draft_cancel = (False, False),
     te_read_limit = 0, te_search_limit = 0, te_policy_summary = (\<lambda>_ _. []), te_denial_text = (\<lambda>_. []),
     te_offer_text = [], te_verify = sample_verify, te_rule_block = (\<lambda>_. []), te_citations = False,
     te_cited = (\<lambda>_. []), te_attach = (\<lambda>n a r. (r, False)), te_fresh_retry = (\<lambda>v. v)\<rparr>"

definition sample_texts :: executor_texts where
  "sample_texts = \<lparr>et_invalid = (\<lambda>_ _. [(''error'', JStr ''invalid_arguments'')]), et_seconds = (\<lambda>_. ''60''),
     et_exception = (\<lambda>_. ''e'')\<rparr>"

definition sample_tools :: tool_env where
  "sample_tools = with_executor sample_executor sample_texts plain_env"

definition fresh_engine :: engine where
  "fresh_engine = \<lparr>pending_approval = None, pending_children = [], tool_result_cache = [], tool_repeat_counts = [],
     search_sources_calls = 0, read_file_calls = 0, evidence_citation_ids = {}, read_bodies = [], engine_volatile = []\<rparr>"

lemma plain_env_surroundings: "tool_surroundings plain_env"
  by unfold_locales (simp add: plain_env_def)

lemma sample_tools_surroundings: "tool_surroundings sample_tools"
  unfolding sample_tools_def by (rule executor_calls.tool_surroundings_axioms)

lemma second_child_approval_repeats_first_call_witness:
  "\<exists>i. resume_after_approval plain_env (\<lambda>sub g. [(''status'', JStr ''approval_required'')]) fresh_engine edited_state
       (call_of ''k1'' ''run_command'' [(''command'', JStr ''rm x'')] @ [(''origin'', JStr ''child/c1'')]) ''k1'' True []
     = Some (ParkedAgain i, fresh_engine\<lparr>pending_approval := Some i\<rparr>, edited_state)"
proof -
  let ?call = "call_of ''k1'' ''run_command'' [(''command'', JStr ''rm x'')] @ [(''origin'', JStr ''child/c1'')]"
  have "dict_get ?call ''tool_call_id'' = JStr ''k1''" "map_of ?call ''tool_name'' = Some (JStr ''run_command'')"
    "map_of ?call ''arguments'' = Some (JObj [(''command'', JStr ''rm x'')])"
    "dict_get ?call ''origin'' = JStr (''child/'' @ ''c1'')"
    "passed_deadline (te_now plain_env) (dict_get ?call ''expires_at'') = Some False"
    by (simp_all add: call_of_def passed_deadline_def)
  note first = second_child_approval_repeats_first_call [OF this,
      where child = "\<lambda>sub g. [(''status'', JStr ''approval_required'')]" and eng = fresh_engine
        and st = edited_state and reason = "[]"]
  show ?thesis using first by (metis (no_types, lifting) dict_get_Cons)
qed

section \<open>Denied child calls\<close>

lemma paired_rest:
  "paired xs \<Longrightarrow> \<not> is_tool c \<Longrightarrow> paired (xs @ c # ts) \<Longrightarrow> paired (c # ts)"
proof (induction xs rule: paired.induct)
  case (2 m ms)
  show ?case
  proof (cases "message_has_tool_use m")
    case True
    have split: "dropWhile is_tool (ms @ c # ts) = dropWhile is_tool ms @ c # ts"
      using "2.prems"(2) by (simp add: dropWhile_append)
    have "paired (dropWhile is_tool ms)" "paired (dropWhile is_tool ms @ c # ts)"
      using "2.prems"(1,3) by (simp_all add: paired_group [OF True] split)
    with "2.IH"(1) "2.prems"(2) True paired_head [OF "2.prems"(1)] show ?thesis by blast
  next
    case False
    with "2.prems" paired_head [OF "2.prems"(1)] "2.IH"(2) show ?thesis by (simp add: paired_plain)
  qed
qed simp

text \<open>
  The denial of a child's call is filed under the child's call. The parent's delegate call,
  which the parked turn still has to answer, stays open: the history with the denial is not
  paired.
\<close>

theorem denied_child_call_stays_open:
  assumes "history st = h @ [c]" and "paired h" and "message_has_tool_use c" and "use_ids c = [p]"
    and "dict_get result ''child_tool_call_id'' = JStr k" and "k \<noteq> []" and "k \<noteq> p"
  shows "\<exists>m. resume_after_approval env child eng st (child_approval st0 step p n a result) k False reason
        = Some (GoesOn, eng, push_message st m)
      \<and> result_ids m = [k] \<and> \<not> paired (history (push_message st m))"
proof -
  let ?card = "child_approval st0 step p n a result"
  define m where "m = tool_result_message k (json_dumps_ascii (JObj (denied_result reason
     (py_str (dict_get_default ?card ''tool_name'' (JStr [])))))) True None"
  have "dict_get ?card ''tool_call_id'' = JStr k" using assms(5,6) by (simp add: child_approval_def)
  then have run: "resume_after_approval env child eng st ?card k False reason = Some (GoesOn, eng, push_message st m)"
    by (simp add: resume_after_approval_def m_def)
  have ids: "result_ids m = [k]" "is_tool m"
    using single_result_message [OF assms(6)] unfolding m_def by (auto dest: single_result_ids)
  have "\<not> paired (c # [m])"
    using assms(3,4,7) ids by (simp add: paired_group answers_def)
  with paired_rest [OF assms(2), of c "[m]"] tool_use_not_tool [OF assms(3)] assms(1) have "\<not> paired (history (push_message st m))"
    by auto
  with run ids show ?thesis by blast
qed

text \<open>
  C35: what an approved call returned goes to the model as the executor gave it: not redacted,
  never marked as an error, without a label, so that the message counts as text of the user.
\<close>

theorem approved_result_is_raw:
  assumes "dict_get call ''tool_call_id'' = JStr cid"
    and "map_of call ''tool_name'' = Some (JStr name)" and "map_of call ''arguments'' = Some (JObj args)"
    and "dict_get call ''origin'' = JNull"
    and "passed_deadline (te_now env) (dict_get call ''expires_at'') = Some False"
    and "te_execute env name cid (JObj args) (resumed_grant env st call name cid args) st = Some (r, st1)"
    and "dict_get r ''status'' \<notin> {JStr ''approval_required'', JStr ''spawn_child''}"
    and "result_summary r \<noteq> None"
  shows "\<exists>m. resume_after_approval env child eng st call cid True reason = Some (GoesOn, eng, push_message st1 m)
      \<and> m = tool_result_message cid (json_dumps_ascii (JObj r)) False None \<and> message_taint m = ''user''"
proof -
  have name: "py_str (dict_get_default call ''tool_name'' (JStr [])) = name"
    and args: "as_dict (dict_get_default call ''arguments'' (JObj [])) = args"
    using assms(2,3) by (simp_all add: dict_get_default_def)
  let ?m = "tool_result_message cid (json_dumps_ascii (JObj r)) False None"
  have "resume_after_approval env child eng st call cid True reason = Some (GoesOn, eng, push_message st1 ?m)"
    using assms by (auto simp: resume_after_approval_def run_approved_def finish_approved_def Let_def name args
        str_field_def starts_with_def park_spawned_child_def)
  moreover have "message_taint ?m = ''user''"
    by (simp add: message_taint_def tool_result_message_def)
  ultimately show ?thesis by blast
qed


lemma denied_child_call_stays_open_witness:
  "let st = push_message edited_state (assistant_tool_use ''p1'' ''delegate'' (JObj []));
       card = child_approval st 0 ''p1'' ''delegate'' (JObj []) [(''child_tool_call_id'', JStr ''k1'')]
   in \<exists>m. resume_after_approval sample_tools (\<lambda>_ _. []) fresh_engine st card ''k1'' False ''user_denied''
        = Some (GoesOn, fresh_engine, push_message st m) \<and> \<not> paired (history (push_message st m))"
proof -
  let ?c = "assistant_tool_use ''p1'' ''delegate'' (JObj [])"
  let ?st = "push_message edited_state ?c"
  have "history ?st = [] @ [?c]"
    by (simp add: edited_state_def new_agent_state_def new_turn_state_def)
  moreover have "message_has_tool_use ?c" "use_ids ?c = [''p1'']"
    by (simp_all add: assistant_tool_use_def message_has_tool_use_def msg_role_is_def msg_blocks_def
        block_is_def use_ids_def str_field_Cons)
  ultimately show ?thesis
    using denied_child_call_stays_open [of ?st "[]" ?c "''p1''" "[(''child_tool_call_id'', JStr ''k1'')]" "''k1''"
        sample_tools "\<lambda>_ _. []" fresh_engine ?st 0 "''delegate''" "JObj []" "''user_denied''"]
    by (simp add: Let_def) blast
qed



lemma approved_result_is_raw_witness:
  "\<exists>m. resume_after_approval plain_env (\<lambda>_ _. []) fresh_engine edited_state
        (call_of ''c1'' ''write_file'' []) ''c1'' True [] = Some (GoesOn, fresh_engine, push_message edited_state m)
      \<and> message_taint m = ''user''"
proof -
  let ?call = "call_of ''c1'' ''write_file'' []"
  have "dict_get ?call ''tool_call_id'' = JStr ''c1''" "map_of ?call ''tool_name'' = Some (JStr ''write_file'')"
    "map_of ?call ''arguments'' = Some (JObj [])" "dict_get ?call ''origin'' = JNull"
    "passed_deadline (te_now plain_env) (dict_get ?call ''expires_at'') = Some False"
    "te_execute plain_env ''write_file'' ''c1'' (JObj []) (resumed_grant plain_env edited_state ?call ''write_file'' ''c1'' [])
       edited_state = Some ([(''summary'', JStr ''ok'')], edited_state)"
    "dict_get [(''summary'', JStr ''ok'')] ''status'' \<notin> {JStr ''approval_required'', JStr ''spawn_child''}"
    "result_summary [(''summary'', JStr ''ok'')] \<noteq> None"
    by (simp_all add: call_of_def passed_deadline_def plain_env_def result_summary_def)
  from approved_result_is_raw [OF this, where eng = fresh_engine] show ?thesis by blast
qed

section \<open>Approved commands\<close>

text \<open>
  The card of a parked command carries the words of the command joined by blanks, and the
  approval runs that text: when the words themselves contain blanks, the command that runs has
  other words than the one the model asked for.
\<close>

theorem approved_command_is_rejoined:
  assumes "command_argv cmd = Some argv" and "strip cmd \<noteq> []"
    and "join '' '' argv = join '' '' ws" and "\<forall>w \<in> set ws. safe_word w" and "ws \<noteq> []"
    and "te_approval_seconds env > 0"
  shows "resume_after_approval env child eng st
        (call_approval env st0 step cid ''run_command'' (JObj [(''command'', JStr cmd)]) result) cid True reason
      = (let card = call_approval env st0 step cid ''run_command'' (JObj [(''command'', JStr cmd)]) result;
             shown = [(''command'', JStr (join '' '' ws))]
         in case te_execute env ''run_command'' cid (JObj shown)
               (resumed_grant env st card ''run_command'' cid shown) st of None \<Rightarrow> None
            | Some (r, st1) \<Rightarrow> finish_approved env eng card cid ''run_command'' shown r st1)
    \<and> command_argv (join '' '' ws) = Some ws"
proof -
  have can: "canonicalize_arguments (te_fs env) [(''command'', JStr cmd)] = [(''command'', JStr (join '' '' ws))]"
    using assms(1-3) by (simp add: canonicalize_arguments_def canonical_key_def Let_def)
  define card where "card = call_approval env st0 step cid ''run_command'' (JObj [(''command'', JStr cmd)]) result"
  have parts: "dict_get card ''tool_call_id'' = JStr cid" "dict_get card ''expires_at'' = JInt (te_now env + te_approval_seconds env)"
    "str_field card ''origin'' = []" "py_str (dict_get_default card ''tool_name'' (JStr [])) = ''run_command''"
    "as_dict (dict_get_default card ''arguments'' (JObj [])) = [(''command'', JStr (join '' '' ws))]"
    by (simp_all add: card_def call_approval_def Let_def str_field_def dict_get_default_def can)
  have "resume_after_approval env child eng st card cid True reason
      = (case te_execute env ''run_command'' cid (JObj [(''command'', JStr (join '' '' ws))])
               (resumed_grant env st card ''run_command'' cid [(''command'', JStr (join '' '' ws))]) st of None \<Rightarrow> None
            | Some (r, st1) \<Rightarrow> finish_approved env eng card cid ''run_command'' [(''command'', JStr (join '' '' ws))] r st1)"
    using assms(6) by (simp add: resume_after_approval_def run_approved_def parts passed_deadline_def starts_with_def Let_def)
  moreover have "command_argv (join '' '' ws) = Some ws" by (rule safe_words_argv [OF assms(4,5)])
  ultimately show ?thesis unfolding card_def [symmetric] by (simp add: Let_def)
qed

lemma approved_command_is_rejoined_witness:
  "command_argv (''rm '' @ [CHR 0x22] @ ''my file'' @ [CHR 0x22]) = Some [''rm'', ''my file'']
   \<and> command_argv (join '' '' [''rm'', ''my'', ''file'']) = Some [''rm'', ''my'', ''file'']
   \<and> (\<exists>card. resume_after_approval plain_env (\<lambda>_ _. []) fresh_engine edited_state card ''c1'' True [] =
        finish_approved plain_env fresh_engine card ''c1'' ''run_command''
          [(''command'', JStr (join '' '' [''rm'', ''my'', ''file'']))] [(''summary'', JStr ''ok'')] edited_state)"
proof -
  let ?cmd = "''rm '' @ [CHR 0x22] @ ''my file'' @ [CHR 0x22]" and ?ws = "[''rm'', ''my'', ''file'']"
  have argv: "command_argv ?cmd = Some [''rm'', ''my file'']" by code_simp
  have "strip ?cmd \<noteq> []" "join '' '' [''rm'', ''my file''] = join '' '' ?ws" "\<forall>w \<in> set ?ws. safe_word w" "?ws \<noteq> []"
    "te_approval_seconds plain_env > 0"
    by code_simp+
  note run = approved_command_is_rejoined [OF argv this, of "\<lambda>_ _. []" fresh_engine edited_state edited_state 0 "''c1''" "[]" "[]"]
  have exec: "te_execute plain_env n t a g s = Some ([(''summary'', JStr ''ok'')], s)" for n t a g s
    by (simp add: plain_env_def)
  from run argv show ?thesis by (auto simp: exec Let_def)
qed


section \<open>Test commands that never ran\<close>

lemma success_defined: "dict_get r ''exit_code'' = JNull \<Longrightarrow> \<exists>b. is_successful_repro_result r = Some b"
  by (auto simp: is_successful_repro_result_def code_ok_def Let_def)

lemma blocked_verify:
  assumes "is_testish_command ve (strip cmd)" and "b_status b = StatusApproval"
  shows "\<exists>st'. note_tool_result_for_verify ve ''run_command'' (blocked_dict ''run_command'' cid b)
       (JObj [(''command'', JStr cmd)]) st = Some st'
     \<and> verify_pending st' = False \<and> code_edits_since_verify st' = code_edits_since_verify st
     \<and> last_test_first_failure st' = last_test_first_failure st"
proof -
  let ?r = "blocked_dict ''run_command'' cid b"
  have f: "dict_get ?r ''status'' = JStr ''approval_required''" "dict_get ?r ''exit_code'' = JNull"
    "dict_get ?r ''command'' = JNull" "dict_get ?r ''failure_feed'' = JNull" "dict_get ?r ''test_summary'' = JNull"
    using assms(2) by (auto simp: blocked_dict_def Let_def)
  have cmd: "result_command ?r (JObj [(''command'', JStr cmd)]) = strip cmd"
    by (cases "cmd = []") (simp_all add: result_command_def f)
  have green: "is_green_test_result ?r = Some False"
    by (simp add: is_green_test_result_def f str_field_def)
  have clear: "\<exists>g. is_clearing_repro_result ?r fs = Some g" for fs
    using success_defined [OF f(2)] by (auto simp: is_clearing_repro_result_def)
  have arm: "arm_issue_repro_if_needed ve s c ?r = Some s" for s c
    by (simp add: arm_issue_repro_if_needed_def green)
  have fail: "note_first_failure s ?r = s" for s
    by (simp add: note_first_failure_def format_failure_feed_def f)
  have ne: "strip cmd \<noteq> []" using assms(1) by (auto simp: is_testish_command_def)
  define st1 where "st1 = (if issue_repro_hints_present st then st else ensure_issue_repro_hints ve st)"
  obtain g where g: "is_clearing_repro_result ?r (issue_repro_fail_signals st1) = Some g" using clear by blast
  have kept: "code_edits_since_verify st1 = code_edits_since_verify st"
      "last_test_first_failure st1 = last_test_first_failure st"
    by (simp_all add: st1_def ensure_issue_repro_hints_def Let_def)
  have "\<exists>s. note_issue_repro_from_command ve st (strip cmd) ?r True = Some s
      \<and> code_edits_since_verify s = code_edits_since_verify st \<and> last_test_first_failure s = last_test_first_failure st"
    unfolding note_issue_repro_from_command_def st1_def [symmetric] Let_def using g kept by (simp add: arm)
  then show ?thesis
    using assms(1) ne by (auto simp: note_tool_result_for_verify_def note_run_command_def cmd f arm fail Let_def)
qed

lemma outcome_frame:
  assumes "verify_pending st' = verify_pending st" and "code_edits_since_verify st' = code_edits_since_verify st"
    and "last_test_first_failure st' = last_test_first_failure st"
  shows "verification_outcome st' = verification_outcome st"
  by (simp only: verification_outcome_def assms)

lemma command_outcome: "verification_outcome (note_command env st n a r) = verification_outcome st"
  by (rule outcome_frame) (simp_all add: note_command_def Let_def split: json.split)

lemma push_outcome: "verification_outcome (push_message st m) = verification_outcome st"
  by (rule outcome_frame) (simp_all add: push_message_def)

lemma blocked_fields:
  assumes "b_status b = StatusApproval"
  shows "dict_get (blocked_dict n t b) ''status'' = JStr ''approval_required''"
    and "\<not> truthy (dict_get (blocked_dict n t b) ''error'')"
  using assms by (auto simp: blocked_dict_def Let_def)

text \<open>
  A test command that is parked for approval has not run, yet it pays the verification debt.
  The turn reports its edits as verified from then on, also when the user denies the command.
\<close>

theorem parked_test_command_counts_as_run:
  assumes "map_of call ''id'' = Some (JStr cid)" and "map_of call ''name'' = Some (JStr ''run_command'')"
    and "map_of call ''input'' = Some (JObj [(''command'', JStr cmd)])"
    and "te_execute env ''run_command'' cid (JObj [(''command'', JStr cmd)]) None st
           = Some (blocked_dict ''run_command'' cid b, st1)"
    and "b_status b = StatusApproval"
    and "te_inject env ''run_command'' (blocked_dict ''run_command'' cid b) = blocked_dict ''run_command'' cid b"
    and "is_testish_command (te_verify env) (strip cmd)" and "\<not> fst (te_cancel env)"
    and "code_edits_since_verify st1 \<ge> 1" and "strip (last_test_first_failure st1) = []"
  shows "\<exists>eng' st'. run_tool env eng st step counters call = Some (''waiting_approval'', eng', st')
      \<and> (\<forall>m. verification_outcome (push_message st' m) = ''verified'')"
proof -
  let ?a = "JObj [(''command'', JStr cmd)]" and ?r = "blocked_dict ''run_command'' cid b"
  note bf = blocked_fields [OF assms(5), of "''run_command''" cid]
  have gate: "call_gate env eng st ''run_command'' ?a counters = (eng, None)"
    by (simp add: call_gate_def stage_tool_runtime_blocked_def LATE_STAGE_DROP_def)
  have draft: "draft_cancelled env st ''run_command'' ?a = (st, False)" by (simp add: draft_cancelled_def)
  have cacheable: "''run_command'' \<notin> set CACHEABLE_TOOLS" by (simp add: CACHEABLE_TOOLS_def)
  have result: "obtain_result env eng st step cid ''run_command'' ?a = Some (eng, st1, Some ?r)"
    using assms(4,6) cacheable bf by (simp add: obtain_result_def skip_read_cache_def lookup_tool_cache_def
        store_tool_cache_def park_spawned_child_def note_skill_def Let_def)
  have cover: "note_coverage env eng st1 ''run_command'' ?a ?r = (eng, st1, ?r)"
    by (simp add: note_coverage_def is_mutating_file_tool_failure_def)
  have cite: "annotate_unverified_citations env e ''run_command'' ?a ?r = ?r" for e
    using bf by (simp add: annotate_unverified_citations_def Let_def)
  obtain st2 where v: "note_tool_result_for_verify (te_verify env) ''run_command'' ?r ?a st1 = Some st2"
    and st2: "\<not> verify_pending st2" "code_edits_since_verify st2 = code_edits_since_verify st1"
      "last_test_first_failure st2 = last_test_first_failure st1"
    using blocked_verify [OF assms(7,5), of cid st1] by blast
  let ?st3 = "note_command env st2 ''run_command'' ?a ?r"
  have facts: "note_facts env st1 ''run_command'' ?a ?r = Some ?st3"
    using v by (simp add: note_facts_def note_written_def note_plan_def Let_def)
  have out: "verification_outcome (push_message ?st3 m) = ''verified''" for m
    using st2 assms(9,10) by (simp add: command_outcome push_outcome) (simp add: verification_outcome_def Let_def)
  have "\<exists>eng'. run_tool env eng st step counters call = Some (''waiting_approval'', eng', ?st3)"
    using assms(1-3,8) bf
    by (simp add: run_tool_def dict_get_default_def gate draft result cover facts cite end_call_def Let_def)
  with out show ?thesis by blast
qed

definition test_call :: dict where
  "test_call = [(''id'', JStr ''c1''), (''name'', JStr ''run_command''),
     (''input'', JObj [(''command'', JStr ''tox -q'')])]"

lemma parked_test_command_counts_as_run_witness:
  "\<exists>eng' st'. run_tool sample_tools fresh_engine edited_state 0 None test_call = Some (''waiting_approval'', eng', st')
      \<and> (\<forall>m. verification_outcome (push_message st' m) = ''verified'') \<and> verification_outcome edited_state = ''unverified''"
proof -
  define b where "b = make_blocked RequireApproval ''command is not on the allowlist'' ''S2'' ''user'' (core edited_state)"
  let ?run = "te_execute sample_tools ''run_command'' ''c1'' (JObj [(''command'', JStr ''tox -q'')]) None edited_state"
  have res: "map_option fst ?run = Some (blocked_dict ''run_command'' ''c1'' b)"
    unfolding b_def by code_simp
  have kept: "code_edits_since_verify (snd (the ?run)) \<ge> 1 \<and> strip (last_test_first_failure (snd (the ?run))) = []"
    by code_simp
  obtain st1 where st1: "?run = Some (blocked_dict ''run_command'' ''c1'' b, st1)"
    using res by auto
  have st2: "code_edits_since_verify st1 \<ge> 1" "strip (last_test_first_failure st1) = []"
    using kept by (simp_all add: st1)
  have call: "map_of test_call ''id'' = Some (JStr ''c1'')" "map_of test_call ''name'' = Some (JStr ''run_command'')"
    "map_of test_call ''input'' = Some (JObj [(''command'', JStr ''tox -q'')])"
    by (simp_all add: test_call_def)
  have b: "b_status b = StatusApproval" by (simp add: b_def make_blocked_def)
  have env: "te_inject sample_tools ''run_command'' (blocked_dict ''run_command'' ''c1'' b) = blocked_dict ''run_command'' ''c1'' b"
    "\<not> fst (te_cancel sample_tools)"
    by (simp_all add: sample_tools_def with_executor_def plain_env_def)
  have testish: "is_testish_command (te_verify sample_tools) (strip ''tox -q'')" by code_simp
  have "verification_outcome edited_state = ''unverified''" by code_simp
  with parked_test_command_counts_as_run [OF call st1 b env(1) testish env(2) st2, of fresh_engine 0 None]
  show ?thesis by blast
qed

end
