(* ===== verification/AgentFrame.thy ===== *)
theory AgentFrame
  imports AgentApproval
begin

text \<open>
  What a batch of calls does to the turn state, once for every relation that the single steps
  respect: the locale \<open>call_frame\<close> lifts a reflexive and transitive relation on turn states from
  the executor through \<open>run_tool\<close> to a whole batch. Its instances on the executor of the model:
  the step counters stay, the window never falls.
\<close>

locale call_frame =
  fixes env :: tool_env and R :: "turn_state \<Rightarrow> turn_state \<Rightarrow> bool"
  assumes frame_refl: "R c c"
    and frame_trans: "R c c1 \<Longrightarrow> R c1 c2 \<Longrightarrow> R c c2"
    and frame_messages: "R c (c\<lparr>messages := ms\<rparr>)"
    and frame_cancel: "R c (c\<lparr>cancelled := True\<rparr>)"
    and frame_raise: "R c (raise_window c l)"
    and frame_execute: "te_execute env n t a g st = Some (r, st') \<Longrightarrow> R (core st) (core st')"
begin

lemma note_cancel_frame: "R (core st) (core (note_cancel st force phase))"
  using frame_cancel by (simp add: note_cancel_def Let_def)

lemma push_frame: "R (core st) (core (push_message st m))"
  using frame_messages by (simp add: push_message_def)

lemma parts_core:
  "core (note_written env st n a r) = core st" "core (note_command env st n a r) = core st"
  "core (note_plan st n r) = core st" "core (append_path_rules env st p) = core st"
proof -
  show "core (note_written env st n a r) = core st"
    by (simp add: note_written_def remember_edit_def Let_def split: prod.split)
  show "core (note_command env st n a r) = core st"
    by (simp add: note_command_def Let_def split: json.split)
  show "core (note_plan st n r) = core st"
    by (simp add: note_plan_def Let_def split: json.split)
  show "core (append_path_rules env st p) = core st"
    by (simp add: append_path_rules_def Let_def)
qed

lemma facts_core: "note_facts env st n a r = Some st' \<Longrightarrow> core st' = core st"
  by (auto simp: note_facts_def parts_core note_core Let_def split: if_splits)

lemma coverage_core: "note_coverage env eng st n a r = (eng', st', r') \<Longrightarrow> core st' = core st"
proof -
  have "core (fst (snd (note_read env eng st a r))) = core st"
    by (simp add: note_read_def Let_def split_beta split: json.split)
  then show "note_coverage env eng st n a r = (eng', st', r') \<Longrightarrow> core st' = core st"
    by (auto simp: note_coverage_def split: if_splits)
qed

lemma obtain_frame:
  assumes "obtain_result env eng st step t n a = Some (eng', st', r)"
  shows "R (core st) (core st')"
proof -
  obtain hit eng1 where look: "(if skip_read_cache st n a then (None, eng) else lookup_tool_cache eng n a) = (hit, eng1)"
    by force
  have skill: "core (note_skill s n d) = core s" for s d by (simp add: note_skill_def Let_def)
  show ?thesis
    using assms unfolding obtain_result_def look
    by (cases hit) (auto simp: skill frame_refl Let_def dest: frame_execute split: option.splits prod.splits if_splits)
qed

lemma draft_frame: "draft_cancelled env st n a = (st', b) \<Longrightarrow> R (core st) (core st')"
  by (auto simp: draft_cancelled_def Let_def frame_refl note_cancel_frame split: if_splits)

lemma answer_frame: "R (core st) (core (answer_result env st t n r))"
proof -
  have "R (core st) (raise_window (core (push_message st m)) l)" for m l
    by (rule frame_trans [OF push_frame frame_raise])
  then show ?thesis
    using frame_messages push_frame by (auto simp: answer_result_def Let_def split: option.split)
qed

lemma end_frame:
  assumes "end_call env eng st step t n a r = Some (s, eng', st')"
  shows "R (core st) (core st')"
proof -
  have complete: "R (core st) (core st')" if c: "complete_call env eng st t n a r = Some (s, eng', st')"
  proof -
    obtain r1 st1 where at: "attach_signals env n a r st = (r1, st1)" by force
    have keep: "core (note_delivery st1 n r1) = core st"
      using at by (auto simp: note_delivery_def attach_signals_def note_writing_signals_def
          split: prod.splits if_splits option.splits)
    have "core st' = core (answer_result env (note_delivery st1 n r1) t n r1)"
      using c at by (auto simp: complete_call_def Let_def split: option.splits)
    then show ?thesis using answer_frame [of "note_delivery st1 n r1" t n r1] by (simp add: keep)
  qed
  with assms show ?thesis
    by (auto simp: end_call_def Let_def note_cancel_frame frame_refl push_frame split: if_splits)
qed

lemma run_tool_frame:
  assumes "run_tool env eng st step c call = Some (s, eng', st')"
  shows "R (core st) (core st')"
proof -
  obtain t n where id: "map_of call ''id'' = Some (JStr t)" "map_of call ''name'' = Some (JStr n)"
    using assms by (auto simp: run_tool_def split: option.splits json.splits)
  let ?a = "dict_get_default call ''input'' (JObj [])"
  obtain eng1 early where gate: "call_gate env eng st n ?a c = (eng1, early)" by force
  note eq = assms [unfolded run_tool_def id]
  show ?thesis
  proof (cases early)
    case (Some e)
    with eq gate push_frame show ?thesis by (cases e) (auto simp: Let_def)
  next
    case None
    obtain st1 stopped where d: "draft_cancelled env st n ?a = (st1, stopped)" by force
    note r1 = draft_frame [OF d]
    show ?thesis
    proof (cases stopped)
      case True
      with eq gate None d r1 show ?thesis by (auto simp: Let_def)
    next
      case False
      with eq gate None d obtain eng2 st2 res where o: "obtain_result env eng1 st1 step t n ?a = Some (eng2, st2, res)"
        by (auto simp: Let_def split: option.splits)
      note r2 = frame_trans [OF r1 obtain_frame [OF o]]
      show ?thesis
      proof (cases res)
        case None2: None
        with eq gate None d False o r2 show ?thesis by (auto simp: Let_def)
      next
        case (Some r)
        obtain eng3 st3 r3 where cov: "note_coverage env eng2 st2 n ?a r = (eng3, st3, r3)" by (cases rule: prod_cases3)
        from eq gate None d False o Some cov obtain e4 st4 r4 where
          f: "note_facts env st3 n ?a r3 = Some st4" and fin: "end_call env e4 st4 step t n ?a r4 = Some (s, eng', st')"
          by (auto simp: Let_def split: option.splits)
        have "core st4 = core st2" using facts_core [OF f] coverage_core [OF cov] by simp
        with r2 end_frame [OF fin] frame_trans show ?thesis by metis
      qed
    qed
  qed
qed

end

section \<open>Through a batch\<close>

abbreviation frames :: "(turn_state \<Rightarrow> turn_state \<Rightarrow> bool) \<Rightarrow> batch_item list \<Rightarrow> bool" where
  "frames R items \<equiv> \<forall>p \<in> set items. call_frame (fst p) R"

lemma merge_frame:
  assumes "call_frame env0 R"
  shows "R (core st) (core (foldl merge_run st xs))"
proof (induction xs arbitrary: st)
  case Nil
  show ?case using call_frame.frame_refl [OF assms] by simp
next
  case (Cons x xs)
  obtain env call s twin where x: "x = ((env, call), s, twin)" by (metis prod.exhaust)
  define st1 where "st1 = st\<lparr>core := core st\<lparr>messages := messages (core st) @ history twin\<rparr>,
     read_registry := merge_readonly_read_registry env call (history twin) (read_registry st)\<rparr>"
  have r1: "R (core st) (core st1)" using call_frame.frame_messages [OF assms] by (simp add: st1_def)
  have "merge_run st x = (if cancelled (core twin)
      then note_cancel st1 (cancel_force twin)
        (case cancelled_at_phase twin of Some (c # cs) \<Rightarrow> c # cs | _ \<Rightarrow> ''tool_exec'') else st1)"
    unfolding x merge_run_def st1_def Let_def by simp
  then have "R (core st) (core (merge_run st x))"
    using r1 call_frame.frame_trans [OF assms r1 call_frame.note_cancel_frame [OF assms]] by simp
  from call_frame.frame_trans [OF assms this Cons.IH] show ?case by simp
qed

lemma isolated_same_core: "run_isolated eng st step reg items = Some (runs, eng', st') \<Longrightarrow> core st' = core st"
proof (induction eng st step reg items arbitrary: runs eng' st' rule: run_isolated.induct)
  case (2 eng st step reg env call seed items)
  then show ?case by (auto simp: share_back_def split: option.splits)
qed simp

lemma group_frame:
  assumes "frames R items" and "items \<noteq> []" and "run_group items eng st step = Some (ss, eng', st')"
  shows "R (core st) (core st')"
proof (cases "\<exists>env call. items = [(env, call)]")
  case True
  then obtain env call where it: "items = [(env, call)]" by blast
  with assms(3) obtain s where "run_tool env eng st step None call = Some (s, eng', st')"
    by (auto simp: run_group_def)
  with call_frame.run_tool_frame it assms(1) show ?thesis by fastforce
next
  case False
  with assms(3) have rp: "run_parallel items eng st step = Some (ss, eng', st')"
    by (auto simp: run_group_def split: list.splits)
  obtain seeds r s where cs: "counter_seeds (read_file_calls eng) (search_sources_calls eng) (map snd items) = (seeds, r, s)"
    by (cases rule: prod_cases3)
  obtain runs eng1 st1 where ri: "run_isolated eng st step (read_registry st) (zip items seeds) = Some (runs, eng1, st1)"
    and out: "st' = foldl merge_run st1 (zip items runs)"
    using rp cs by (auto simp: run_parallel_def split: option.splits)
  have "call_frame (fst (hd items)) R" using assms(1,2) by simp
  from merge_frame [OF this, of st1 "zip items runs"] isolated_same_core [OF ri] show ?thesis by (simp add: out)
qed

lemma batch_groups_nonempty: "[] \<notin> set (batch_groups items)"
  by (induction items rule: batch_groups.induct) auto

lemma groups_frame:
  "frames R (concat gs) \<Longrightarrow> [] \<notin> set gs \<Longrightarrow> R (core st) (core st) \<Longrightarrow>
     run_groups gs eng st step prev = Some (o1, eng', st') \<Longrightarrow> R (core st) (core st')"
proof (induction gs eng st step prev arbitrary: o1 eng' st' rule: run_groups.induct)
  case (2 g gs eng st step prev)
  obtain ss eng1 st1 where g: "run_group g eng st step = Some (ss, eng1, st1)"
    using "2.prems"(4) by (auto split: option.splits)
  have gr: "R (core st) (core st1)" using group_frame [OF _ _ g, of R] "2.prems"(1,2) by auto
  obtain env where env: "call_frame env R" using "2.prems"(1,2) by (cases g) auto
  show ?case
  proof (cases "filter (\<lambda>s. s \<in> set STOPPING) ss = [] \<and> \<not> cancelled (core st1)")
    case True
    with "2.prems"(4) g have rest: "run_groups gs eng1 st1 step (last_text prev ss) = Some (o1, eng', st')" by simp
    have "R (core st1) (core st')"
      using "2.IH" [OF g refl refl _ _ _ _ _ rest] True "2.prems"(1,2) call_frame.frame_refl [OF env] by auto
    with gr call_frame.frame_trans [OF env] show ?thesis by blast
  next
    case False
    with "2.prems"(4) g gr show ?thesis by (auto split: list.splits if_splits)
  qed
qed simp

lemma batch_frame:
  assumes "frames R items" and "R (core st) (core st)" and "run_tool_batch items eng st step = Some (o1, eng', st')"
  shows "R (core st) (core st')"
  using groups_frame [where gs = "batch_groups items" and R = R and st = st] assms batch_groups_nonempty
  by (auto simp: run_tool_batch_def concat_batch_groups)

section \<open>Two relations the executor respects\<close>

definition same_steps :: "turn_state \<Rightarrow> turn_state \<Rightarrow> bool" where
  "same_steps c c' \<longleftrightarrow> step_count c' = step_count c \<and> max_steps c' = max_steps c"

definition window_rises :: "turn_state \<Rightarrow> turn_state \<Rightarrow> bool" where
  "window_rises c c' \<longleftrightarrow> taint_rank (effective_window c) \<le> taint_rank (effective_window c')"

lemma execute_core:
  assumes "execute_call ex tx n t a g st = Some (r, st')"
  obtains q where "executor_run ex n t (as_dict a) (core st) g = Some (q, core st')"
  using assms by (auto simp: execute_call_def split: option.splits)

interpretation executor_steps: call_frame "with_executor ex tx env" same_steps for ex tx env
proof unfold_locales
  show "same_steps c (raise_window c l)" for c l
    using raise_window_turn_frame [of c l] by (simp add: same_steps_def turn_frame_def)
  show "same_steps (core st) (core st')" if "te_execute (with_executor ex tx env) n t a g st = Some (r, st')"
    for n t a g st r st'
    using that by (auto simp: with_executor_def same_steps_def turn_frame_def elim!: execute_core dest: executor_run_frame)
qed (auto simp: same_steps_def)

interpretation executor_window: call_frame "with_executor ex tx env" window_rises for ex tx env
proof unfold_locales
  show "window_rises c (raise_window c l)" for c l by (simp add: window_rises_def raise_window_rank)
  show "window_rises (core st) (core st')" if "te_execute (with_executor ex tx env) n t a g st = Some (r, st')"
    for n t a g st r st'
    using that by (auto simp: with_executor_def window_rises_def elim!: execute_core intro: executor_window_rises)
qed (auto simp: window_rises_def effective_window_def)

text \<open>
  C16: a batch of calls, in any grouping and with any results, keeps the step counters of the turn
  and never lowers its window.
\<close>

theorem batch_keeps_steps_and_window:
  assumes "\<forall>p \<in> set items. \<exists>ex tx env. fst p = with_executor ex tx env"
    and "run_tool_batch items eng st step = Some (o1, eng', st')"
  shows "step_count (core st') = step_count (core st) \<and> max_steps (core st') = max_steps (core st)
    \<and> taint_rank (effective_window (core st)) \<le> taint_rank (effective_window (core st'))"
proof -
  have "frames same_steps items" "frames window_rises items"
    using assms(1) executor_steps.call_frame_axioms executor_window.call_frame_axioms by metis+
  from batch_frame [OF this(1) _ assms(2)] batch_frame [OF this(2) _ assms(2)] show ?thesis
    by (simp add: same_steps_def window_rises_def)
qed

lemma batch_keeps_steps_and_window_witness:
  "\<exists>o1 eng' st'. run_tool_batch [(sample_tools, test_call)] fresh_engine edited_state 0 = Some (o1, eng', st')
     \<and> step_count (core st') = 0 \<and> max_steps (core st') = 40"
proof -
  let ?run = "run_tool_batch [(sample_tools, test_call)] fresh_engine edited_state 0"
  have "map_option fst ?run = Some (Some ''waiting_approval'')" by code_simp
  then obtain eng' st' where run: "?run = Some (Some ''waiting_approval'', eng', st')" by (cases ?run) auto
  have "\<forall>p \<in> set [(sample_tools, test_call)]. \<exists>ex tx env. fst p = with_executor ex tx env"
    by (auto simp: sample_tools_def)
  from batch_keeps_steps_and_window [OF this run] run show ?thesis
    by (simp add: edited_state_def new_agent_state_def new_turn_state_def)
qed

end
