(* ===== verification/AgentSafety.thy ===== *)
theory AgentSafety
  imports AgentFrame
begin

text \<open>
  What holds of a batch of calls and of a parked turn: a finished batch leaves a paired history,
  also through a child join; and where the code falls short: the result cache outlives edits,
  parallel calls forget the window, and the calls after a parked one are never answered.
\<close>

section \<open>A finished batch\<close>

lemma named_id: "call_named p \<Longrightarrow> item_id p \<noteq> []"
  by (auto simp: call_named_def item_id_def)

text \<open>A message whose calls are answered or parked, in order, is paired once the children are joined.\<close>

lemma answered_paired:
  assumes "paired h" and "message_has_tool_use c" and "distinct (use_ids c)" and "[] \<notin> set (use_ids c)"
    and "answers_calls (use_ids c) ms specs"
  shows "(specs = [] \<longrightarrow> paired (h @ c # ms)) \<and> paired (fst (settle_round execute_one specs (h @ c # ms)))"
proof
  have one: "\<forall>m \<in> set ms. \<exists>t. single_result m t" using answers_single [OF assms(5)] by blast
  have "distinct (map (\<lambda>spec. str_field spec ''tool_call_id'') specs)"
    using answers_spec_ids [OF assms(5)] assms(3) by blast
  then show "paired (fst (settle_round execute_one specs (h @ c # ms)))"
    using settle_paired [OF assms(1-3) _ one] answers_cover [OF assms(5)] assms(4) by blast
  show "specs = [] \<longrightarrow> paired (h @ c # ms)"
  proof
    assume none: "specs = []"
    have tools: "\<forall>m \<in> set ms. is_tool m" using one single_result_ids by blast
    have run: "takeWhile is_tool ms = ms" "dropWhile is_tool ms = []"
      using tools by (simp_all add: takeWhile_eq_all_conv dropWhile_eq_Nil_conv)
    have "concat (map result_ids ms) = use_ids c" using answers_all assms(5) none by simp
    then have "paired (c # ms)"
      by (simp add: paired_group [OF assms(2)] answers_def run)
    then show "paired (h @ c # ms)" by (rule paired_append [OF assms(1)])
  qed
qed

lemma batch_paired:
  assumes "history st = h @ [c]" and "paired h" and "message_has_tool_use c"
    and "use_ids c = map item_id items" and "distinct (use_ids c)"
    and "calls_ok items" and "pending_children eng = []"
    and "run_tool_batch items eng st step = Some (o1, eng', st')" and "o1 \<notin> Some ` set STOPPING"
  shows "(pending_children eng' = [] \<longrightarrow> paired (history st'))
    \<and> (pending_children eng' \<noteq> []
         \<longrightarrow> paired (fst (settle_round execute_one (pending_children eng') (history st'))))"
  using reply_ends [OF assms(1,3-6,8,9)]
proof (elim disjE exE conjE)
  assume "history st' = h" "pending_children eng' = pending_children eng"
  with assms(2,7) show ?thesis by simp
next
  fix c' ms specs
  assume c': "history st' = h @ c' # ms" "message_has_tool_use c'" "distinct (use_ids c')"
    "set (use_ids c') \<subseteq> set (use_ids c)" "pending_children eng' = pending_children eng @ specs"
    "answers_calls (use_ids c') ms specs"
  have "[] \<notin> set (use_ids c)"
    using assms(4,6) named_id by (fastforce simp: calls_ok_def)
  with c'(4) have "[] \<notin> set (use_ids c')" by blast
  from answered_paired [OF assms(2) c'(2,3) this c'(6)] c'(1,5) assms(7) show ?thesis by simp
qed

text \<open>
  C13: when a batch ends without stopping the turn, every call of the reply is answered in order
  or belongs to a pending child: without children the history is paired, and after the join of
  the children it is paired as well. The calls carry distinct ids, and of the two pond tools
  that may ask for a fresh retry one may stand only in the first place (see \<open>late_retry_leaves_call_open\<close>);
  there its attempt is taken out of the history.
\<close>

theorem batch_leaves_paired_history:
  assumes "history st = h @ [c]" and "paired h" and "message_has_tool_use c"
    and "use_ids c = map item_id items" and "distinct (use_ids c)"
    and "calls_ok items" and "pending_children eng = []"
    and "run_tool_batch items eng st step = Some (o1, eng', st')" and "o1 \<notin> Some ` set STOPPING"
  shows "(pending_children eng' = [] \<longrightarrow> paired (history st'))
    \<and> (pending_children eng' \<noteq> []
         \<longrightarrow> paired (fst (settle_round execute_one (pending_children eng') (history st'))))"
  using assms by (rule batch_paired)

lemma unanswered_not_paired:
  assumes "message_has_tool_use c" and "t \<in> set (use_ids c)"
    and "\<forall>m \<in> set ms. is_tool m" "t \<notin> set (concat (map result_ids ms))"
  shows "\<not> paired (h @ c # ms)"
proof
  assume "paired (h @ c # ms)"
  then have "paired (c # ms)"
    using paired_cut(2) tool_use_not_tool [OF assms(1)] by (metis list.sel(1))
  moreover have "takeWhile is_tool ms = ms" using assms(3) by (simp add: takeWhile_eq_all_conv)
  ultimately have "concat (map result_ids ms) = use_ids c"
    by (simp add: paired_group [OF assms(1)] answers_def)
  with assms(2,4) show False by simp
qed

text \<open>
  A fresh retry behind another call leaves a call open. When a pond tool asks for a fresh
  retry and the last message is no longer the one with its call, nothing is dropped and nothing
  is answered: the history ends without a result for this call, and is not paired.
\<close>

theorem late_retry_leaves_call_open:
  assumes "history st = h @ c # ms" and "message_has_tool_use c" and "t \<in> set (use_ids c)"
    and "ms \<noteq> []" "\<forall>m \<in> set ms. is_tool m" "t \<notin> set (concat (map result_ids ms))"
    and "wants_fresh_retry tool result"
  shows "history (answer_result env st t tool result) = history st
    \<and> \<not> paired (history (answer_result env st t tool result))"
proof -
  have "is_tool (last ms)" using assms(4,5) by simp
  then have "\<not> msg_role_is ''assistant'' (last (history st))"
    using assms(1,4) role_excl by fastforce
  then have "drop_pond_tool_attempt (history st) t = history st"
    using assms(1) by (simp add: drop_pond_tool_attempt_def Let_def)
  then have same: "history (answer_result env st t tool result) = history st"
    using assms(7) by (simp add: answer_result_def)
  have "\<not> paired (h @ c # ms)"
    using assms(2,3,5,6) by (rule unanswered_not_paired)
  with same assms(1) show ?thesis by simp
qed

definition two_calls :: json where
  "two_calls = JObj [(''role'', JStr ''assistant''), (''content'', JList
     [JObj [(''type'', JStr ''tool_use''), (''id'', JStr ''w1'')], JObj [(''type'', JStr ''tool_use''), (''id'', JStr ''p1'')]])]"

lemma late_retry_leaves_call_open_witness:
  "\<not> paired (history (answer_result plain_env
       (push_message (push_message edited_state two_calls) (tool_result_message ''w1'' ''ok'' False None))
       ''p1'' ''propose_opening_ponds'' [(''error'', JStr ''ponds_fresh_retry''), (''fresh_retry'', JBool True)]))"
proof -
  let ?m = "tool_result_message ''w1'' ''ok'' False None"
  have h: "history (push_message (push_message edited_state two_calls) ?m) = [] @ two_calls # [?m]"
    by (simp add: edited_state_def new_agent_state_def new_turn_state_def)
  have c: "message_has_tool_use two_calls" "''p1'' \<in> set (use_ids two_calls)"
    by (simp_all add: two_calls_def message_has_tool_use_def msg_role_is_def msg_blocks_def block_is_def use_ids_def
        str_field_Cons)
  have m: "\<forall>m \<in> set [?m]. is_tool m" "''p1'' \<notin> set (concat (map result_ids [?m]))"
    using single_result_ids [OF single_result_message [of "''w1''" "''ok''" False None]] by simp_all
  have "wants_fresh_retry ''propose_opening_ponds''
      [(''error'', JStr ''ponds_fresh_retry''), (''fresh_retry'', JBool True)]"
    by (simp add: wants_fresh_retry_def result_is_error_def)
  from late_retry_leaves_call_open [OF h c _ m this] show ?thesis by blast
qed

section \<open>Parallel calls and the window\<close>

definition window_fields :: "agent_state \<Rightarrow> bool \<times> str \<times> str" where
  "window_fields st = (saw_external (core st), window_taint (core st), last_external_tool (core st))"

lemma merge_window: "window_fields (foldl merge_run st xs) = window_fields st"
proof (induction xs arbitrary: st)
  case (Cons x xs)
  obtain env call s twin where x: "x = ((env, call), s, twin)" by (metis prod.exhaust)
  have "window_fields (merge_run st x) = window_fields st"
    by (simp add: x merge_run_def window_fields_def note_cancel_def Let_def)
  with Cons show ?case by simp
qed simp

lemma parallel_window:
  assumes "run_parallel items eng st step = Some (ss, eng', st')"
  shows "window_fields st' = window_fields st"
proof -
  obtain seeds r s where cs: "counter_seeds (read_file_calls eng) (search_sources_calls eng) (map snd items) = (seeds, r, s)"
    by (cases rule: prod_cases3)
  obtain runs eng1 st1 where ri: "run_isolated eng st step (read_registry st) (zip items seeds) = Some (runs, eng1, st1)"
    and out: "st' = foldl merge_run st1 (zip items runs)"
    using assms cs by (auto simp: run_parallel_def split: option.splits)
  show ?thesis unfolding out merge_window using isolated_same_core [OF ri] by (simp add: window_fields_def)
qed

text \<open>
  C36: a parallel group never raises the window of the turn. Whatever its calls brought in, also
  calls that reach outside the platform, the next call of the same reply is judged under the
  window from before the group. (The witness has a call that raises the window when it runs alone.)
\<close>

theorem parallel_group_forgets_window:
  assumes "run_group items eng st step = Some (ss, eng', st')" and "length items \<noteq> 1"
  shows "effective_window (core st') = effective_window (core st)"
proof -
  have "run_parallel items eng st step = Some (ss, eng', st')"
    using assms by (auto simp: run_group_def split: list.splits)
  from parallel_window [OF this] show ?thesis
    by (simp add: window_fields_def effective_window_def)
qed

definition search_call :: "str \<Rightarrow> dict" where
  "search_call t = [(''id'', JStr t), (''name'', JStr ''search_sources''), (''input'', JObj [])]"

text \<open>Surroundings whose tools raise the window like the executor's, and ones that spawn a child.\<close>

definition outside_env :: tool_env where
  "outside_env = plain_env\<lparr>te_execute :=
     (\<lambda>n t a g st. Some ([(''summary'', JStr ''ok'')], st\<lparr>core := note_external_tool (core st) n\<rparr>))\<rparr>"

definition spawning_env :: tool_env where
  "spawning_env = plain_env\<lparr>te_execute := (\<lambda>n t a g st. Some ([(''status'', JStr ''spawn_child'')], st))\<rparr>"

lemma parallel_group_forgets_window_witness:
  "map_option (\<lambda>(s, e, t). effective_window (core t))
     (run_group [(outside_env, search_call ''a''), (outside_env, search_call ''b'')] fresh_engine edited_state 0) = Some ''user''
   \<and> map_option (\<lambda>(s, e, t). window_fields t) (run_group [(outside_env, search_call ''a'')] fresh_engine edited_state 0)
     = Some (True, ''external'', ''search_sources'')"
proof
  let ?two = "[(outside_env, search_call ''a''), (outside_env, search_call ''b'')]"
  have "map_option (\<lambda>(s, e, t). length s) (run_group ?two fresh_engine edited_state 0) = Some 2" by code_simp
  then obtain ss eng' st' where run: "run_group ?two fresh_engine edited_state 0 = Some (ss, eng', st')"
    by (cases "run_group ?two fresh_engine edited_state 0") auto
  have "effective_window (core st') = effective_window (core edited_state)"
    by (rule parallel_group_forgets_window [OF run]) simp
  moreover have "effective_window (core edited_state) = ''user''" by code_simp
  ultimately show "map_option (\<lambda>(s, e, t). effective_window (core t)) (run_group ?two fresh_engine edited_state 0) = Some ''user''"
    by (simp add: run)
  show "map_option (\<lambda>(s, e, t). window_fields t) (run_group [(outside_env, search_call ''a'')] fresh_engine edited_state 0)
     = Some (True, ''external'', ''search_sources'')"
    by code_simp
qed

definition delegate_call :: dict where
  "delegate_call = [(''id'', JStr ''d1''), (''name'', JStr ''delegate''), (''input'', JObj [])]"

lemma batch_leaves_paired_history_witness:
  "\<exists>eng' st'. run_tool_batch [(spawning_env, delegate_call)] fresh_engine
        (push_message edited_state (assistant_tool_use ''d1'' ''delegate'' (JObj []))) 0
        = Some (Some ''waiting_child'', eng', st')
      \<and> paired (fst (settle_round (\<lambda>spec. [(''status'', JStr ''completed'')]) (pending_children eng') (history st')))"
proof -
  let ?c = "assistant_tool_use ''d1'' ''delegate'' (JObj [])"
  let ?st = "push_message edited_state ?c" and ?items = "[(spawning_env, delegate_call)]"
  have "map_option (\<lambda>(o', e, t). (o', pending_children e = [])) (run_tool_batch ?items fresh_engine ?st 0)
      = Some (Some ''waiting_child'', False)" by code_simp
  then obtain eng' st' where run: "run_tool_batch ?items fresh_engine ?st 0 = Some (Some ''waiting_child'', eng', st')"
    and child: "pending_children eng' \<noteq> []"
    by (cases "run_tool_batch ?items fresh_engine ?st 0") auto
  have c: "message_has_tool_use ?c" "use_ids ?c = [''d1'']"
    by (simp_all add: assistant_tool_use_def message_has_tool_use_def msg_role_is_def msg_blocks_def
        block_is_def use_ids_def str_field_Cons)
  have "tool_surroundings spawning_env" by unfold_locales (auto simp: spawning_env_def)
  then have ok: "calls_ok ?items" by (simp add: calls_ok_def call_named_def delegate_call_def)
  have "history ?st = [] @ [?c]" by (simp add: edited_state_def new_agent_state_def new_turn_state_def)
  from batch_leaves_paired_history [OF this _ c(1) _ _ ok _ run] c run child show ?thesis
    by (auto simp: item_id_def delegate_call_def fresh_engine_def STOPPING_def)
qed

section \<open>The result cache\<close>

lemma gate_cache: "call_gate env eng st n a c = (eng', e) \<Longrightarrow> tool_result_cache eng' = tool_result_cache eng"
  by (auto simp: call_gate_def read_gate_def search_gate_def count_read_def count_search_def Let_def
      split: if_splits option.splits prod.splits)

lemma coverage_cache:
  assumes "note_coverage env eng st n a r = (eng', st', r')"
  shows "tool_result_cache eng' = tool_result_cache eng"
proof -
  have "tool_result_cache (fst (note_read env eng st a r)) = tool_result_cache eng"
    by (simp add: note_read_def Let_def split_beta split: json.split)
  with assms show ?thesis by (auto simp: note_coverage_def split: if_splits)
qed

lemma obtain_cache:
  assumes "obtain_result env eng st step t n a = Some (eng', st', r)" and "n \<notin> set CACHEABLE_TOOLS"
  shows "tool_result_cache eng' = tool_result_cache eng"
proof -
  have miss: "(if skip_read_cache st n a then (None, eng) else lookup_tool_cache eng n a) = (None, eng)"
    using assms(2) by (simp add: lookup_tool_cache_def)
  show ?thesis
    using assms unfolding obtain_result_def miss
    by (auto simp: store_tool_cache_def Let_def split: option.splits prod.splits if_splits)
qed

lemma end_cache:
  "end_call env eng st step t n a r = Some (s, eng', st') \<Longrightarrow> tool_result_cache eng' = tool_result_cache eng"
  by (auto simp: end_call_def complete_call_def Let_def split: if_splits option.splits prod.splits)

lemma run_tool_cache:
  assumes "run_tool env eng st step c call = Some (s, eng', st')" and "map_of call ''name'' = Some (JStr n)"
    and "n \<notin> set CACHEABLE_TOOLS"
  shows "tool_result_cache eng' = tool_result_cache eng"
proof -
  obtain t where t: "map_of call ''id'' = Some (JStr t)"
    using assms(1,2) by (auto simp: run_tool_def split: option.splits json.splits)
  let ?a = "dict_get_default call ''input'' (JObj [])"
  obtain eng1 early where gate: "call_gate env eng st n ?a c = (eng1, early)" by force
  have c1: "tool_result_cache eng1 = tool_result_cache eng" using gate_cache [OF gate] .
  note eq = assms(1) [unfolded run_tool_def assms(2) t]
  show ?thesis
  proof (cases early)
    case (Some e)
    with eq gate c1 show ?thesis by (cases e) (auto simp: Let_def)
  next
    case None
    obtain st1 stopped where d: "draft_cancelled env st n ?a = (st1, stopped)" by force
    show ?thesis
    proof (cases stopped)
      case True
      with eq gate None d c1 show ?thesis by (auto simp: Let_def)
    next
      case False
      with eq gate None d obtain eng2 st2 res where o: "obtain_result env eng1 st1 step t n ?a = Some (eng2, st2, res)"
        by (auto simp: Let_def split: option.splits)
      have c2: "tool_result_cache eng2 = tool_result_cache eng"
        using obtain_cache [OF o assms(3)] c1 by simp
      show ?thesis
      proof (cases res)
        case None2: None
        with eq gate None d False o c2 show ?thesis by (auto simp: Let_def)
      next
        case (Some r)
        obtain eng3 st3 r1 where cov: "note_coverage env eng2 st2 n ?a r = (eng3, st3, r1)" by (cases rule: prod_cases3)
        have c3: "tool_result_cache (ingest_evidence eng3 n r1) = tool_result_cache eng"
          using coverage_cache [OF cov] c2 by (simp add: ingest_evidence_def Let_def)
        from eq gate None d False o Some cov show ?thesis
          by (auto simp: Let_def c3 dest: end_cache split: option.splits)
      qed
    qed
  qed
qed

definition CACHE_MARKS :: "str list" where
  "CACHE_MARKS = [''_cached'', ''_repeat_count'', ''_note'']"

lemma cached_result:
  assumes "map_of (tool_result_cache eng) (tool_cache_key n a) = Some r" and "n \<in> set CACHEABLE_TOOLS"
    and "\<not> skip_read_cache st n a"
  shows "\<exists>eng' r'. obtain_result env eng st step t n a = Some (eng', st, Some r')
    \<and> (\<forall>k. k \<notin> set CACHE_MARKS \<longrightarrow> dict_get r' k = dict_get r k)"
  using assms by (auto simp: obtain_result_def lookup_tool_cache_def CACHE_MARKS_def Let_def)

text \<open>A call that is answered from the cache does not depend on the executor.\<close>

abbreviation any_executor :: "_ \<Rightarrow> tool_env \<Rightarrow> tool_env" where
  "any_executor f env \<equiv> env\<lparr>te_execute := f\<rparr>"

lemma executor_unused:
  "call_gate (any_executor f env) = call_gate env"
  "draft_cancelled (any_executor f env) = draft_cancelled env"
  "note_coverage (any_executor f env) = note_coverage env"
  "annotate_unverified_citations (any_executor f env) = annotate_unverified_citations env"
  "note_facts (any_executor f env) = note_facts env"
  "end_call (any_executor f env) = end_call env"
  by - ((intro ext, cases env, simp only:, unfold call_gate_def read_gate_def search_gate_def draft_cancelled_def note_coverage_def
      note_read_def annotate_unverified_citations_def note_facts_def append_path_rules_def note_written_def
      note_command_def remember_edit_def end_call_def complete_call_def attach_signals_def answer_result_def
      park_approval_def child_approval_def call_approval_def unverified_note_def tool_env.select_convs
      tool_env.update_convs, rule refl)+)

lemma lookup_unused:
  assumes "map_of (tool_result_cache eng) (tool_cache_key n a) = Some r" and "n \<in> set CACHEABLE_TOOLS"
    and "\<not> skip_read_cache st n a"
  shows "obtain_result (any_executor f env) eng st step t n a = obtain_result env eng st step t n a"
  using assms by (simp add: obtain_result_def lookup_tool_cache_def Let_def)

text \<open>
  C37: a read-only result outlives every change of the work directory. Once the result of a tool
  of the cache (\<open>list_dir\<close>, \<open>glob\<close>, \<open>grep\<close>, a search or a lookup, but not \<open>read_file\<close>, whose repeated calls have
  rules of their own) is stored, then after a call of any tool outside the cache, an edit or a
  command, the same call never reaches the executor: its whole outcome is the same whatever the
  executor would say now, and the result it takes is the stored one with the marks of a repetition.
\<close>

theorem cached_result_survives_edits:
  assumes "map_of (tool_result_cache eng) (tool_cache_key n a) = Some r"
    and "n \<in> set CACHEABLE_TOOLS" "n \<noteq> ''read_file''"
    and "run_tool env eng st step c call = Some (s, eng1, st1)"
    and "map_of call ''name'' = Some (JStr other)" and "other \<notin> set CACHEABLE_TOOLS"
    and "map_of again ''name'' = Some (JStr n)" "dict_get_default again ''input'' (JObj []) = a"
  shows "run_tool (env2\<lparr>te_execute := f\<rparr>) eng1 st2 step2 c2 again = run_tool env2 eng1 st2 step2 c2 again
    \<and> (\<exists>eng2 r'. obtain_result env2 eng1 st2 step2 t n a = Some (eng2, st2, Some r')
         \<and> (\<forall>k. k \<notin> set CACHE_MARKS \<longrightarrow> dict_get r' k = dict_get r k))"
proof
  have skip: "\<not> skip_read_cache st' n a" for st'
    using assms(3) by (simp add: skip_read_cache_def)
  have hit: "map_of (tool_result_cache eng1) (tool_cache_key n a) = Some r"
    using run_tool_cache [OF assms(4-6)] assms(1) by simp
  from cached_result [OF hit assms(2) skip]
  show "\<exists>eng2 r'. obtain_result env2 eng1 st2 step2 t n a = Some (eng2, st2, Some r')
         \<and> (\<forall>k. k \<notin> set CACHE_MARKS \<longrightarrow> dict_get r' k = dict_get r k)" .
  obtain eng' early where gate: "call_gate env2 eng1 st2 n a c2 = (eng', early)" by force
  have "map_of (tool_result_cache eng') (tool_cache_key n a) = Some r"
    using gate_cache [OF gate] hit by simp
  note same = lookup_unused [OF this assms(2) skip]
  show "run_tool (env2\<lparr>te_execute := f\<rparr>) eng1 st2 step2 c2 again = run_tool env2 eng1 st2 step2 c2 again"
    using assms(2) unfolding run_tool_def assms(7) assms(8) executor_unused gate
    by (auto simp: gate same draft_cancelled_def CACHEABLE_TOOLS_def Let_def split: option.split json.split prod.split)
qed

text \<open>
  A timeout of a read-only tool is cached like a success: the retry with the same arguments
  is answered with the old timeout and never reaches the executor.
\<close>

theorem timeout_is_cached:
  assumes "n \<in> set CACHEABLE_TOOLS" and "map_of (tool_result_cache eng) (tool_cache_key n a) = None"
    and "executor_run ex n t (as_dict a) (core st) None = Some (CallTimeout, c)"
    and "te_inject env n (the (result_dict tx n t [] CallTimeout)) = the (result_dict tx n t [] CallTimeout)"
    and "\<not> skip_read_cache st2 n a"
  shows "\<exists>eng1 st1 eng2 r'. obtain_result (with_executor ex tx env) eng st step t n a
        = Some (eng1, st1, Some (the (result_dict tx n t [] CallTimeout)))
      \<and> obtain_result env2 eng1 st2 step2 t2 n a = Some (eng2, st2, Some r')
      \<and> dict_get r' ''status'' = JStr ''timeout''"
proof -
  let ?r = "the (result_dict tx n t [] CallTimeout)" and ?k = "tool_cache_key n a"
  have ex: "execute_call ex tx n t a None st = Some (?r, st\<lparr>core := c\<rparr>)"
    using assms(3) by (simp add: execute_call_def result_dict_def)
  have miss: "(if skip_read_cache st n a then (None, eng) else lookup_tool_cache eng n a) = (None, eng)"
    using assms(1,2) by (simp add: lookup_tool_cache_def)
  have plain: "dict_get ?r ''status'' = JStr ''timeout''" "\<not> truthy (dict_get ?r ''error'')"
    by (simp_all add: result_dict_def)
  have one: "obtain_result (with_executor ex tx env) eng st step t n a
      = Some (store_tool_cache eng n a ?r, note_skill (st\<lparr>core := c\<rparr>) n ?r, Some ?r)"
    unfolding obtain_result_def miss
    using assms(4) plain by (simp add: with_executor_def ex park_spawned_child_def Let_def)
  have "map_of (tool_result_cache (store_tool_cache eng n a ?r)) ?k = Some ?r"
    using assms(1) plain by (simp add: store_tool_cache_def Let_def map_of_dict_set)
  from cached_result [OF this assms(1,5), of env2 step2 t2] one plain show ?thesis
    by (auto simp: CACHE_MARKS_def)
qed


definition list_args :: json where
  "list_args = JObj [(''path'', JStr ''src'')]"

definition caching_engine :: engine where
  "caching_engine = fresh_engine\<lparr>tool_result_cache := [(tool_cache_key ''list_dir'' list_args, [(''summary'', JStr ''old'')])]\<rparr>"

definition write_call :: dict where
  "write_call = [(''id'', JStr ''w1''), (''name'', JStr ''write_file''), (''input'', JObj [(''path'', JStr ''src/a'')])]"

definition list_again :: dict where
  "list_again = [(''id'', JStr ''l2''), (''name'', JStr ''list_dir''), (''input'', list_args)]"

lemma cached_result_survives_edits_witness:
  "\<exists>s eng1 st1 eng2 r'. run_tool plain_env caching_engine edited_state 0 None write_call = Some (s, eng1, st1)
     \<and> (\<forall>f. run_tool (plain_env\<lparr>te_execute := f\<rparr>) eng1 st1 0 None list_again = run_tool plain_env eng1 st1 0 None list_again)
     \<and> obtain_result plain_env eng1 st1 0 ''l2'' ''list_dir'' list_args = Some (eng2, st1, Some r')
     \<and> dict_get r' ''summary'' = JStr ''old''"
proof -
  have "map_option fst (run_tool plain_env caching_engine edited_state 0 None write_call) = Some ''ok''"
    by code_simp
  then obtain eng1 st1 where run: "run_tool plain_env caching_engine edited_state 0 None write_call = Some (''ok'', eng1, st1)"
    by (cases "run_tool plain_env caching_engine edited_state 0 None write_call") auto
  have "map_of (tool_result_cache caching_engine) (tool_cache_key ''list_dir'' list_args) = Some [(''summary'', JStr ''old'')]"
    "''list_dir'' \<in> set CACHEABLE_TOOLS" "''list_dir'' \<noteq> ''read_file''" "map_of write_call ''name'' = Some (JStr ''write_file'')"
    "''write_file'' \<notin> set CACHEABLE_TOOLS" "map_of list_again ''name'' = Some (JStr ''list_dir'')"
    "dict_get_default list_again ''input'' (JObj []) = list_args"
    by (simp_all add: caching_engine_def CACHEABLE_TOOLS_def write_call_def list_again_def dict_get_default_def)
  note again = cached_result_survives_edits [OF this(1-3) run this(4-7)]
  have "run_tool (plain_env\<lparr>te_execute := f\<rparr>) eng1 st1 0 None list_again = run_tool plain_env eng1 st1 0 None list_again" for f
    using again by blast
  moreover obtain eng2 r' where "obtain_result plain_env eng1 st1 0 ''l2'' ''list_dir'' list_args = Some (eng2, st1, Some r')"
    "\<forall>k. k \<notin> set CACHE_MARKS \<longrightarrow> dict_get r' k = dict_get [(''summary'', JStr ''old'')] k"
    using again by blast
  moreover have "''summary'' \<notin> set CACHE_MARKS" by (simp add: CACHE_MARKS_def)
  ultimately show ?thesis using run by fastforce
qed

definition slow_executor :: executor_env where
  "slow_executor = sample_executor\<lparr>ex_specs := [(''list_dir'', spec_of ''S0'')], ex_handler := (\<lambda>_ _. HandlerTimeout)\<rparr>"

lemma timeout_is_cached_witness:
  "\<exists>eng1 st1 eng2 r'. obtain_result (with_executor slow_executor sample_texts plain_env) fresh_engine edited_state 0
        ''l1'' ''list_dir'' list_args = Some (eng1, st1, Some (the (result_dict sample_texts ''list_dir'' ''l1'' [] CallTimeout)))
     \<and> obtain_result plain_env eng1 edited_state 0 ''l2'' ''list_dir'' list_args = Some (eng2, edited_state, Some r')
     \<and> dict_get r' ''status'' = JStr ''timeout''"
proof -
  have "map_option fst (executor_run slow_executor ''list_dir'' ''l1'' (as_dict list_args) (core edited_state) None) = Some CallTimeout"
    by code_simp
  then obtain c where run: "executor_run slow_executor ''list_dir'' ''l1'' (as_dict list_args) (core edited_state) None = Some (CallTimeout, c)"
    by auto
  have "''list_dir'' \<in> set CACHEABLE_TOOLS"
    "map_of (tool_result_cache fresh_engine) (tool_cache_key ''list_dir'' list_args) = None"
    by (simp_all add: CACHEABLE_TOOLS_def fresh_engine_def)
  note first = timeout_is_cached [OF this run, where env = plain_env and tx = sample_texts and ?st2.0 = edited_state
      and ?env2.0 = plain_env and ?step2.0 = 0 and ?t2.0 = "''l2''" and step = 0]
  have "te_inject plain_env n d = d" for n d by (simp add: plain_env_def)
  moreover have "\<not> skip_read_cache edited_state ''list_dir'' list_args" by (simp add: skip_read_cache_def)
  ultimately show ?thesis using first by blast
qed

section \<open>Calls after a parked one\<close>

lemma tool_message_ids: "result_ids (tool_result_message t s e l) = [t]"
  by (cases "t = []") (simp_all add: result_ids_def tool_result_message_def msg_blocks_def block_is_def str_field_def)

lemma finish_history:
  assumes "finish_approved env eng call k n args r st = Some (x, eng', st')"
  shows "\<exists>ms. history st' = history st @ ms \<and> length (concat (map result_ids ms)) \<le> 1"
proof -
  have keep: "\<exists>ms. history st = history st @ ms \<and> length (concat (map result_ids ms)) \<le> 1" by (rule exI [of _ "[]"]) simp
  have one: "\<exists>ms. history (push_message st (tool_result_message t s e l)) = history st @ ms
      \<and> length (concat (map result_ids ms)) \<le> 1" for t s e l
    by (rule exI [of _ "[tool_result_message t s e l]"]) (simp add: tool_message_ids)
  have "st' = st \<or> (\<exists>t s e l. st' = push_message st (tool_result_message t s e l))"
    using assms unfolding finish_approved_def Let_def
    by (auto split: if_splits option.splits prod.splits)
  with keep one show ?thesis by metis
qed

lemma resume_history:
  assumes "tool_surroundings env" and "resume_after_approval env child eng st call k ok reason = Some (x, eng', st')"
  shows "\<exists>ms. history st' = history st @ ms \<and> length (concat (map result_ids ms)) \<le> 1"
proof -
  have keep: "\<exists>ms. history st = history st @ ms \<and> length (concat (map result_ids ms)) \<le> 1" by (rule exI [of _ "[]"]) simp
  have one: "\<exists>ms. history (push_message st (tool_result_message t s e l)) = history st @ ms
      \<and> length (concat (map result_ids ms)) \<le> 1" for t s e l
    by (rule exI [of _ "[tool_result_message t s e l]"]) (simp add: tool_message_ids)
  have run: "\<exists>ms. history st' = history st @ ms \<and> length (concat (map result_ids ms)) \<le> 1"
    if r: "run_approved env child eng st call k = Some (x, eng', st')"
  proof -
    from r obtain n args res st1 where f: "finish_approved env eng call k n args res st1 = Some (x, eng', st')"
      and h: "history st1 = history st"
      unfolding run_approved_def Let_def
      by (auto split: option.splits if_splits dest: tool_surroundings.execute_history [OF assms(1)])
    from finish_history [OF f] show ?thesis by (simp add: h)
  qed
  consider "st' = st" | t s e l where "st' = push_message st (tool_result_message t s e l)"
    | "run_approved env child eng st call k = Some (x, eng', st')"
    using assms(2) unfolding resume_after_approval_def Let_def
    by (auto split: if_splits option.splits)
  then show ?thesis using keep one run by cases auto
qed

text \<open>The groups before and behind a serial call, and a batch up to it.\<close>

lemma groups_at_serial:
  "\<not> parallel_item p \<Longrightarrow> batch_groups (before @ p # rest) = batch_groups before @ [p] # batch_groups rest"
proof (induction before rule: batch_groups.induct)
  case (2 q qs)
  show ?case
  proof (cases "parallel_item q")
    case True
    have "takeWhile parallel_item (qs @ p # rest) = takeWhile parallel_item qs"
      "dropWhile parallel_item (qs @ p # rest) = dropWhile parallel_item qs @ p # rest"
      using "2.prems" by (induction qs) auto
    with True 2 show ?thesis by simp
  next
    case False
    with 2 show ?thesis by simp
  qed
qed simp

lemma run_groups_append:
  assumes "run_groups gs eng st step prev = Some (o1, eng', st')" and "o1 \<notin> Some ` set STOPPING"
  shows "\<exists>prev'. \<forall>gs'. run_groups (gs @ gs') eng st step prev = run_groups gs' eng' st' step prev'"
  using assms
proof (induction gs eng st step prev rule: run_groups.induct)
  case (1 eng st step prev)
  then show ?case by auto
next
  case (2 g gs eng st step prev)
  obtain summaries eng1 st1 where g: "run_group g eng st step = Some (summaries, eng1, st1)"
    using "2.prems"(1) by (auto split: option.splits)
  have ns: "filter (\<lambda>s. s \<in> set STOPPING) summaries = []"
  proof (cases "filter (\<lambda>s. s \<in> set STOPPING) summaries")
    case (Cons s rest)
    then have "s \<in> set (filter (\<lambda>s. s \<in> set STOPPING) summaries)" by simp
    then have "s \<in> set STOPPING" by simp
    with "2.prems"(1,2) g Cons show ?thesis by auto
  qed
  have nc: "\<not> cancelled (core st1)"
    using "2.prems"(1,2) g ns by (auto simp: STOPPING_def split: if_splits)
  from "2.IH" [OF g refl refl ns nc _ "2.prems"(2)] "2.prems"(1) g ns nc show ?case by simp
qed

text \<open>
  C38: a reply with calls behind one that needs approval (a call that runs alone, not in a
  parallel group). The calls before it are answered, the turn parks there, and whatever the user
  decides, the calls behind it are never run and never answered: the conversation the agent
  goes on with is not paired.
\<close>

theorem calls_after_parked_stay_open:
  assumes "history st = h @ [c]" and "paired h" and "message_has_tool_use c"
    and "use_ids c = map item_id (before @ (env, call) # rest)" and "rest \<noteq> []"
    and "\<not> is_parallel_tool_call call" and "\<forall>p \<in> set before. call_ok p"
    and "run_tool_batch before eng st step = Some (o0, eng0, st0)" and "o0 \<notin> Some ` set STOPPING"
    and "run_tool env eng0 st0 step None call = Some (''waiting_approval'', eng1, st1)" and "history st1 = history st0"
    and "tool_surroundings env2"
    and "resume_after_approval env2 child eng2 st1 asked k ok reason = Some (x, eng3, st3)"
  shows "run_tool_batch (before @ (env, call) # rest) eng st step = Some (Some ''waiting_approval'', eng1, st1)
    \<and> \<not> paired (history st3)"
proof
  obtain prev where "run_groups (batch_groups before @ [(env, call)] # batch_groups rest) eng st step None
      = run_groups ([(env, call)] # batch_groups rest) eng0 st0 step prev"
    using run_groups_append [OF assms(8) [unfolded run_tool_batch_def] assms(9)] by blast
  then show "run_tool_batch (before @ (env, call) # rest) eng st step = Some (Some ''waiting_approval'', eng1, st1)"
    using assms(6,10) by (simp add: run_tool_batch_def groups_at_serial run_group_def STOPPING_def)
  obtain ms0 specs where m0: "history st0 = history st @ ms0" "answers_calls (map item_id before) ms0 specs"
    by (rule batch_ends [OF assms(7-9)])
  obtain ms where ms: "history st3 = history st1 @ ms" "length (concat (map result_ids ms)) \<le> 1"
    using resume_history [OF assms(12,13)] by auto
  let ?ms = "ms0 @ ms"
  have "length (concat (map result_ids ms0)) \<le> length before"
    using answers_count [OF m0(2)] by simp
  with ms(2) have few: "length (concat (map result_ids ?ms)) \<le> length before + 1" by simp
  have short: "length (concat (map result_ids (takeWhile is_tool ?ms))) \<le> length (concat (map result_ids ?ms))"
    by (metis append_is_Nil_conv concat_append le_add1 length_append map_append takeWhile_dropWhile_id)
  have "length (use_ids c) > length before + 1" using assms(4,5) by (cases rest) auto
  with short few have "\<not> answers c (takeWhile is_tool ?ms)" by (auto simp: answers_def)
  then have "\<not> paired (c # ?ms)" by (simp add: paired_group [OF assms(3)])
  moreover have "history st3 = h @ c # ?ms" using ms(1) assms(1,11) m0(1) by simp
  ultimately show "\<not> paired (history st3)"
    using paired_rest [OF assms(2) tool_use_not_tool [OF assms(3)]] by metis
qed

definition parking_env :: tool_env where
  "parking_env = plain_env\<lparr>te_execute := (\<lambda>n t a g st. Some ([(''status'', JStr ''approval_required'')], st))\<rparr>"

lemma calls_after_parked_stay_open_witness:
  "\<exists>eng1 st1 st3. run_tool_batch [(parking_env, write_call), (parking_env, delegate_call)] fresh_engine
        (push_message edited_state (JObj [(''role'', JStr ''assistant''), (''content'', JList
           [JObj [(''type'', JStr ''tool_use''), (''id'', JStr ''w1'')], JObj [(''type'', JStr ''tool_use''), (''id'', JStr ''d1'')]])])) 0
        = Some (Some ''waiting_approval'', eng1, st1)
      \<and> resume_after_approval plain_env (\<lambda>_ _. []) fresh_engine st1 (call_of ''w1'' ''write_file'' []) ''w1'' True []
        = Some (GoesOn, fresh_engine, st3)
      \<and> \<not> paired (history st3)"
proof -
  let ?c = "JObj [(''role'', JStr ''assistant''), (''content'', JList
     [JObj [(''type'', JStr ''tool_use''), (''id'', JStr ''w1'')], JObj [(''type'', JStr ''tool_use''), (''id'', JStr ''d1'')]])]"
  let ?st = "push_message edited_state ?c"
  let ?run = "run_tool parking_env fresh_engine ?st 0 None write_call"
  have "map_option (\<lambda>(s, e, t). (s, history t)) ?run = Some (''waiting_approval'', [?c])" by code_simp
  then obtain eng1 st1 where run: "?run = Some (''waiting_approval'', eng1, st1)" and h1: "history st1 = [?c]"
    by (cases ?run) auto
  have c: "message_has_tool_use ?c" "use_ids ?c = map item_id [(parking_env, write_call), (parking_env, delegate_call)]"
    by (simp_all add: message_has_tool_use_def msg_role_is_def msg_blocks_def block_is_def use_ids_def str_field_Cons
        item_id_def write_call_def delegate_call_def)
  have h: "history ?st = [] @ [?c]" by (simp add: edited_state_def new_agent_state_def new_turn_state_def)
  have np: "\<not> is_parallel_tool_call write_call" by code_simp
  let ?card = "call_of ''w1'' ''write_file'' []"
  have res: "resume_after_approval plain_env (\<lambda>_ _. []) fresh_engine st1 ?card ''w1'' True []
      = Some (GoesOn, fresh_engine, push_message st1 (tool_result_message ''w1'' (json_dumps_ascii (JObj [(''summary'', JStr ''ok'')])) False None))"
    by (simp add: resume_after_approval_def run_approved_def finish_approved_def call_of_def plain_env_def
        passed_deadline_def dict_get_default_def str_field_def starts_with_def park_spawned_child_def result_summary_def Let_def)
  have none: "run_tool_batch [] fresh_engine ?st 0 = Some (None, fresh_engine, ?st)"
    by (simp add: run_tool_batch_def fresh_engine_def)
  have use: "use_ids ?c = map item_id ([] @ (parking_env, write_call) # [(parking_env, delegate_call)])" using c(2) by simp
  from calls_after_parked_stay_open [OF h _ c(1) use _ np _ none _ run _ plain_env_surroundings res] h1 h res
  show ?thesis by auto
qed

end
