(* ===== verification/Compaction.thy ===== *)
theory Compaction
  imports Messages ReadRegistry Taint Complex_Main
    "HOL-Library.Char_ord" "HOL-Library.List_Lexorder" "HOL-Library.Product_Lexorder"
begin

text \<open>
  The context engine of \<open>services/runtime/app/context/engine.py\<close> and \<open>context/pointers.py\<close>:
  token estimates, the truncation and folding of tool results, microcompact, collapse and snip,
  and the pipeline \<open>_build_envelope\<close> that applies them in turn. Ratios are exact rationals,
  where Python compares doubles. The prefix messages (system, project, volatile) and the
  trailing runtime message are given; the summary text of autocompact is the parameter
  \<open>summarize\<close>.
\<close>

section \<open>Token estimates\<close>

text \<open>On code points, so that the wide characters count; the model's strings have none.\<close>

definition estimate_text_tokens :: "nat list \<Rightarrow> int" where
  "estimate_text_tokens txt =
     (let cjk = int (length (filter (\<lambda>n. n > 0x2E80) txt)); other = int (length txt) - cjk
      in max 1 (cjk + (other + 2) div 3))"

definition codes :: "str \<Rightarrow> nat list" where
  "codes s = map of_char s"

definition estimate_payload_tokens :: "json \<Rightarrow> int" where
  "estimate_payload_tokens payload = (case payload of
      JNull \<Rightarrow> 0
    | JStr s \<Rightarrow> if s = [] then 0 else estimate_text_tokens (codes s)
    | _ \<Rightarrow> estimate_text_tokens (codes (json_dumps payload)))"

definition estimate_tokens :: "json list \<Rightarrow> int" where
  "estimate_tokens msgs = max 1 (estimate_payload_tokens (JList msgs))"

record window_tokens =
  system_tokens :: int
  tools_tokens :: int
  messages_tokens :: int
  tokens_after :: int

definition estimate_assembled_window :: "json list \<Rightarrow> json list \<Rightarrow> window_tokens" where
  "estimate_assembled_window msgs tools =
     (let s = sum_list (map estimate_payload_tokens (filter (msg_role_is ''system'') msgs));
          m = sum_list (map estimate_payload_tokens (filter (\<lambda>x. \<not> msg_role_is ''system'' x) msgs));
          t = estimate_payload_tokens (JList tools)
      in \<lparr>system_tokens = s, tools_tokens = t, messages_tokens = m, tokens_after = s + t + m\<rparr>)"

record compaction_policy =
  model_window_tokens :: int
  output_reserve_tokens :: int
  fill_collapse :: rat
  fill_snip :: rat
  fill_autocompact :: rat
  hot_zone_ratio :: rat

text \<open>What surrounds the history in a request.\<close>

record context_frame =
  system_msg :: json
  project_msg :: "json option"
  volatile_msg :: "json option"
  runtime_msg :: "json option"
  frame_tools :: "json list"

definition opt_list :: "'a option \<Rightarrow> 'a list" where
  "opt_list x = (case x of None \<Rightarrow> [] | Some y \<Rightarrow> [y])"

definition prefix_messages :: "context_frame \<Rightarrow> json list" where
  "prefix_messages fr = system_msg fr # opt_list (project_msg fr) @ opt_list (volatile_msg fr)"

definition window_fill :: "compaction_policy \<Rightarrow> context_frame \<Rightarrow> json list \<Rightarrow> rat \<times> window_tokens" where
  "window_fill pol fr msgs =
     (let window = estimate_assembled_window (prefix_messages fr @ msgs @ opt_list (runtime_msg fr)) (frame_tools fr);
          usable = max 1 (model_window_tokens pol - output_reserve_tokens pol)
      in (of_int (tokens_after window) / of_int usable, window))"

section \<open>The breakdown of a window\<close>

definition message_text :: "json \<Rightarrow> str" where
  "message_text msg = strip (join '' '' (map (\<lambda>b. py_str (dict_get_default b ''text'' (JStr [])))
     (filter (block_is ''text'') (msg_blocks msg))))"

datatype window_part = In_system | In_tool_results | In_project | In_runtime | In_volatile
  | In_session | In_compaction | In_user | In_assistant | In_none

definition breakdown_part :: "json \<Rightarrow> window_part" where
  "breakdown_part msg =
     (let txt = message_text msg; low = lower txt in
      if msg_role_is ''system'' msg then In_system
      else if is_tool msg then In_tool_results
      else if starts_with txt ''[project_context]'' then In_project
      else if starts_with txt ''[runtime_context]'' then In_runtime
      else if starts_with txt ''[writing_context]'' then In_volatile
      else if occurs_in ''session context'' low then In_session
      else if starts_with txt ''['' \<and> (\<exists>m \<in> {''microcompact'', ''collapsed'', ''autocompact'', ''pinned tool''}. occurs_in m low)
        then In_compaction
      else if msg_role_is ''user'' msg then In_user
      else if msg_role_is ''assistant'' msg then In_assistant
      else In_none)"

definition estimate_window_breakdown :: "json list \<Rightarrow> window_part \<Rightarrow> int" where
  "estimate_window_breakdown msgs part =
     sum_list (map estimate_payload_tokens (filter (\<lambda>m. breakdown_part m = part) msgs))"

section \<open>Tool results\<close>

text \<open>The first tool result of a tool message.\<close>

definition tool_result_text :: "json \<Rightarrow> str" where
  "tool_result_text msg = (if \<not> is_tool msg then []
     else (case filter (block_is ''tool_result'') (msg_blocks msg) of
         [] \<Rightarrow> [] | b # bs \<Rightarrow> py_str (dict_get_default b ''content'' (JStr []))))"

definition has_key :: "dict \<Rightarrow> str \<Rightarrow> bool" where
  "has_key d k \<longleftrightarrow> map_of d k \<noteq> None"

definition is_pinned_short_tool_result :: "str \<Rightarrow> bool" where
  "is_pinned_short_tool_result txt =
     (if txt = [] \<or> length txt > 800 then False
      else (case json_loads txt of
          Some (JObj d) \<Rightarrow> (has_key d ''entries'' \<and> has_key d ''path'') \<or> (has_key d ''files'' \<and> has_key d ''pattern'')
            \<or> has_key d ''matches'' \<or> has_key d ''hits'' \<or> has_key d ''error''
        | _ \<Rightarrow> False))"

definition newline :: char where "newline = CHR 0x0A"

definition pinned_tool_digest :: "json list \<Rightarrow> str" where
  "pinned_tool_digest msgs =
     (let snippets = map (\<lambda>body. take 160 (replace_char newline (CHR '' '') body))
            (filter is_pinned_short_tool_result (map tool_result_text msgs))
      in if snippets = [] then []
         else ''[pinned tool results preserved: '' @ join '' | '' (take 6 snippets) @ '']'')"

definition count_name :: "(str \<times> int) list \<Rightarrow> str \<Rightarrow> (str \<times> int) list" where
  "count_name counts name = dict_set counts name (or_else (map_of counts name) 0 + 1)"

text \<open>\<open>sorted(counts.items(), key=lambda item: (-item[1], item[0]))\<close>; \<open>CHR 0xD7\<close> is the times sign.\<close>

definition dropped_tools_summary :: "json list \<Rightarrow> str" where
  "dropped_tools_summary msgs =
     (let names = concat (map (\<lambda>msg. map (\<lambda>b. py_str (py_or (dict_get b ''name'') (JStr ''unknown'')))
              (filter (block_is ''tool_use'') (msg_blocks msg))) (filter (msg_role_is ''assistant'') msgs));
          counts = foldl count_name [] names
      in if counts = [] then []
         else ''dropped tools: '' @ join '', '' (map (\<lambda>(name, n). name @ [CHR 0xD7] @ show_int n)
                (sort_key (\<lambda>(name, n). (- n, name)) counts)))"

record budget_limits =
  default_budget :: int
  read_budget :: int
  protect_latest :: bool

definition marker_long :: str where
  "marker_long = newline # ''...[budget_truncated]...'' @ [newline]"

definition marker_short :: str where
  "marker_short = newline # ''...[budget_truncated]''"

definition middle_truncate_text :: "str \<Rightarrow> int \<Rightarrow> str" where
  "middle_truncate_text txt limit =
     (if limit \<le> 0 \<or> int (length txt) \<le> limit then txt
      else (let keep = (limit - int (length marker_long)) div 2 in
        if keep < 64 then take (nat (max 0 (limit - int (length marker_short)))) txt @ marker_short
        else take (nat keep) txt @ marker_long @ drop (length txt - nat keep) txt))"

definition latest_read_file_tool_use_ids :: "json list \<Rightarrow> str set" where
  "latest_read_file_tool_use_ids msgs =
     (let names = tool_use_name_by_id msgs;
          tids = filter (\<lambda>tid. names tid = Some ''read_file'')
            (concat (map result_ids (filter is_tool msgs)))
      in if tids = [] \<or> last tids = [] then {} else {last tids})"

definition q :: "str \<Rightarrow> str" where "q s = quote_char # s @ [quote_char]"

definition preserve_writing_section_extract :: "str \<Rightarrow> bool" where
  "preserve_writing_section_extract txt \<longleftrightarrow>
     occurs_in (q ''writing_section_extract'' @ '': true'') txt
     \<or> occurs_in (q ''writing_section_extract'' @ '':true'') txt"

definition budget_block :: "budget_limits \<Rightarrow> bool \<Rightarrow> (str \<rightharpoonup> str) \<Rightarrow> str set \<Rightarrow> dict \<Rightarrow> dict \<times> str option" where
  "budget_block limits preserve_short names latest block =
     (let txt = py_str (dict_get_default block ''content'' (JStr []));
          tid = str_field block ''tool_use_id'';
          limit = (if tid \<in> latest \<and> names tid = Some ''read_file'' then read_budget limits else default_budget limits)
      in if \<not> block_is ''tool_result'' block then (block, None)
         else if preserve_short \<and> is_pinned_short_tool_result txt then (block, None)
         else if preserve_writing_section_extract txt then (block, None)
         else if int (length txt) > limit
           then (dict_set block ''content'' (JStr (middle_truncate_text txt limit)), Some (or_else (names tid) ''unknown''))
         else (dict_set block ''content'' (JStr txt), None))"

definition set_blocks :: "json \<Rightarrow> dict list \<Rightarrow> json" where
  "set_blocks msg blocks = JObj (dict_set (as_dict msg) ''content'' (JList (map JObj blocks)))"

text \<open>\<open>_apply_tool_result_budget\<close>: the history, the number of truncations, and by tool.\<close>

definition apply_tool_result_budget :: "budget_limits \<Rightarrow> bool \<Rightarrow> json list \<Rightarrow> json list \<times> nat \<times> (str \<times> int) list" where
  "apply_tool_result_budget limits preserve_short msgs =
     (let names = tool_use_name_by_id msgs; latest = latest_read_file_tool_use_ids msgs;
          f = budget_block limits preserve_short names latest;
          cut = List.map_filter (\<lambda>b. snd (f b)) (concat (map msg_blocks (filter is_tool msgs)))
      in (map (\<lambda>msg. if is_tool msg then set_blocks msg (map (fst \<circ> f) (msg_blocks msg)) else msg) msgs,
          length cut, foldl count_name [] cut))"

section \<open>Which read bodies are visible\<close>

definition loads_dict :: "str \<Rightarrow> dict option" where
  "loads_dict txt = (case json_loads txt of Some (JObj d) \<Rightarrow> Some d | _ \<Rightarrow> None)"

text \<open>The path of a block that still shows a body of at least 80 characters.\<close>

definition visible_read_path :: "(str \<rightharpoonup> str) \<Rightarrow> dict \<Rightarrow> str option" where
  "visible_read_path names block =
     (if \<not> block_is ''tool_result'' block \<or> names (str_field block ''tool_use_id'') \<noteq> Some ''read_file'' then None
      else (case loads_dict (str_field block ''content'') of None \<Rightarrow> None
        | Some d \<Rightarrow>
          if truthy (dict_get d ''_folded_read'') then None
          else (case dict_get d ''content'' of
              JStr body \<Rightarrow> if length body < 80 then None
                 else (let path = normalize_read_path (str_field d ''path'') in
                   if path = [] then None else Some path)
            | _ \<Rightarrow> None)))"

definition read_paths_in_messages :: "json list \<Rightarrow> str set" where
  "read_paths_in_messages msgs =
     set (List.map_filter (visible_read_path (tool_use_name_by_id msgs))
       (concat (map msg_blocks (filter is_tool msgs))))"

definition read_paths_missing_after :: "json list \<Rightarrow> json list \<Rightarrow> str set" where
  "read_paths_missing_after before after = read_paths_in_messages before - read_paths_in_messages after"

section \<open>Folding stale reads\<close>

definition fold_candidate :: "(str \<rightharpoonup> str) \<Rightarrow> nat \<Rightarrow> dict \<Rightarrow> str option" where
  "fold_candidate names min_chars block =
     (let tid = str_field block ''tool_use_id''; txt = str_field block ''content'' in
      if \<not> block_is ''tool_result'' block \<or> names tid \<noteq> Some ''read_file'' \<or> length txt < min_chars then None
      else (case loads_dict txt of None \<Rightarrow> None
        | Some d \<Rightarrow>
          if truthy (dict_get d ''error'') \<or> truthy (dict_get d ''_folded_read'')
             \<or> truthy (dict_get d ''writing_section_extract'') then None
          else (case dict_get d ''content'' of
              JStr body \<Rightarrow> if length body < min_chars then None
                 else (let path = normalize_read_path (str_field d ''path'') in
                   Some (if path = [] then ''__anon_'' @ tid else path))
            | _ \<Rightarrow> None)))"

type_synonym block_pos = "nat \<times> nat"

definition fold_candidates :: "nat \<Rightarrow> json list \<Rightarrow> (block_pos \<times> str) list" where
  "fold_candidates min_chars msgs =
     (let names = tool_use_name_by_id msgs in
      concat (map (\<lambda>(mi, msg). if \<not> is_tool msg then []
          else List.map_filter (\<lambda>(bi, block). map_option (\<lambda>p. ((mi, bi), p)) (fold_candidate names min_chars block))
            (enumerate 0 (msg_blocks msg))) (enumerate 0 msgs)))"

text \<open>All but the last \<open>keep\<close> positions of each path.\<close>

definition stale_positions :: "nat \<Rightarrow> (block_pos \<times> str) list \<Rightarrow> (block_pos \<times> str) list" where
  "stale_positions keep cands = concat (map (\<lambda>path.
       (let items = filter (\<lambda>c. snd c = path) cands in take (length items - keep) items))
     (remdups (map snd cands)))"

definition fold_block :: "dict \<Rightarrow> dict \<times> bool" where
  "fold_block block = (case loads_dict (str_field block ''content'') of None \<Rightarrow> (block, False)
     | Some d \<Rightarrow> (dict_set block ''content'' (JStr (json_dumps (JObj (omit_read_file_content_payload d)))), True))"

definition fold_message :: "block_pos list \<Rightarrow> nat \<times> json \<Rightarrow> json \<times> nat" where
  "fold_message keys p = (case p of (mi, msg) \<Rightarrow>
     if \<not> is_tool msg then (msg, 0)
     else (let bs = map (\<lambda>(bi, b). if (mi, bi) \<in> set keys then fold_block b else (b, False))
              (enumerate 0 (msg_blocks msg))
       in (if (\<exists>b \<in> set bs. snd b) then set_blocks msg (map fst bs) else msg,
           length (filter snd bs))))"

definition fold_stale_read_file_results :: "nat \<Rightarrow> nat \<Rightarrow> json list \<Rightarrow> json list \<times> nat \<times> str set" where
  "fold_stale_read_file_results keep_last min_chars msgs =
     (let stale = stale_positions (max 1 keep_last) (fold_candidates min_chars msgs) in
      if stale = [] then (msgs, 0, {})
      else (let out = map (fold_message (map fst stale)) (enumerate 0 msgs)
        in (map fst out, sum_list (map snd out),
            {p \<in> snd ` set stale. \<not> starts_with p ''__anon_''})))"

section \<open>Pointers for stale results\<close>

definition note_tool_name :: "(str \<rightharpoonup> str) \<Rightarrow> dict \<Rightarrow> (str \<rightharpoonup> str)" where
  "note_tool_name mapping block =
     (let tid = str_field block ''id'' in
      if block_is ''tool_use'' block \<and> tid \<noteq> []
      then mapping(tid \<mapsto> py_str (py_or (dict_get block ''name'') (JStr ''unknown''))) else mapping)"

definition tool_use_names :: "json list \<Rightarrow> (str \<rightharpoonup> str)" where
  "tool_use_names msgs = foldl (\<lambda>mapping msg. if msg_role_is ''assistant'' msg
     then foldl note_tool_name mapping (msg_blocks msg) else mapping) Map.empty msgs"

definition read_path_key :: "dict \<Rightarrow> str \<Rightarrow> str" where
  "read_path_key block tid = (case loads_dict (str_field block ''content'') of
      Some d \<Rightarrow> (let path = strip (str_field d ''path'') in if path = [] then ''__anon_'' @ tid else path)
    | None \<Rightarrow> ''__anon_'' @ tid)"

text \<open>The last read of each path.\<close>

definition latest_read_ids_by_path :: "json list \<Rightarrow> (str \<rightharpoonup> str) \<Rightarrow> str set" where
  "latest_read_ids_by_path msgs names =
     (let reads = filter (\<lambda>b. block_is ''tool_result'' b \<and> names (str_field b ''tool_use_id'') = Some ''read_file'')
            (concat (map msg_blocks (filter is_tool msgs)));
          latest = foldl (\<lambda>d b. dict_set d (read_path_key b (str_field b ''tool_use_id'')) (str_field b ''tool_use_id'')) [] reads
      in snd ` set latest)"

definition SKIP_TOOLS :: "str list" where
  "SKIP_TOOLS = [''draft_section'', ''propose_patch'', ''export_document'']"

definition pointer_payload :: "str \<Rightarrow> str \<Rightarrow> dict" where
  "pointer_payload tool_name txt =
     (let base = [(''_pointer'', JBool True), (''tool'', JStr tool_name),
            (''cover'', JStr (replace_char newline (CHR '' '') (take 200 txt))),
            (''chars'', JInt (int (length txt))),
            (''note'', JStr ''stale tool_result collapsed; re-read the path or repeat the query if needed'')]
      in (case loads_dict txt of None \<Rightarrow> base
        | Some d \<Rightarrow> base
            @ (if truthy (dict_get d ''path'') then [(''path'', JStr (py_str (dict_get d ''path'')))] else [])
            @ (if truthy (dict_get d ''query'') then [(''query'', JStr (take 200 (py_str (dict_get d ''query''))))] else [])
            @ (if truthy (dict_get d ''pattern'') then [(''pattern'', JStr (take 200 (py_str (dict_get d ''pattern''))))] else [])))"

definition pointerize_block :: "(str \<rightharpoonup> str) \<Rightarrow> str set \<Rightarrow> dict \<Rightarrow> dict \<times> bool" where
  "pointerize_block names keep_read block =
     (let tid = str_field block ''tool_use_id''; txt = str_field block ''content'';
          name = (case names tid of Some (c # cs) \<Rightarrow> c # cs | _ \<Rightarrow> ''unknown'')
      in if \<not> block_is ''tool_result'' block \<or> tid \<in> keep_read \<or> name \<in> set SKIP_TOOLS
            \<or> occurs_in (q ''_pointer'' @ '': true'') txt \<or> occurs_in (q ''_pointer'' @ '':true'') txt
            \<or> preserve_writing_section_extract txt \<or> length txt \<le> 200
         then (block, False)
         else (dict_set block ''content'' (JStr (json_dumps (JObj (pointer_payload name txt)))), True))"

definition pointerize_stale_tool_results :: "json list \<Rightarrow> json list \<times> nat" where
  "pointerize_stale_tool_results msgs =
     (let names = tool_use_names msgs; keep_read = latest_read_ids_by_path msgs names;
          f = pointerize_block names keep_read
      in (map (\<lambda>msg. if is_tool msg then set_blocks msg (map (fst \<circ> f) (msg_blocks msg)) else msg) msgs,
          length (filter (snd \<circ> f) (concat (map msg_blocks (filter is_tool msgs))))))"

section \<open>The protected tail\<close>

fun last_index :: "(json \<Rightarrow> bool) \<Rightarrow> json list \<Rightarrow> nat option" where
  "last_index P [] = None"
| "last_index P (m # ms) = (case last_index P ms of
      Some i \<Rightarrow> Some (Suc i) | None \<Rightarrow> if P m then Some 0 else None)"

definition holds_read_result :: "(str \<rightharpoonup> str) \<Rightarrow> json \<Rightarrow> bool" where
  "holds_read_result names msg \<longleftrightarrow> is_tool msg \<and> (\<exists>tid \<in> set (result_ids msg). names tid = Some ''read_file'')"

text \<open>\<open>while j > 0 and messages[j].get("role") == "tool": j -= 1\<close>\<close>

fun back_over_tools :: "json list \<Rightarrow> nat \<Rightarrow> nat" where
  "back_over_tools msgs 0 = 0"
| "back_over_tools msgs (Suc j) = (if is_tool (msgs ! Suc j) then back_over_tools msgs j else Suc j)"

definition protected_tail_start :: "budget_limits \<Rightarrow> json list \<Rightarrow> nat" where
  "protected_tail_start limits msgs =
     (if \<not> protect_latest limits \<or> msgs = [] then 0
      else (let last_user = or_else (last_index (msg_role_is ''user'') msgs) 0 in
        case last_index (holds_read_result (tool_use_name_by_id msgs)) msgs of
          None \<Rightarrow> last_user
        | Some r \<Rightarrow> (let j = back_over_tools msgs r in
            if message_has_tool_use (msgs ! j) then min last_user j else min last_user r)))"

section \<open>Microcompact\<close>

definition micro_pointer :: "nat \<Rightarrow> dict" where
  "micro_pointer n = [(''role'', JStr ''user''), (''content'', JList [JObj [(''type'', JStr ''text''),
     (''text'', JStr (''[microcompact: folded '' @ show_int (int n) @
        '' tool results; re-read with tools if needed]''))]])]"

text \<open>The loop: \<open>out\<close> is the history built so far.\<close>

function micro_loop :: "json list \<Rightarrow> json list \<Rightarrow> nat \<Rightarrow> json list \<times> nat" where
  "micro_loop out [] folded = (out, folded)"
| "micro_loop out (msg # msgs) folded =
     (let run = msg # takeWhile is_tool msgs; rest = dropWhile is_tool msgs in
      if is_tool msg \<and> out \<noteq> [] \<and> message_has_tool_use (last out) then micro_loop (out @ run) rest folded
      else if \<not> is_tool msg then micro_loop (out @ [msg]) msgs folded
      else if length run \<ge> 2 then
        (if list_all is_pinned_short_tool_result (map tool_result_text run) then micro_loop (out @ run) rest folded
         else micro_loop (out @ [JObj (stamp_inherited (micro_pointer (length run)) run)]) rest (folded + length run - 1))
      else micro_loop (out @ [msg]) rest folded)"
  by pat_completeness auto

termination
  by (relation "measure (\<lambda>(out, msgs, folded). length msgs)") (auto simp: le_imp_less_Suc length_dropWhile_le)

declare micro_loop.simps(2) [simp del]

definition microcompact_tool_results :: "json list \<Rightarrow> json list \<times> nat" where
  "microcompact_tool_results msgs = (if length msgs < 3 then (msgs, 0) else micro_loop [] msgs 0)"

section \<open>Dropping the oldest group\<close>

text \<open>
  \<open>_pop_oldest_message_group\<close> changes the list in place: the result is the list and whether a
  group was dropped. The first function is the trimming of leading tool messages; it returns
  None in place of the new bound when it has consumed the unprotected prefix.
\<close>

fun trim_orphans :: "nat \<Rightarrow> json list \<Rightarrow> nat option \<times> json list" where
  "trim_orphans protect_from [] = (Some protect_from, [])"
| "trim_orphans protect_from (m # ms) =
     (if \<not> is_tool m then (Some protect_from, m # ms)
      else if protect_from = 0 then (None, m # ms)
      else if protect_from \<le> 1 \<or> ms = [] then (None, ms)
      else trim_orphans (protect_from - 1) ms)"

text \<open>
  Where the oldest group ends: after the results of a call, before the next user message, or
  after a single message. For the single message the two tests of the end always pass.
\<close>

fun oldest_group_end :: "json list \<Rightarrow> nat" where
  "oldest_group_end [] = 0"
| "oldest_group_end (m # rest) =
     (if message_has_tool_use m then 1 + length (takeWhile is_tool rest)
      else if msg_role_is ''user'' m then 1 + length (takeWhile (\<lambda>x. \<not> msg_role_is ''user'' x) rest)
      else 1)"

definition pop_oldest_message_group :: "nat \<Rightarrow> json list \<Rightarrow> json list \<times> bool" where
  "pop_oldest_message_group protect_from msgs =
     (if min protect_from (length msgs) = 0 then (msgs, False)
      else (case trim_orphans protect_from msgs of
          (None, ms) \<Rightarrow> (ms, False)
        | (Some pf, ms) \<Rightarrow>
          (let limit = min pf (length ms); end = oldest_group_end ms in
           if length ms \<le> 1 \<or> limit \<le> 1 then (ms, False)
           else if end \<ge> length ms \<or> end > limit then (ms, False)
           else (drop end ms, True))))"

section \<open>Collapse\<close>

definition align_tail_start :: "json list \<Rightarrow> nat \<Rightarrow> nat" where
  "align_tail_start msgs tail_start =
     (let index = back_over_tools msgs (min tail_start (length msgs - 1)) in
      if message_has_tool_use (msgs ! index) then index else max 1 tail_start)"

text \<open>The loop from the end: \<open>index\<close> messages are left to look at.\<close>

fun tail_scan :: "json list \<Rightarrow> int \<Rightarrow> int \<Rightarrow> nat \<Rightarrow> nat" where
  "tail_scan msgs hot acc 0 = 0"
| "tail_scan msgs hot acc (Suc index) =
     (if acc < hot then tail_scan msgs hot (acc + estimate_tokens [msgs ! index]) index else Suc index)"

definition tail_start_for_token_budget :: "json list \<Rightarrow> int \<Rightarrow> nat" where
  "tail_start_for_token_budget msgs hot_budget =
     align_tail_start msgs (tail_scan msgs hot_budget 0 (length msgs))"

definition collapse_pointer :: "nat \<Rightarrow> json list \<Rightarrow> dict" where
  "collapse_pointer n middle =
     (let dropped = dropped_tools_summary middle; pinned = pinned_tool_digest middle;
          txt = ''[collapsed '' @ show_int (int n) @ '' earlier messages'' @
             (if dropped \<noteq> [] then ''; '' @ dropped else []) @ ''; recent context preserved]''
      in [(''role'', JStr ''user''), (''content'', JList [JObj [(''type'', JStr ''text''),
           (''text'', JStr (if pinned \<noteq> [] then txt @ '' '' @ pinned else txt))]])])"

text \<open>The frame of the inner estimate: without the project and runtime messages.\<close>

definition collapse_frame :: "context_frame \<Rightarrow> context_frame" where
  "collapse_frame fr = fr\<lparr>project_msg := None, runtime_msg := None\<rparr>"

text \<open>Where the kept tail begins: the hot zone, moved back to the protected tail.\<close>

definition collapse_start :: "budget_limits \<Rightarrow> compaction_policy \<Rightarrow> window_tokens \<Rightarrow> json list \<Rightarrow> nat" where
  "collapse_start limits pol window msgs =
     (let working = max 1 (model_window_tokens pol - output_reserve_tokens pol - system_tokens window - tools_tokens window);
          hot = max 1 \<lfloor>of_int working * hot_zone_ratio pol\<rfloor>;
          start = tail_start_for_token_budget msgs hot;
          protect = protected_tail_start limits msgs
      in if protect > 0 then min start protect else start)"

definition user_head :: "json list \<Rightarrow> json list" where
  "user_head msgs = (case msgs of m # ms \<Rightarrow> if msg_role_is ''user'' m then [m] else [] | [] \<Rightarrow> [])"

text \<open>The new history and the number of collapsed messages; None leaves the history as it is.\<close>

definition collapse_tool_history ::
  "budget_limits \<Rightarrow> compaction_policy \<Rightarrow> context_frame \<Rightarrow> json list \<Rightarrow> (json list \<times> nat) option" where
  "collapse_tool_history limits pol fr msgs =
     (let (fill, window) = window_fill pol (collapse_frame fr) msgs in
      if fill < fill_collapse pol \<or> length msgs \<le> 4 then None
      else (let start = collapse_start limits pol window msgs;
                hd_part = user_head msgs;
                middle = take (start - length hd_part) (drop (length hd_part) msgs);
                tl_part = drop start msgs;
                n = length msgs - length hd_part - length tl_part
            in if length hd_part + length tl_part \<ge> length msgs \<or> middle = [] then None
               else Some (hd_part @ JObj (stamp_inherited (collapse_pointer n middle) middle) # tl_part, n)))"

section \<open>The pipeline\<close>

text \<open>The snip loop: the history, the number of dropped groups and the evicted paths.\<close>

lemma trim_orphans_shorter: "length (snd (trim_orphans pf ms)) \<le> length ms"
  by (induction pf ms rule: trim_orphans.induct) auto

lemma oldest_group_end_pos: "ms \<noteq> [] \<Longrightarrow> 0 < oldest_group_end ms"
  by (cases ms) simp_all

lemma pop_shorter:
  assumes "pop_oldest_message_group pf ms = (ms', True)"
  shows "length ms' < length ms"
proof -
  obtain r ms1 where t: "trim_orphans pf ms = (r, ms1)" by force
  have "length ms1 > 1" "ms' = drop (oldest_group_end ms1) ms1"
    using assms t by (auto simp: pop_oldest_message_group_def Let_def split: if_splits option.splits)
  moreover have "length ms1 \<le> length ms"
    using trim_orphans_shorter [of pf ms] t by simp
  moreover have "0 < oldest_group_end ms1"
    using calculation(1) by (intro oldest_group_end_pos) auto
  ultimately show ?thesis by simp
qed

function snip_loop ::
  "budget_limits \<Rightarrow> compaction_policy \<Rightarrow> context_frame \<Rightarrow> json list \<Rightarrow> nat \<Rightarrow> str set \<Rightarrow> json list \<times> nat \<times> str set" where
  "snip_loop limits pol fr msgs n evicted =
     (if length msgs \<le> 1 then (msgs, n, evicted)
      else if fst (window_fill pol fr msgs) < fill_snip pol then (msgs, n, evicted)
      else (case pop_oldest_message_group (protected_tail_start limits msgs) msgs of
          (ms, False) \<Rightarrow> (ms, n, evicted)
        | (ms, True) \<Rightarrow> snip_loop limits pol fr ms (Suc n) (evicted \<union> read_paths_missing_after msgs ms)))"
  by pat_completeness auto

termination
  by (relation "measure (\<lambda>(l, p, f, msgs, n, e). length msgs)") (auto dest: pop_shorter [OF sym])

declare snip_loop.simps [simp del]

text \<open>
  \<open>_build_envelope\<close> in two halves. The first shortens tool results: the history, the trace,
  the folded paths, the number of pointers and the truncations by tool.
\<close>

record reduced =
  red_messages :: "json list"
  red_trace :: "(str \<times> str) list"
  red_folded :: "str set"
  red_pointerized :: nat
  red_truncated :: "(str \<times> int) list"

definition trace_entry :: "nat \<Rightarrow> str \<Rightarrow> str \<Rightarrow> str \<Rightarrow> (str \<times> str) list" where
  "trace_entry n strategy before after =
     (if n = 0 then [] else [(strategy, before @ show_int (int n) @ after)])"

definition reduce_results :: "budget_limits \<Rightarrow> compaction_policy \<Rightarrow> context_frame \<Rightarrow> json list \<Rightarrow> reduced" where
  "reduce_results limits pol fr history =
     (let (msgs, folded, folded_paths) = fold_stale_read_file_results 1 400 history;
          (msgs, budgeted, by_tool) = apply_tool_result_budget limits True msgs;
          (msgs, pointed) = (if fst (window_fill pol fr msgs) \<ge> fill_collapse pol
             then pointerize_stale_tool_results msgs else (msgs, 0));
          (msgs, micro) = microcompact_tool_results msgs
      in \<lparr>red_messages = msgs,
          red_trace = trace_entry folded ''read_fold'' ''folded_'' ''_read_file_results''
            @ trace_entry budgeted ''budget'' ''truncated_'' ''_tool_results''
            @ trace_entry pointed ''pointerize'' ''pointerized_'' ''_tool_results''
            @ trace_entry micro ''microcompact'' ''folded_'' ''_tool_results'',
          red_folded = folded_paths, red_pointerized = pointed, red_truncated = by_tool\<rparr>)"

text \<open>
  The second half drops history: collapse, snip, autocompact. \<open>used\<close> is
  \<open>state.evicted_reread_used\<close>; \<open>env_evicted\<close> are the paths added to
  \<open>state.evicted_paths\<close>. \<open>summarize\<close> gives the text of \<open>_summarize_messages\<close>.
\<close>

record envelope =
  env_messages :: "json list"
  env_trace :: "(str \<times> str) list"
  env_evicted :: "str set"
  env_pointerized :: nat
  env_truncated_by_tool :: "(str \<times> int) list"

definition summary_message :: "str \<Rightarrow> dict" where
  "summary_message txt = [(''role'', JStr ''user''),
     (''content'', JList [JObj [(''type'', JStr ''text''), (''text'', JStr txt)]])]"

definition collapse_stage ::
  "budget_limits \<Rightarrow> compaction_policy \<Rightarrow> context_frame \<Rightarrow> json list \<Rightarrow> json list \<times> (str \<times> str) list \<times> str set" where
  "collapse_stage limits pol fr msgs =
     (case (if fst (window_fill pol fr msgs) \<ge> fill_collapse pol \<and> length msgs > 4
        then collapse_tool_history limits pol fr msgs else None) of
        None \<Rightarrow> (msgs, [], {})
      | Some (ms, n) \<Rightarrow> (ms, [(''collapse'', ''collapsed_'' @ show_int (int n) @ ''_messages'')],
           read_paths_missing_after msgs ms))"

definition build_envelope ::
  "(json list \<Rightarrow> str) \<Rightarrow> bool \<Rightarrow> budget_limits \<Rightarrow> compaction_policy \<Rightarrow> context_frame \<Rightarrow> str set \<Rightarrow> json list \<Rightarrow> envelope" where
  "build_envelope summarize defer limits pol fr used history =
     (let red = reduce_results limits pol fr history;
          (msgs, t_collapse, lost) = collapse_stage limits pol fr (red_messages red);
          (msgs, snipped, evicted) = snip_loop limits pol fr msgs 0 (red_folded red \<union> lost);
          full = (fst (window_fill pol fr msgs) \<ge> fill_autocompact pol \<and> msgs \<noteq> []);
          t_compact = (if \<not> full then []
             else [(''compact'', if defer then ''autocompact_pending'' else ''autocompact_summary'')])
      in \<lparr>env_messages = (if full \<and> \<not> defer then [JObj (stamp_inherited (summary_message (summarize msgs)) msgs)] else msgs),
          env_trace = red_trace red @ t_collapse @ replicate snipped (''snip'', ''dropped_oldest_message'') @ t_compact,
          env_evicted = evicted - used, env_pointerized = red_pointerized red,
          env_truncated_by_tool = red_truncated red\<rparr>)"

text \<open>
  The end of \<open>assemble_async\<close> without a cached summary or an abort: a pending autocompact
  summarizes the history of the turn, the window rises to the label of what is sent, and
  the request is the prefix, the unlabelled history and the runtime message. The third
  component is added to \<open>state.evicted_paths\<close>.
\<close>

definition assemble_messages :: "(json list \<Rightarrow> str) \<Rightarrow> envelope \<Rightarrow> json list \<Rightarrow> json list" where
  "assemble_messages summarize env history =
     (if (''compact'', ''autocompact_pending'') \<in> set (env_trace env)
      then [JObj (stamp_inherited (summary_message (summarize history)) history)] else env_messages env)"

definition materialize_messages :: "context_frame \<Rightarrow> json list \<Rightarrow> json list" where
  "materialize_messages fr msgs =
     prefix_messages fr @ map (\<lambda>m. JObj (strip_taint (as_dict m))) msgs @ opt_list (runtime_msg fr)"

definition assemble_async ::
  "(json list \<Rightarrow> str) \<Rightarrow> budget_limits \<Rightarrow> compaction_policy \<Rightarrow> context_frame \<Rightarrow> str set \<Rightarrow> turn_state
     \<Rightarrow> json list \<times> turn_state \<times> str set" where
  "assemble_async summarize limits pol fr used st =
     (let env = build_envelope summarize True limits pol fr used (messages st);
          msgs = assemble_messages summarize env (messages st)
      in (materialize_messages fr msgs, raise_window st (window_taint_of msgs), env_evicted env))"

section \<open>Shapes\<close>

definition shape :: "json \<Rightarrow> bool \<times> bool \<times> str list \<times> str list" where
  "shape m = (is_tool m, message_has_tool_use m, use_ids m, result_ids m)"

lemma paired_shape: "map shape xs = map shape ys \<Longrightarrow> paired xs \<longleftrightarrow> paired ys"
proof (induction xs arbitrary: ys rule: paired.induct)
  case (2 m ms)
  then obtain n ns where ys: "ys = n # ns" and sh: "shape m = shape n" "map shape ms = map shape ns"
    by (cases ys) auto
  have tool: "is_tool = fst \<circ> shape" by (simp add: fun_eq_iff shape_def)
  have run: "map shape (takeWhile is_tool ms) = map shape (takeWhile is_tool ns)"
    "map shape (dropWhile is_tool ms) = map shape (dropWhile is_tool ns)"
    using sh(2) by (simp_all add: tool flip: takeWhile_map dropWhile_map)
  have ids: "map result_ids us = map result_ids vs" if "map shape us = map shape vs" for us vs
    using arg_cong [OF that, of "map (snd \<circ> snd \<circ> snd)"] by (simp add: shape_def comp_def)
  have parts: "is_tool m = is_tool n" "message_has_tool_use m = message_has_tool_use n" "use_ids m = use_ids n"
    using sh(1) by (simp_all add: shape_def)
  consider "is_tool m" | "\<not> is_tool m" "message_has_tool_use m" | "\<not> is_tool m" "\<not> message_has_tool_use m" by blast
  then show ?case
  proof cases
    case 1
    then show ?thesis using parts ys by (simp add: paired.simps)
  next
    case 2
    then show ?thesis
      using "2.IH"(1) [OF 2 run(2)] parts ys ids [OF run(1)] by (simp add: paired_group answers_def)
  next
    case 3
    then show ?thesis using "2.IH"(2) [OF 3 sh(2)] parts ys by (simp add: paired_plain)
  qed
qed simp

lemma msg_blocks_set [simp]: "msg_blocks (set_blocks msg bs) = bs"
  by (simp add: set_blocks_def msg_blocks_def comp_def)

lemma role_set_blocks [simp]: "msg_role_is r (set_blocks msg bs) = msg_role_is r msg"
  by (simp add: set_blocks_def msg_role_is_def)

text \<open>A rewriting that changes at most the content of blocks of tool messages.\<close>

definition content_change :: "dict \<Rightarrow> dict \<Rightarrow> bool" where
  "content_change b b' \<longleftrightarrow> b' = b \<or> (\<exists>v. b' = dict_set b ''content'' v)"

definition message_change :: "json \<Rightarrow> json \<Rightarrow> bool" where
  "message_change m m' \<longleftrightarrow> m' = m \<or>
     (is_tool m \<and> (\<exists>bs. m' = set_blocks m bs \<and> list_all2 content_change (msg_blocks m) bs))"

lemma content_change_fields:
  assumes "content_change b b'"
  shows "block_is t b' = block_is t b" and "str_field b' ''tool_use_id'' = str_field b ''tool_use_id''"
  using assms by (auto simp: content_change_def block_is_def str_field_def)

lemma content_change_results:
  "list_all2 content_change bs cs \<Longrightarrow>
     map (\<lambda>b. str_field b ''tool_use_id'') (filter (block_is ''tool_result'') cs)
   = map (\<lambda>b. str_field b ''tool_use_id'') (filter (block_is ''tool_result'') bs)"
  by (induction rule: list_all2_induct) (auto simp: content_change_fields)

lemma content_change_uses:
  "list_all2 content_change bs cs \<Longrightarrow>
     map (\<lambda>b. str_field b ''id'') (filter (block_is ''tool_use'') cs)
   = map (\<lambda>b. str_field b ''id'') (filter (block_is ''tool_use'') bs)"
  by (induction rule: list_all2_induct) (auto simp: content_change_fields, auto simp: content_change_def str_field_def)

lemma tool_no_use: "is_tool m \<Longrightarrow> \<not> message_has_tool_use m"
  using tool_use_not_tool by blast

lemma message_change_shape: "message_change m m' \<Longrightarrow> shape m' = shape m"
  by (auto simp: message_change_def shape_def result_ids_def use_ids_def content_change_results content_change_uses
      tool_no_use)

lemma message_change_taint: "message_change m m' \<Longrightarrow> message_taint m' = message_taint m"
  by (cases m) (auto simp: message_change_def message_taint_def set_blocks_def msg_role_is_def split: json.splits)

lemma list_change_map: "(\<And>m. m \<in> set msgs \<Longrightarrow> message_change m (f m)) \<Longrightarrow> list_all2 message_change msgs (map f msgs)"
  by (induction msgs) auto

lemma change_paired: "list_all2 message_change xs ys \<Longrightarrow> paired ys = paired xs"
proof -
  assume "list_all2 message_change xs ys"
  then have "map shape ys = map shape xs"
    by (induction rule: list_all2_induct) (auto dest: message_change_shape)
  then show "paired ys = paired xs" by (rule paired_shape)
qed

lemma change_taint: "list_all2 message_change xs ys \<Longrightarrow> max_taint ys = max_taint xs"
proof -
  assume "list_all2 message_change xs ys"
  then have "map message_taint ys = map message_taint xs"
    by (induction rule: list_all2_induct) (auto dest: message_change_taint)
  then show "max_taint ys = max_taint xs" by (simp add: max_taint_fold)
qed

lemma set_blocks_change:
  assumes "is_tool m" and "\<And>b. b \<in> set (msg_blocks m) \<Longrightarrow> content_change b (g b)"
  shows "message_change m (set_blocks m (map g (msg_blocks m)))"
proof -
  have "list_all2 content_change bs (map g bs)" if "\<And>b. b \<in> set bs \<Longrightarrow> content_change b (g b)" for bs
    using that by (induction bs) auto
  with assms show ?thesis by (auto simp: message_change_def)
qed

lemma map_blocks_change:
  assumes "\<And>b. content_change b (g b)"
  shows "list_all2 message_change msgs (map (\<lambda>msg. if is_tool msg then set_blocks msg (map g (msg_blocks msg)) else msg) msgs)"
proof (rule list_change_map)
  fix m
  show "message_change m (if is_tool m then set_blocks m (map g (msg_blocks m)) else m)"
    using set_blocks_change [of m g] assms by (cases "is_tool m") (simp_all add: message_change_def)
qed

lemma budget_change: "list_all2 message_change msgs (fst (apply_tool_result_budget limits ps msgs))"
proof -
  have "content_change b (fst (budget_block limits ps names latest b))" for names latest b
    by (auto simp: budget_block_def content_change_def Let_def)
  then show ?thesis
    by (simp add: apply_tool_result_budget_def Let_def map_blocks_change)
qed

lemma pointerize_change: "list_all2 message_change msgs (fst (pointerize_stale_tool_results msgs))"
proof -
  have "content_change b (fst (pointerize_block names keep b))" for names keep b
    by (auto simp: pointerize_block_def content_change_def Let_def)
  then show ?thesis
    by (simp add: pointerize_stale_tool_results_def Let_def map_blocks_change)
qed

lemma fold_message_change: "message_change (snd p) (fst (fold_message keys p))"
proof -
  obtain mi msg where p: "p = (mi, msg)" by force
  have fb: "content_change b (fst (fold_block b))" for b
    by (auto simp: fold_block_def content_change_def split: option.splits)
  have "list_all2 content_change bs (map fst (map (\<lambda>(bi, b). if (mi, bi) \<in> set keys then fold_block b else (b, False)) (enumerate n bs)))"
    for bs n
    using fb by (induction bs arbitrary: n) (auto simp: content_change_def)
  then show ?thesis
    by (simp add: fold_message_def message_change_def Let_def p del: map_map) blast
qed

lemma fold_change: "list_all2 message_change msgs (fst (fold_stale_read_file_results k c msgs))"
proof -
  have "list_all2 message_change msgs (map (fst \<circ> fold_message keys) (enumerate n msgs))" for keys n msgs
  proof (induction msgs arbitrary: n)
    case (Cons m msgs)
    with fold_message_change [of "(n, m)" keys] show ?case by simp
  qed simp
  moreover have "list_all2 message_change msgs msgs"
    by (simp add: list_all2_same message_change_def)
  ultimately show ?thesis
    by (simp add: fold_stale_read_file_results_def Let_def)
qed

section \<open>Cuts respect the groups\<close>

lemma micro_loop_paired: "paired msgs \<Longrightarrow> micro_loop out msgs n = (out @ msgs, n)"
proof (induction msgs arbitrary: out rule: paired.induct)
  case (2 m ms)
  have nt: "\<not> is_tool m" using "2.prems" by (rule paired_head)
  have first: "micro_loop out (m # ms) n = micro_loop (out @ [m]) ms n"
    using nt by (simp add: micro_loop.simps Let_def)
  show ?case
  proof (cases "message_has_tool_use m")
    case False
    with "2.IH"(2) [OF nt False] "2.prems" nt first show ?thesis by (simp add: paired_plain)
  next
    case True
    have rest: "paired (dropWhile is_tool ms)" using "2.prems" by (simp add: paired_group [OF True])
    note ih = "2.IH"(1) [OF nt True rest]
    show ?thesis
    proof (cases ms)
      case Nil
      then show ?thesis using first by simp
    next
      case (Cons t ts)
      show ?thesis
      proof (cases "is_tool t")
        case False
        with ih [of "out @ [m]"] first Cons show ?thesis by simp
      next
        case tool: True
        then have "micro_loop (out @ [m]) ms n = micro_loop (out @ [m] @ takeWhile is_tool ms) (dropWhile is_tool ms) n"
          using True Cons by (simp add: micro_loop.simps Let_def)
        also have "\<dots> = (out @ m # ms, n)"
          using ih [of "out @ [m] @ takeWhile is_tool ms"] by simp
        finally show ?thesis using first by simp
      qed
    qed
  qed
qed simp

lemma micro_paired: "paired msgs \<Longrightarrow> microcompact_tool_results msgs = (msgs, 0)"
  by (simp add: microcompact_tool_results_def micro_loop_paired)

lemma back_over_tools_paired:
  assumes "paired msgs" and "i < length msgs"
  shows "back_over_tools msgs i \<le> i \<and> \<not> is_tool (msgs ! back_over_tools msgs i)
    \<and> (is_tool (msgs ! i) \<longrightarrow> message_has_tool_use (msgs ! back_over_tools msgs i))
    \<and> (\<not> is_tool (msgs ! i) \<longrightarrow> back_over_tools msgs i = i)"
  using assms(2)
proof (induction i)
  case 0
  with assms(1) paired_head have "\<not> is_tool (msgs ! 0)" by (cases msgs) auto
  then show ?case by simp
next
  case (Suc i)
  show ?case
  proof (cases "is_tool (msgs ! Suc i)")
    case True
    with paired_before_tool [OF assms(1) Suc.prems True]
    have "is_tool (msgs ! i) \<or> message_has_tool_use (msgs ! i)" by simp
    moreover have "\<not> is_tool (msgs ! i) \<Longrightarrow> back_over_tools msgs i = i" using Suc by simp
    ultimately show ?thesis using Suc True by auto
  qed simp
qed

text \<open>An index where the history may be cut.\<close>

definition cut_ok :: "json list \<Rightarrow> nat \<Rightarrow> bool" where
  "cut_ok msgs i \<longleftrightarrow> (i < length msgs \<longrightarrow> \<not> is_tool (msgs ! i))"

lemma cut_ok_min: "cut_ok msgs i \<Longrightarrow> cut_ok msgs j \<Longrightarrow> cut_ok msgs (min i j)"
  by (simp add: min_def)

lemma align_tail_start_cut:
  assumes "paired msgs" and "msgs \<noteq> []"
  shows "cut_ok msgs (align_tail_start msgs t)"
proof -
  define i where "i = min t (length msgs - 1)"
  have i: "i < length msgs" using assms(2) by (cases msgs) (simp_all add: i_def)
  note b = back_over_tools_paired [OF assms(1) i]
  have eq: "align_tail_start msgs t = (if message_has_tool_use (msgs ! back_over_tools msgs i)
      then back_over_tools msgs i else max 1 t)"
    by (simp add: align_tail_start_def Let_def i_def)
  show ?thesis
  proof (cases "message_has_tool_use (msgs ! back_over_tools msgs i)")
    case True
    with b show ?thesis by (simp add: eq cut_ok_def)
  next
    case False
    have nt: "\<not> is_tool (msgs ! i)" "back_over_tools msgs i = i" using b False by auto
    have "cut_ok msgs (max 1 t)"
    proof (cases "t = 0")
      case True
      then have "\<not> is_tool (msgs ! 0) \<and> \<not> message_has_tool_use (msgs ! 0)"
        using nt False by (simp add: i_def)
      then show ?thesis
        using paired_before_tool [OF assms(1), of 1] True by (auto simp: cut_ok_def)
    next
      case False
      then have "max 1 t = t" by simp
      then show ?thesis using nt(1) by (auto simp: cut_ok_def i_def min_def split: if_splits)
    qed
    with False show ?thesis by (simp add: eq)
  qed
qed

lemma last_index_some: "last_index P msgs = Some i \<Longrightarrow> i < length msgs \<and> P (msgs ! i)"
  by (induction msgs arbitrary: i) (auto split: option.splits if_splits)

lemma last_index_append:
  "last_index P (xs @ ys) = Some i \<Longrightarrow> length xs \<le> i \<Longrightarrow> last_index P ys = Some (i - length xs)"
  by (induction xs arbitrary: i) (auto split: option.splits if_splits)

lemma last_user_cut:
  assumes "paired msgs"
  shows "cut_ok msgs (or_else (last_index (msg_role_is ''user'') msgs) 0)"
proof (cases "last_index (msg_role_is ''user'') msgs")
  case None
  with assms paired_head show ?thesis by (cases msgs) (auto simp: cut_ok_def)
next
  case (Some i)
  with last_index_some [OF Some] show ?thesis by (auto simp: cut_ok_def msg_role_is_def)
qed

lemma protected_tail_start_cut:
  assumes "paired msgs"
  shows "cut_ok msgs (protected_tail_start limits msgs)"
proof (cases "protect_latest limits \<and> msgs \<noteq> []")
  case False
  with assms paired_head show ?thesis by (cases msgs) (auto simp: protected_tail_start_def cut_ok_def)
next
  case True
  note u = last_user_cut [OF assms]
  show ?thesis
  proof (cases "last_index (holds_read_result (tool_use_name_by_id msgs)) msgs")
    case None
    with True u show ?thesis by (simp add: protected_tail_start_def Let_def)
  next
    case (Some r)
    then have r: "r < length msgs" "is_tool (msgs ! r)"
      using last_index_some [OF Some] by (simp_all add: holds_read_result_def)
    note b = back_over_tools_paired [OF assms r(1)]
    have "cut_ok msgs (back_over_tools msgs r)" using b by (simp add: cut_ok_def)
    with True u Some b r(2) show ?thesis
      by (simp add: protected_tail_start_def Let_def cut_ok_min)
  qed
qed

lemma paired_drop_cut: "paired msgs \<Longrightarrow> cut_ok msgs i \<Longrightarrow> paired (drop i msgs)"
  by (rule paired_drop(2)) (simp_all add: cut_ok_def)

text \<open>A message the engine itself writes.\<close>

lemma user_dict_plain:
  assumes "dict_get d ''role'' = JStr ''user''"
  shows "paired (JObj (stamp_inherited d src) # ms) = paired ms"
  using assms by (intro paired_plain) (simp_all add: msg_role_is_def message_has_tool_use_def stamp_inherited_def)

lemma collapse_parts:
  assumes "collapse_tool_history limits pol fr msgs = Some (ms, n)"
  obtains start middle where "start = collapse_start limits pol (snd (window_fill pol (collapse_frame fr) msgs)) msgs"
    and "msgs = user_head msgs @ middle @ drop start msgs" and "middle \<noteq> []" and "n = length middle"
    and "ms = user_head msgs @ JObj (stamp_inherited (collapse_pointer n middle) middle) # drop start msgs"
proof -
  define start where "start = collapse_start limits pol (snd (window_fill pol (collapse_frame fr) msgs)) msgs"
  define middle where "middle = take (start - length (user_head msgs)) (drop (length (user_head msgs)) msgs)"
  have res: "middle \<noteq> []" "length (user_head msgs) + length (drop start msgs) < length msgs"
    "n = length msgs - length (user_head msgs) - length (drop start msgs)"
    "ms = user_head msgs @ JObj (stamp_inherited (collapse_pointer n middle) middle) # drop start msgs"
    using assms by (auto simp: collapse_tool_history_def Let_def start_def middle_def split: prod.splits if_splits)
  have "take (length (user_head msgs)) msgs = user_head msgs"
    by (auto simp: user_head_def split: list.splits)
  moreover have "length (user_head msgs) \<le> start"
    using res(1) by (cases "length (user_head msgs) \<le> start") (simp_all add: middle_def)
  moreover have "drop (start - length (user_head msgs)) (drop (length (user_head msgs)) msgs) = drop start msgs"
    using calculation(2) by simp
  then have "middle @ drop start msgs = drop (length (user_head msgs)) msgs"
    unfolding middle_def by (metis append_take_drop_id)
  ultimately have split: "msgs = user_head msgs @ middle @ drop start msgs"
    by (metis append_take_drop_id)
  have "length msgs = length (user_head msgs) + (length middle + length (drop start msgs))"
    using arg_cong [OF split, of length] by (simp only: length_append)
  with res(3) have "n = length middle" by linarith
  with split res that start_def show thesis by blast
qed

lemma collapse_start_cut:
  assumes "paired msgs" and "msgs \<noteq> []"
  shows "cut_ok msgs (collapse_start limits pol window msgs)"
proof -
  have "cut_ok msgs (tail_start_for_token_budget msgs hot)" for hot
    unfolding tail_start_for_token_budget_def by (rule align_tail_start_cut [OF assms])
  with protected_tail_start_cut [OF assms(1)] show ?thesis
    by (simp add: collapse_start_def Let_def cut_ok_min)
qed

lemma user_head_plain: "m \<in> set (user_head msgs) \<Longrightarrow> \<not> is_tool m \<and> \<not> message_has_tool_use m"
  by (auto simp: user_head_def msg_role_is_def message_has_tool_use_def split: list.splits if_splits)

lemma paired_user_head: "paired (user_head msgs @ ms) = paired ms"
proof -
  have "\<forall>m \<in> set xs. \<not> is_tool m \<and> \<not> message_has_tool_use m \<Longrightarrow> paired (xs @ ms) = paired ms" for xs
    by (induction xs) (simp_all add: paired_plain)
  then show ?thesis using user_head_plain by blast
qed

lemma collapse_paired:
  assumes "paired msgs" and "collapse_tool_history limits pol fr msgs = Some (ms, n)"
  shows "paired ms"
proof -
  obtain start middle where c: "start = collapse_start limits pol (snd (window_fill pol (collapse_frame fr) msgs)) msgs"
    "msgs = user_head msgs @ middle @ drop start msgs" "middle \<noteq> []"
    "ms = user_head msgs @ JObj (stamp_inherited (collapse_pointer n middle) middle) # drop start msgs"
    using collapse_parts [OF assms(2)] by metis
  have "msgs \<noteq> []" using c(2,3) by auto
  from paired_drop_cut [OF assms(1) collapse_start_cut [OF assms(1) this]] show ?thesis
    by (simp add: c(4) paired_user_head user_dict_plain collapse_pointer_def c(1) Let_def)
qed

lemma collapse_taint:
  assumes "collapse_tool_history limits pol fr msgs = Some (ms, n)"
  shows "max_taint ms = max_taint msgs"
proof -
  obtain start middle where c: "msgs = user_head msgs @ middle @ drop start msgs" "middle \<noteq> []"
    "ms = user_head msgs @ JObj (stamp_inherited (collapse_pointer n middle) middle) # drop start msgs"
    using collapse_parts [OF assms] by metis
  have "max_taint ms = max_taint (user_head msgs @ middle @ drop start msgs)"
    unfolding c(3) by (rule stamped_summary_taint [OF c(2)])
  with c(1) show ?thesis by simp
qed

section \<open>Snipping\<close>

lemma trim_orphans_drop:
  "trim_orphans pf ms = (r, ms') \<Longrightarrow> \<exists>k \<le> pf. ms' = drop k ms \<and> (\<forall>p. r = Some p \<longrightarrow> p + k = pf)"
proof (induction pf ms arbitrary: r ms' rule: trim_orphans.induct)
  case (2 pf m ms)
  consider "\<not> is_tool m \<or> pf = 0" | "is_tool m" "pf \<noteq> 0" "pf \<le> 1 \<or> ms = []"
    | "is_tool m" "pf \<noteq> 0" "\<not> (pf \<le> 1 \<or> ms = [])" by blast
  then show ?case
  proof cases
    case 1
    with "2.prems" show ?thesis by (auto split: if_splits intro!: exI [of _ 0])
  next
    case 2
    with "2.prems" have "r = None" "ms' = drop 1 (m # ms)" by auto
    with 2 show ?thesis by (intro exI [of _ 1]) simp
  next
    case 3
    with "2.prems" have t: "trim_orphans (pf - 1) ms = (r, ms')" by auto
    have "\<not> \<not> is_tool m" using 3(1) by simp
    from "2.IH" [OF this 3(2,3) t] obtain k where
      k: "k \<le> pf - 1" "ms' = drop k ms" "\<forall>p. r = Some p \<longrightarrow> p + k = pf - 1"
      by blast
    have "\<forall>p. r = Some p \<longrightarrow> p + Suc k = pf" using k(3) 3(2) by auto
    with k 3(2) show ?thesis by (intro exI [of _ "Suc k"]) simp
  qed
qed auto

lemma pop_drop:
  assumes "pop_oldest_message_group pf ms = (ms', b)"
  shows "\<exists>k \<le> pf. ms' = drop k ms"
proof (cases "min pf (length ms) = 0")
  case True
  with assms show ?thesis by (auto simp: pop_oldest_message_group_def intro!: exI [of _ 0])
next
  case False
  obtain r ms1 where t: "trim_orphans pf ms = (r, ms1)" by force
  from trim_orphans_drop [OF t] obtain k where k: "k \<le> pf" "ms1 = drop k ms" "\<forall>p. r = Some p \<longrightarrow> p + k = pf"
    by blast
  show ?thesis
  proof (cases r)
    case None
    with assms False t have "ms' = ms1" by (auto simp: pop_oldest_message_group_def)
    with k show ?thesis by auto
  next
    case (Some p)
    with k(3) have p: "p + k = pf" by simp
    define e where "e = oldest_group_end ms1"
    from assms False t Some have "ms' = ms1 \<or> ms' = drop e ms1 \<and> e \<le> p"
      by (auto simp: pop_oldest_message_group_def Let_def e_def split: if_splits)
    then show ?thesis
    proof
      assume "ms' = drop e ms1 \<and> e \<le> p"
      with k p show ?thesis by (intro exI [of _ "e + k"]) simp
    qed (use k in auto)
  qed
qed

lemma oldest_group_paired:
  assumes "paired ms"
  shows "paired (drop (oldest_group_end ms) ms)"
proof (cases ms)
  case (Cons m rest)
  let ?d = "dropWhile (\<lambda>x. \<not> msg_role_is ''user'' x) rest"
  have "?d = [] \<or> \<not> is_tool (hd ?d)"
    using hd_dropWhile [of "\<lambda>x. \<not> msg_role_is ''user'' x" rest] role_excl [of "''user''" "hd ?d" "''tool''"]
    by (cases "?d = []") simp_all
  moreover have "paired ((m # takeWhile (\<lambda>x. \<not> msg_role_is ''user'' x) rest) @ ?d)"
    using assms Cons by simp
  ultimately have "paired ?d" by (rule paired_cut(2) [rotated])
  then have user: "paired (drop (length (takeWhile (\<lambda>x. \<not> msg_role_is ''user'' x) rest)) rest)"
    by (simp add: dropWhile_eq_drop)
  have grp: "message_has_tool_use m \<Longrightarrow> paired (drop (length (takeWhile is_tool rest)) rest)"
    using assms Cons by (simp add: paired_group dropWhile_eq_drop)
  have "\<not> message_has_tool_use m \<Longrightarrow> paired rest"
    using assms Cons paired_head [of m rest] by (simp add: paired_plain)
  with user grp Cons show ?thesis by simp
qed simp

lemma pop_paired:
  assumes "paired ms" and "pop_oldest_message_group pf ms = (ms', b)"
  shows "paired ms'" and "\<not> b \<Longrightarrow> ms' = ms"
proof -
  have "trim_orphans pf ms = (Some pf, ms)"
    using assms(1) paired_head by (cases ms) auto
  with assms(2) have "ms' = ms \<and> \<not> b \<or> ms' = drop (oldest_group_end ms) ms \<and> b"
    by (auto simp: pop_oldest_message_group_def Let_def split: if_splits)
  with assms(1) oldest_group_paired show "paired ms'" and "\<not> b \<Longrightarrow> ms' = ms" by auto
qed

lemma snip_loop_step:
  assumes "length msgs > 1" and "\<not> fst (window_fill pol fr msgs) < fill_snip pol"
    and "pop_oldest_message_group (protected_tail_start limits msgs) msgs = (ms, b)"
  shows "snip_loop limits pol fr msgs n e = (if b then snip_loop limits pol fr ms (Suc n) (e \<union> read_paths_missing_after msgs ms) else (ms, n, e))"
  using assms by (simp add: snip_loop.simps [of _ _ _ msgs])

lemma snip_loop_stop:
  "length msgs \<le> 1 \<or> fst (window_fill pol fr msgs) < fill_snip pol \<Longrightarrow> snip_loop limits pol fr msgs n e = (msgs, n, e)"
  by (subst snip_loop.simps) auto

lemma snip_loop_paired:
  assumes "paired msgs" and "snip_loop limits pol fr msgs n e = (ms', n', e')"
  shows "paired ms' \<and> n \<le> n' \<and> (n' = n \<longrightarrow> ms' = msgs)
    \<and> e \<subseteq> e' \<and> read_paths_in_messages msgs - read_paths_in_messages ms' \<subseteq> e'"
  using assms
proof (induction limits pol fr msgs n e rule: snip_loop.induct)
  case (1 limits pol fr msgs n e)
  show ?case
  proof (cases "length msgs \<le> 1 \<or> fst (window_fill pol fr msgs) < fill_snip pol")
    case True
    with "1.prems" show ?thesis by (simp add: snip_loop_stop)
  next
    case False
    obtain ms b where p: "pop_oldest_message_group (protected_tail_start limits msgs) msgs = (ms, b)" by force
    note pp = pop_paired [OF "1.prems"(1) p]
    have eq: "snip_loop limits pol fr msgs n e = (if b then snip_loop limits pol fr ms (Suc n) (e \<union> read_paths_missing_after msgs ms) else (ms, n, e))"
      using False p by (intro snip_loop_step) auto
    show ?thesis
    proof (cases b)
      case no: False
      with pp "1.prems"(2) eq show ?thesis by simp
    next
      case yes: True
      have "snip_loop limits pol fr ms (Suc n) (e \<union> read_paths_missing_after msgs ms) = (ms', n', e')"
        using "1.prems"(2) eq yes by simp
      from "1.IH" [OF _ _ p [symmetric] _ pp(1) this] False yes
      show ?thesis by (auto simp: read_paths_missing_after_def)
    qed
  qed
qed

end
