(* ===== verification/CompactionSafety.thy ===== *)
theory CompactionSafety
  imports Compaction
begin

text \<open>
  What the context engine guarantees: compaction keeps calls and results paired, keeps the
  instruction the turn works on, keeps the label of the history, records the files whose body
  it removed, and ends. Two properties record where the code departs from its comments.
\<close>

section \<open>The stages on a paired history\<close>

lemma reduce_results_paired:
  assumes "paired history"
  shows "paired (red_messages (reduce_results limits pol fr history))
    \<and> max_taint (red_messages (reduce_results limits pol fr history)) = max_taint history"
proof -
  obtain m1 n1 p1 where f: "fold_stale_read_file_results 1 400 history = (m1, n1, p1)" by (cases rule: prod_cases3)
  obtain m2 n2 t2 where b: "apply_tool_result_budget limits True m1 = (m2, n2, t2)" by (cases rule: prod_cases3)
  obtain m3 n3 where p: "(if fst (window_fill pol fr m2) \<ge> fill_collapse pol
      then pointerize_stale_tool_results m2 else (m2, 0)) = (m3, n3)" by force
  have c1: "list_all2 message_change history m1"
    using fold_change [of history 1 400] f by simp
  have c2: "list_all2 message_change m1 m2"
    using budget_change [of m1 limits True] b by simp
  have "list_all2 message_change m2 m2"
    by (simp add: list_all2_same message_change_def)
  then have c3: "list_all2 message_change m2 m3"
    using pointerize_change [of m2] p by (auto split: if_splits)
  have "paired m3" using assms change_paired [OF c1] change_paired [OF c2] change_paired [OF c3] by simp
  moreover have "max_taint m3 = max_taint history"
    using change_taint [OF c1] change_taint [OF c2] change_taint [OF c3] by simp
  ultimately show ?thesis
    by (simp add: reduce_results_def f [simplified] b p micro_paired)
qed

lemma collapse_stage_paired:
  assumes "paired msgs" and "collapse_stage limits pol fr msgs = (ms, t, lost)"
  shows "paired ms \<and> max_taint ms = max_taint msgs
    \<and> read_paths_in_messages msgs - read_paths_in_messages ms \<subseteq> lost
    \<and> (t = [] \<or> fst (hd t) = ''collapse'' \<and> tl t = [])"
  using assms collapse_paired [OF assms(1)] collapse_taint
  by (auto simp: collapse_stage_def read_paths_missing_after_def split: option.splits if_splits)

text \<open>What one run of the pipeline hands on between its stages.\<close>

lemma build_envelope_parts:
  assumes "paired history"
  obtains msgs t lost ms n ev where
    "paired (red_messages (reduce_results limits pol fr history))"
    "collapse_stage limits pol fr (red_messages (reduce_results limits pol fr history)) = (msgs, t, lost)"
    "paired msgs" "max_taint msgs = max_taint history"
    "snip_loop limits pol fr msgs 0 (red_folded (reduce_results limits pol fr history) \<union> lost) = (ms, n, ev)"
    "paired ms" "n = 0 \<longrightarrow> ms = msgs"
    "red_folded (reduce_results limits pol fr history) \<union>
       (read_paths_in_messages (red_messages (reduce_results limits pol fr history)) - read_paths_in_messages ms) \<subseteq> ev"
proof -
  let ?red = "reduce_results limits pol fr history"
  note r = reduce_results_paired [OF assms, of limits pol fr]
  obtain msgs t lost where c: "collapse_stage limits pol fr (red_messages ?red) = (msgs, t, lost)"
    by (cases rule: prod_cases3)
  note cp = collapse_stage_paired [OF conjunct1 [OF r] c]
  obtain ms n ev where s: "snip_loop limits pol fr msgs 0 (red_folded ?red \<union> lost) = (ms, n, ev)"
    by (cases rule: prod_cases3)
  have sp: "paired ms" "n = 0 \<longrightarrow> ms = msgs" "red_folded ?red \<union> lost \<subseteq> ev"
    "read_paths_in_messages msgs - read_paths_in_messages ms \<subseteq> ev"
    using snip_loop_paired [OF conjunct1 [OF cp] s] by blast+
  have "read_paths_in_messages (red_messages ?red) - read_paths_in_messages ms \<subseteq> ev"
    using sp(3,4) cp by blast
  with r c cp s sp show thesis by (intro that) auto
qed

lemma build_envelope_eq:
  assumes "collapse_stage limits pol fr (red_messages (reduce_results limits pol fr history)) = (msgs, t, lost)"
    and "snip_loop limits pol fr msgs 0 (red_folded (reduce_results limits pol fr history) \<union> lost) = (ms, n, ev)"
  shows "build_envelope summarize defer limits pol fr used history =
    (let full = (fst (window_fill pol fr ms) \<ge> fill_autocompact pol \<and> ms \<noteq> [])
     in \<lparr>env_messages = (if full \<and> \<not> defer then [JObj (stamp_inherited (summary_message (summarize ms)) ms)] else ms),
         env_trace = red_trace (reduce_results limits pol fr history) @ t @ replicate n (''snip'', ''dropped_oldest_message'')
           @ (if \<not> full then [] else [(''compact'', if defer then ''autocompact_pending'' else ''autocompact_summary'')]),
         env_evicted = ev - used, env_pointerized = red_pointerized (reduce_results limits pol fr history),
         env_truncated_by_tool = red_truncated (reduce_results limits pol fr history)\<rparr>)"
  using assms by (simp add: build_envelope_def Let_def)

lemma summary_paired: "paired [JObj (stamp_inherited (summary_message txt) src)]"
  by (simp add: user_dict_plain summary_message_def)

lemma compaction_pairing:
  assumes "paired history"
  shows "paired (env_messages (build_envelope summarize defer limits pol fr used history))
    \<and> paired (assemble_messages summarize (build_envelope summarize defer limits pol fr used history) history)"
proof -
  obtain msgs t lost ms n ev where
    c: "collapse_stage limits pol fr (red_messages (reduce_results limits pol fr history)) = (msgs, t, lost)"
    and s: "snip_loop limits pol fr msgs 0 (red_folded (reduce_results limits pol fr history) \<union> lost) = (ms, n, ev)"
    and p: "paired ms"
    using build_envelope_parts [OF assms, of limits pol fr] by metis
  have "paired (env_messages (build_envelope summarize defer limits pol fr used history))"
    using p summary_paired by (simp add: build_envelope_eq [OF c s] Let_def)
  then show ?thesis
    using summary_paired by (simp add: assemble_messages_def)
qed

section \<open>Properties\<close>

text \<open>
  C7: compaction never separates a call from its results. From a history in which each run of
  tool messages answers the assistant message before it, every stage, in every combination the
  fill of the window asks for, leaves such a history, and so does the summary that
  replaces it when the window is still too full.
\<close>

theorem compaction_keeps_pairing:
  assumes "paired history"
  shows "paired (env_messages (build_envelope summarize defer limits pol fr used history))
    \<and> paired (assemble_messages summarize (build_envelope summarize defer limits pol fr used history) history)"
  using assms by (rule compaction_pairing)

text \<open>
  What leaves the window may be read again. Every file whose older reads were folded, and
  every file whose body was visible after the tool results were shortened and is not visible in
  the compacted history, is among the evicted paths, unless its extra read was used before.
\<close>

theorem lost_reads_are_evicted:
  assumes "paired history"
    and "env = build_envelope summarize True limits pol fr used history"
    and "red = reduce_results limits pol fr history"
  shows "red_folded red \<union> (read_paths_in_messages (red_messages red) - read_paths_in_messages (env_messages env))
     \<subseteq> env_evicted env \<union> used"
proof -
  obtain msgs t lost ms n ev where
    c: "collapse_stage limits pol fr (red_messages (reduce_results limits pol fr history)) = (msgs, t, lost)"
    and s: "snip_loop limits pol fr msgs 0 (red_folded (reduce_results limits pol fr history) \<union> lost) = (ms, n, ev)"
    and e: "red_folded (reduce_results limits pol fr history) \<union>
       (read_paths_in_messages (red_messages (reduce_results limits pol fr history)) - read_paths_in_messages ms) \<subseteq> ev"
    using build_envelope_parts [OF assms(1), of limits pol fr] by metis
  have "env_messages env = ms" "env_evicted env = ev - used"
    by (simp_all add: assms(2) build_envelope_eq [OF c s] Let_def)
  with e assms(3) show ?thesis by auto
qed

text \<open>The trace tells whether anything was snipped.\<close>

lemma trace_entry_strategy: "e \<in> set (trace_entry n s b a) \<Longrightarrow> fst e = s"
  by (auto simp: trace_entry_def split: if_splits)

lemma not_snipped:
  assumes "(''snip'', ''dropped_oldest_message'') \<notin> set (red_trace red @ t @ replicate n (''snip'', ''dropped_oldest_message'') @ c)"
  shows "n = 0"
  using assms by (cases n) auto

text \<open>
  C18: the window covers what the model has seen. After an assembly in which nothing was
  snipped, the effective window is at least as tainted as the whole history of the turn,
  whatever was folded, collapsed or summarized; and no message of the history part of
  the request shows the label.
\<close>

theorem assembled_window_covers_history:
  assumes "paired (messages st)" and "messages st \<noteq> []"
    and "assemble_async summarize limits pol fr used st = (request, st', evicted)"
    and "(''snip'', ''dropped_oldest_message'') \<notin>
           set (env_trace (build_envelope summarize True limits pol fr used (messages st)))"
  shows "taint_rank (max_taint (messages st)) \<le> taint_rank (effective_window st')
    \<and> (\<exists>body. request = prefix_messages fr @ body @ opt_list (runtime_msg fr)
         \<and> (\<forall>m \<in> set body. map_of (as_dict m) ''_taint'' = None))"
proof -
  let ?env = "build_envelope summarize True limits pol fr used (messages st)"
  obtain msgs t lost ms n ev where
    c: "collapse_stage limits pol fr (red_messages (reduce_results limits pol fr (messages st))) = (msgs, t, lost)"
    and mt: "max_taint msgs = max_taint (messages st)"
    and s: "snip_loop limits pol fr msgs 0 (red_folded (reduce_results limits pol fr (messages st)) \<union> lost) = (ms, n, ev)"
    and n: "n = 0 \<longrightarrow> ms = msgs"
    using build_envelope_parts [OF assms(1), of limits pol fr] by metis
  have "ms = msgs"
    using assms(4) n not_snipped by (auto simp: build_envelope_eq [OF c s] Let_def)
  then have env: "max_taint (env_messages ?env) = max_taint (messages st)"
    using mt by (simp add: build_envelope_eq [OF c s] Let_def)
  let ?sent = "assemble_messages summarize ?env (messages st)"
  have sent: "max_taint ?sent = max_taint (messages st)"
    using env stamped_summary_taint [OF assms(2), of "[]" _ "[]"] by (simp add: assemble_messages_def)
  have st': "st' = raise_window st (window_taint_of ?sent)" and req: "request = materialize_messages fr ?sent"
    using assms(3) by (simp_all add: assemble_async_def Let_def)
  have "taint_rank (max_taint ?sent) \<le> taint_rank (window_taint_of ?sent)"
    by (simp add: window_taint_of_def) (simp add: max_taint_def taint_rank_def TAINT_RANK_def)
  also have "\<dots> \<le> taint_rank (effective_window st')"
    unfolding st' by (rule raise_window_reaches) (simp add: window_taint_of_def)
  finally have cover: "taint_rank (max_taint (messages st)) \<le> taint_rank (effective_window st')"
    by (simp add: sent)
  have "map_of (strip_taint d) ''_taint'' = None" for d
    by (auto simp: strip_taint_def map_of_eq_None_iff)
  then have "\<forall>m \<in> set (map (\<lambda>m. JObj (strip_taint (as_dict m))) ?sent). map_of (as_dict m) ''_taint'' = None"
    by simp
  with cover show ?thesis unfolding req materialize_messages_def by blast
qed

text \<open>The last instruction of a shortened history.\<close>

lemma protected_before_user: "protected_tail_start limits msgs \<le> or_else (last_index (msg_role_is ''user'') msgs) 0"
  by (auto simp: protected_tail_start_def Let_def split: option.splits)

lemma last_user_after_drop:
  assumes "k \<le> or_else (last_index P msgs) 0"
  shows "or_else (last_index P (drop k msgs)) 0 = or_else (last_index P msgs) 0 - k"
proof (cases "last_index P msgs")
  case (Some i)
  then have "last_index P (take k msgs @ drop k msgs) = Some i" by simp
  moreover have "length (take k msgs) = k" using assms Some last_index_some [OF Some] by simp
  ultimately have "last_index P (drop k msgs) = Some (i - k)"
    using last_index_append [of P "take k msgs" "drop k msgs" i] assms Some by simp
  with Some show ?thesis by simp
qed (use assms in simp)

text \<open>
  Snipping ends, and never drops the instruction the turn works on. The result is what is
  left after some first messages, at most those before the last user message; fewer groups
  are dropped than there are messages; and the loop stops only when one message is left, the
  window is below the threshold, or nothing outside the protected tail can be dropped.
\<close>

theorem snipping_keeps_instruction:
  assumes "paired msgs" and "snip_loop limits pol fr msgs n e = (ms, n', e')"
  shows "(\<exists>k \<le> or_else (last_index (msg_role_is ''user'') msgs) 0. ms = drop k msgs)
    \<and> n' - n \<le> length msgs - length ms
    \<and> (length ms \<le> 1 \<or> fst (window_fill pol fr ms) < fill_snip pol
       \<or> \<not> snd (pop_oldest_message_group (protected_tail_start limits ms) ms))"
  using assms
proof (induction limits pol fr msgs n e rule: snip_loop.induct)
  case (1 limits pol fr msgs n e)
  let ?last = "\<lambda>msgs. or_else (last_index (msg_role_is ''user'') msgs) 0"
  show ?case
  proof (cases "length msgs \<le> 1 \<or> fst (window_fill pol fr msgs) < fill_snip pol")
    case True
    with "1.prems" have "ms = drop 0 msgs" "n' = n" by (simp_all add: snip_loop_stop)
    with True show ?thesis by auto
  next
    case False
    obtain m2 b where p: "pop_oldest_message_group (protected_tail_start limits msgs) msgs = (m2, b)" by force
    note pp = pop_paired [OF "1.prems"(1) p]
    obtain k where k: "k \<le> protected_tail_start limits msgs" "m2 = drop k msgs" using pop_drop [OF p] by blast
    have kl: "k \<le> ?last msgs" using k(1) protected_before_user by (rule le_trans)
    have eq: "snip_loop limits pol fr msgs n e = (if b then snip_loop limits pol fr m2 (Suc n) (e \<union> read_paths_missing_after msgs m2) else (m2, n, e))"
      using False p by (intro snip_loop_step) auto
    show ?thesis
    proof (cases b)
      case no: False
      with "1.prems"(2) eq pp(2) have "ms = drop 0 msgs" "n' = n" by simp_all
      with p no show ?thesis by auto
    next
      case yes: True
      have s: "snip_loop limits pol fr m2 (Suc n) (e \<union> read_paths_missing_after msgs m2) = (ms, n', e')"
        using "1.prems"(2) eq yes by simp
      have guards: "\<not> length msgs \<le> 1" "\<not> fst (window_fill pol fr msgs) < fill_snip pol"
        using False by auto
      have b: "b = True" using yes by simp
      note ih = "1.IH" [OF guards p [symmetric] b pp(1) s]
      then obtain j where j: "j \<le> ?last m2" "ms = drop j m2" by blast
      have "ms = drop (j + k) msgs" "j + k \<le> ?last msgs"
        using j k(2) kl last_user_after_drop [OF kl] by simp_all
      moreover have "n' - n \<le> length msgs - length ms"
      proof -
        have "length m2 < length msgs" using pop_shorter [of _ msgs m2] p b by blast
        moreover have "n' - Suc n \<le> length m2 - length ms" using ih by blast
        moreover have "length ms \<le> length m2" using j(2) by simp
        ultimately show ?thesis by linarith
      qed
      ultimately show ?thesis using ih by blast
    qed
  qed
qed

lemma unprotected_not_snipped:
  assumes "protected_tail_start limits msgs = 0"
  shows "snip_loop limits pol fr msgs n e = (msgs, n, e)"
  using assms by (subst snip_loop.simps) (simp add: pop_oldest_message_group_def)

text \<open>
  A turn with one instruction has no protection. When no message after the first is a
  user message, the protected tail starts at 0, which the code reads as "nothing to drop" in
  the snip and as "no protection" in the collapse: such a history is never snipped, however
  full the window is, and the collapse may fold the latest read of a file.
\<close>

theorem single_instruction_is_unprotected:
  assumes "or_else (last_index (msg_role_is ''user'') msgs) 0 = 0"
  shows "protected_tail_start limits msgs = 0
    \<and> snip_loop limits pol fr msgs n e = (msgs, n, e)
    \<and> collapse_tool_history limits pol fr msgs = collapse_tool_history (limits\<lparr>protect_latest := False\<rparr>) pol fr msgs"
proof -
  have z: "protected_tail_start limits msgs = 0" for limits
    using protected_before_user [of limits msgs] assms by simp
  then have "snip_loop limits pol fr msgs n e = (msgs, n, e)" by (rule unprotected_not_snipped)
  moreover have "collapse_start (limits\<lparr>protect_latest := False\<rparr>) pol window msgs = collapse_start limits pol window msgs" for window
    by (simp add: collapse_start_def z)
  then have "collapse_tool_history limits pol fr msgs = collapse_tool_history (limits\<lparr>protect_latest := False\<rparr>) pol fr msgs"
    by (simp only: collapse_tool_history_def)
  ultimately show ?thesis by (simp only: z simp_thms)
qed

text \<open>
  A shortened tool result fits its budget. With positive budgets, a result that is
  neither pinned nor a writing extract is afterwards no longer than its budget (or than the
  bare marker), a result within the budget keeps its text, and with room for two pieces of 64
  characters the beginning and the end of the text survive.
\<close>

theorem budgeted_result_fits:
  assumes "0 < limit"
  shows "int (length (middle_truncate_text txt limit)) \<le> max limit 22
    \<and> (int (length txt) \<le> limit \<longrightarrow> middle_truncate_text txt limit = txt)
    \<and> (154 \<le> limit \<longrightarrow> take 64 (middle_truncate_text txt limit) = take 64 txt)"
proof -
  have l: "length marker_long = 26" "length marker_short = 22"
    by (simp_all add: marker_long_def marker_short_def)
  define keep where "keep = (limit - 26) div 2"
  have k: "2 * keep + 26 \<le> limit" by (simp add: keep_def)
  show ?thesis
  proof (cases "int (length txt) \<le> limit")
    case True
    with assms show ?thesis by (simp add: middle_truncate_text_def)
  next
    case False
    show ?thesis
    proof (cases "keep < 64")
      case True
      then have "limit < 154" by (simp add: keep_def)
      with True False assms show ?thesis
        by (simp add: middle_truncate_text_def l keep_def [symmetric])
    next
      case big: False
      with False assms have eq: "middle_truncate_text txt limit
          = take (nat keep) txt @ marker_long @ drop (length txt - nat keep) txt"
        by (simp add: middle_truncate_text_def l keep_def [symmetric])
      have n: "nat keep \<le> length txt" "64 \<le> nat keep" using k False big by linarith+
      have "take 64 (take (nat keep) txt) = take 64 txt" using n by (simp add: min_def)
      then show ?thesis using n k big False by (simp add: eq l)
    qed
  qed
qed

lemma budgeted_result_fits_witness:
  "length (middle_truncate_text (replicate 400 (CHR ''x'')) 200) \<le> 200
    \<and> take 64 (middle_truncate_text (replicate 400 (CHR ''x'')) 200) = replicate 64 (CHR ''x'')"
  using budgeted_result_fits [of 200 "replicate 400 (CHR ''x'')"] by (simp add: min_def)

section \<open>The properties on a concrete history\<close>

text \<open>Two instructions; the first lists a directory.\<close>

definition sample_history :: "json list" where
  "sample_history = [user_message ''a'', assistant_tool_use ''t1'' ''list_dir'' (JObj []),
     tool_result_message ''t1'' ''body'' False None, user_message ''b'', assistant_text ''ok'']"

definition sample_frame :: context_frame where
  "sample_frame = \<lparr>system_msg = JObj [], project_msg = None, volatile_msg = None, runtime_msg = None, frame_tools = []\<rparr>"

definition sample_limits :: budget_limits where
  "sample_limits = \<lparr>default_budget = 1000, read_budget = 2000, protect_latest = True\<rparr>"

text \<open>A window too small for anything, and one with room for all.\<close>

definition sample_policy :: "int \<Rightarrow> compaction_policy" where
  "sample_policy w = \<lparr>model_window_tokens = w, output_reserve_tokens = 0, fill_collapse = 0,
     fill_snip = 1, fill_autocompact = 1, hot_zone_ratio = 1\<rparr>"

lemma sample_paired: "paired sample_history"
  by code_simp

lemma single_instruction_is_unprotected_witness:
  "snip_loop sample_limits (sample_policy 10) sample_frame (take 3 sample_history) 0 {} = (take 3 sample_history, 0, {})"
  using single_instruction_is_unprotected [of "take 3 sample_history" sample_limits "sample_policy 10" sample_frame 0 "{}"]
  by (simp add: sample_history_def user_message_def assistant_tool_use_def tool_result_message_def msg_role_is_def)

lemma compaction_keeps_pairing_witness:
  "paired (env_messages (build_envelope (\<lambda>ms. ''summary'') False sample_limits (sample_policy 10) sample_frame {} sample_history))"
  using compaction_keeps_pairing [OF sample_paired] by blast

lemma lost_reads_are_evicted_witness:
  "red_folded (reduce_results sample_limits (sample_policy 10) sample_frame sample_history)
     \<subseteq> env_evicted (build_envelope (\<lambda>ms. ''summary'') True sample_limits (sample_policy 10) sample_frame {} sample_history)"
  using lost_reads_are_evicted [OF sample_paired refl refl,
    where summarize = "\<lambda>ms. ''summary''" and limits = sample_limits and pol = "sample_policy 10" and fr = sample_frame and used = "{}"]
  by auto

lemma window_fill_nonneg: "\<not> fst (window_fill pol fr msgs) < 0"
proof -
  have t: "0 \<le> estimate_text_tokens s" for s by (simp add: estimate_text_tokens_def Let_def)
  have "0 \<le> estimate_payload_tokens p" for p
    using t by (auto simp: estimate_payload_tokens_def split: json.splits)
  then have "0 \<le> sum_list (map estimate_payload_tokens ms)" for ms
    by (intro sum_list_nonneg) auto
  then have "0 \<le> tokens_after (estimate_assembled_window ms ts)" for ms ts
    using \<open>\<And>p. 0 \<le> estimate_payload_tokens p\<close> by (simp add: estimate_assembled_window_def Let_def add_nonneg_nonneg)
  then show ?thesis by (simp add: window_fill_def Let_def not_less)
qed

lemma snipping_keeps_instruction_witness:
  "fst (snip_loop sample_limits ((sample_policy 10)\<lparr>fill_snip := 0\<rparr>) sample_frame sample_history 0 {}) = drop 3 sample_history
     \<and> (\<exists>k \<le> 3. drop 3 sample_history = drop k sample_history)"
proof -
  let ?pol = "(sample_policy 10)\<lparr>fill_snip := 0\<rparr>"
  let ?e = "{} \<union> read_paths_missing_after sample_history (drop 3 sample_history)"
  have p: "pop_oldest_message_group (protected_tail_start sample_limits sample_history) sample_history = (drop 3 sample_history, True)"
    and u: "or_else (last_index (msg_role_is ''user'') sample_history) 0 = 3"
    and z: "protected_tail_start sample_limits (drop 3 sample_history) = 0"
    and l: "length sample_history > 1" by code_simp+
  have "snip_loop sample_limits ?pol sample_frame sample_history 0 {} = (drop 3 sample_history, 1, ?e)"
    using snip_loop_step [OF l _ p, of ?pol sample_frame 0 "{}"] window_fill_nonneg
    by (simp add: unprotected_not_snipped [OF z])
  note s = this
  show ?thesis using snipping_keeps_instruction [OF sample_paired s] u s by auto
qed

text \<open>Without protection nothing is snipped.\<close>

lemma unprotected_trace:
  assumes "\<not> protect_latest limits"
  shows "(''snip'', ''dropped_oldest_message'')
    \<notin> set (env_trace (build_envelope summarize defer limits pol fr used history))"
proof -
  have z: "protected_tail_start limits ms = 0" for ms
    using assms by (simp add: protected_tail_start_def)
  have red: "(''snip'', x) \<notin> set (red_trace (reduce_results limits pol fr history))" for x
    by (auto simp: reduce_results_def Let_def dest!: trace_entry_strategy split: prod.splits)
  have col: "collapse_stage limits pol fr ms = (m, t, l) \<Longrightarrow> (''snip'', x) \<notin> set t" for ms m t l x
    by (auto simp: collapse_stage_def split: option.splits)
  show ?thesis
    by (auto simp: red col build_envelope_def Let_def unprotected_not_snipped [OF z] split: prod.splits if_splits)
qed

definition web_history :: "json list" where
  "web_history = [user_message ''a'', assistant_tool_use ''t1'' ''web_fetch'' (JObj []),
     tool_result_message ''t1'' ''page'' False (Some ''external'')]"

lemma assembled_window_covers_history_witness:
  "taint_rank ''external'' \<le> taint_rank (effective_window (fst (snd
     (assemble_async (\<lambda>ms. ''summary'') (sample_limits\<lparr>protect_latest := False\<rparr>) (sample_policy 10) sample_frame {}
        ((new_turn_state ''default'')\<lparr>messages := web_history\<rparr>)))))"
proof -
  let ?l = "sample_limits\<lparr>protect_latest := False\<rparr>"
  let ?st = "(new_turn_state ''default'')\<lparr>messages := web_history\<rparr>"
  obtain r st' e where a: "assemble_async (\<lambda>ms. ''summary'') ?l (sample_policy 10) sample_frame {} ?st = (r, st', e)"
    by (cases rule: prod_cases3)
  have p: "paired (messages ?st)" "messages ?st \<noteq> []" "max_taint (messages ?st) = ''external''"
    by code_simp+
  have "\<not> protect_latest ?l" by simp
  from assembled_window_covers_history [OF p(1,2) a unprotected_trace [OF this]] show ?thesis
    by (simp add: a p(3) [simplified])
qed

end
