(* ===== verification/AgentLoop.thy ===== *)
theory AgentLoop
  imports AgentSafety CompactionSafety
begin

text \<open>
  \<open>AgentEngine.run\<close> of \<open>services/runtime/app/engine/agent_engine.py\<close> with the finish of a product
  turn (\<open>engine/product_finish.py\<close>) and the steer inbox (\<open>engine/steer_inbox.py\<close>): the loop that
  assembles a request, reads the model's reply, runs its calls and decides at the final edge
  whether the turn is over. Each iteration consumes one \<open>step_input\<close>: what the cancel flag, the
  model, the tools and the final-edge helpers answer in it. The wall clock of a step, events and
  checkpoints are left out; a gateway sends one closing response. \<open>si_reply_seen\<close> says whether that
  response came before a cancellation of the stream. The statistics \<open>fill_ratio_max\<close> and
  \<open>model_queue_wait_s\<close> are not updated. Texts that are not ASCII are parameters of \<open>loop_config\<close>.
\<close>

section \<open>engine/steer_inbox.py\<close>

type_synonym inbox = "(str \<times> str list) list"

definition push_steer :: "inbox \<Rightarrow> str \<Rightarrow> str \<Rightarrow> inbox" where
  "push_steer box rid txt = (let message = strip txt in
     if message = [] then box else dict_set box rid (or_else (map_of box rid) [] @ [take 8000 message]))"

definition drain_steers :: "inbox \<Rightarrow> str \<Rightarrow> str list \<times> inbox" where
  "drain_steers box rid = (or_else (map_of box rid) [], filter (\<lambda>(k, v). k \<noteq> rid) box)"

section \<open>engine/product_finish.py\<close>

record loop_config =
  lc_token_budget :: int
  lc_reserve :: int
  lc_hook :: bool
  lc_ops_eval :: bool
  lc_verify :: verify_env
  lc_finish :: "str \<Rightarrow> str"
  lc_gap_prefix :: str
  lc_gap_separator :: str
  lc_diff_prefix :: str
  lc_review_prefix :: str
  lc_review_request :: str
  lc_baseline :: str
  lc_seeded :: "dict list"
  lc_planned :: "dict list"

definition product_mode :: "loop_config \<Rightarrow> agent_state \<Rightarrow> bool" where
  "product_mode lc st \<longleftrightarrow> \<not> ops_eval (core st) \<and> \<not> lc_ops_eval lc \<and> scenario_id (core st) = ''agent''"

text \<open>The command of the longest path, the last one of several.\<close>

fun one_related_command :: "(str \<times> str) list \<Rightarrow> str \<Rightarrow> int \<Rightarrow> str" where
  "one_related_command [] chosen best = chosen"
| "one_related_command ((path, command) # rows) chosen best =
     (if strip command \<noteq> [] \<and> int (length path) \<ge> best
      then one_related_command rows (strip command) (int (length path))
      else one_related_command rows chosen best)"

definition acceptance_gap :: "loop_config \<Rightarrow> agent_state \<Rightarrow> str" where
  "acceptance_gap lc st =
     (let commands = filter (\<lambda>c. c \<noteq> []) (map strip (acceptance_commands st));
          missing = filter (\<lambda>c. c \<noteq> strip (last_test_command st) \<or> verify_pending st) commands
      in if missing = [] then [] else lc_gap_prefix lc @ join (lc_gap_separator lc) (take 3 missing))"

section \<open>One step's surroundings\<close>

text \<open>The reply of the model: text, calls, token counts; or an error of the gateway.\<close>

datatype model_reply = Reply str "dict list" int int int int | ReplyFails

record step_input =
  si_boundary_cancel :: "bool \<times> bool"
  si_steered :: "str list"
  si_assemble_cancel :: "bool \<times> bool"
  si_frame :: context_frame
  si_limits :: budget_limits
  si_policy :: compaction_policy
  si_summarize :: "json list \<Rightarrow> str"
  si_tokens_after :: int
  si_pointerized :: int
  si_reply :: model_reply
  si_stream_cancel :: "bool option"
  si_reply_seen :: bool
  si_error_cancel :: "bool \<times> bool"
  si_tools :: "tool_env list"
  si_hook_result :: "dict option"
  si_stat :: str
  si_review :: dict
  si_receipt :: str
  si_hold :: str

section \<open>The parts of a step\<close>

definition budget_spent :: "loop_config \<Rightarrow> agent_state \<Rightarrow> bool" where
  "budget_spent lc st =
     (let limit = (if turn_token_budget st \<le> 0 then lc_token_budget lc else turn_token_budget st);
          u = turn_usage st
      in if max_input_tokens st > 0 \<and> input_tokens u \<ge> max_input_tokens st then True
         else if max_output_tokens st > 0 \<and> output_tokens u \<ge> max_output_tokens st then True
         else limit > 0 \<and> input_tokens u + output_tokens u \<ge> limit)"

definition mark_budget :: "loop_config \<Rightarrow> agent_state \<Rightarrow> agent_state" where
  "mark_budget lc st = (if budget_spent lc st
     then st\<lparr>budget_exceeded := True, termination_reason := ''budget_exceeded''\<rparr> else st)"

definition add_tokens :: "int \<Rightarrow> int \<Rightarrow> usage \<Rightarrow> usage" where
  "add_tokens inn out u = u\<lparr>input_tokens := input_tokens u + inn, output_tokens := output_tokens u + out\<rparr>"

text \<open>Usage of a reply, estimated where the provider reported none.\<close>

definition count_usage :: "step_input \<Rightarrow> str \<Rightarrow> int \<Rightarrow> int \<Rightarrow> int \<Rightarrow> int \<Rightarrow> usage \<Rightarrow> usage" where
  "count_usage inp txt inn out cr cc u =
     (let u1 = add_tokens inn out u;
          guess = (if txt = [] then 0 else max 1 (int (length txt) div 4));
          u2 = (if inn = 0 \<and> out = 0
             then u1\<lparr>input_tokens := input_tokens u1 + si_tokens_after inp, output_tokens := output_tokens u1 + guess\<rparr>
             else if inn = 0 then u1\<lparr>input_tokens := input_tokens u1 + si_tokens_after inp\<rparr> else u1)
      in u2\<lparr>cache_read_input_tokens := cache_read_input_tokens u2 + cr,
            cache_creation_input_tokens := cache_creation_input_tokens u2 + cc\<rparr>)"

definition push_all :: "agent_state \<Rightarrow> json list \<Rightarrow> agent_state" where
  "push_all st ms = st\<lparr>core := core st\<lparr>messages := messages (core st) @ ms\<rparr>\<rparr>"

definition assemble_step :: "step_input \<Rightarrow> agent_state \<Rightarrow> json list \<times> agent_state" where
  "assemble_step inp st =
     (let (request, c, evicted) = assemble_async (si_summarize inp) (si_limits inp) (si_policy inp) (si_frame inp)
            (evicted_reread_used st) (core st)
      in (request, st\<lparr>core := c, evicted_paths := evicted_paths st \<union> evicted,
            pointerized_n := pointerized_n st + si_pointerized inp\<rparr>))"

text \<open>The product hook: at most once in a turn, when edits are not verified.\<close>

definition hook_command :: "loop_config \<Rightarrow> agent_state \<Rightarrow> str" where
  "hook_command lc st =
     (if product_mode lc st \<and> lc_hook lc \<and> \<not> product_hook_ran st \<and> verify_pending st
      then one_related_command (related_tests_union st) [] (- 1) else [])"

definition hook_message :: "dict \<Rightarrow> json" where
  "hook_message hooked = user_message (''product_verify_hook: '' @ json_dumps (JObj
     [(''command'', dict_get hooked ''command''), (''status'', dict_get hooked ''status''),
      (''summary'', JStr (take 800 (str_field hooked ''summary''))), (''delta'', dict_get hooked ''delta'')]))"

definition review_summary :: "dict \<Rightarrow> str" where
  "review_summary reviewed = (if str_field reviewed ''status'' = ''completed'' \<and> \<not> truthy (dict_get reviewed ''error'')
     then str_field reviewed ''summary'' else [])"

text \<open>What the diff at the end adds to the conversation.\<close>

definition show_diff :: "loop_config \<Rightarrow> step_input \<Rightarrow> agent_state \<Rightarrow> str \<Rightarrow> agent_state" where
  "show_diff lc inp st gap =
     (let stat = si_stat inp; body = join [CHR 0x0A] (filter (\<lambda>p. p \<noteq> []) [gap, stat]);
          st1 = push_message (st\<lparr>diff_stat_sent := True\<rparr>) (user_message (lc_diff_prefix lc @ take 4000 body));
          reviewing = (length stat \<ge> 400 \<and> \<not> review_sent st1);
          st2 = (if reviewing then st1\<lparr>review_sent := True\<rparr> else st1);
          summary = review_summary (si_review inp)
      in if reviewing \<and> summary \<noteq> [] then push_message st2 (user_message (lc_review_prefix lc @ take 2000 summary))
         else push_message st2 (user_message (lc_review_request lc)))"

text \<open>
  The final edge: True when the loop goes on. The outer None is an exception in the bookkeeping
  of the hook's result.
\<close>

definition final_edge :: "loop_config \<Rightarrow> step_input \<Rightarrow> agent_state \<Rightarrow> (bool \<times> agent_state) option" where
  "final_edge lc inp st =
     (let command = hook_command lc st;
          st1 = (if command = [] then st else st\<lparr>product_hook_ran := True\<rparr>);
          gap = acceptance_gap lc st1
      in case (if command = [] then None else si_hook_result inp) of
           Some hooked \<Rightarrow>
             (let result = dict_set hooked ''product_hook'' (JBool True) in
              map_option (\<lambda>st2. (True, push_message st2 (hook_message result)))
                (note_tool_result_for_verify (lc_verify lc) ''run_tests'' result
                   (JObj [(''command'', dict_get result ''command'')]) st1))
         | None \<Rightarrow>
             Some (if product_mode lc st1 \<and> \<not> diff_stat_sent st1 \<and> (si_stat inp \<noteq> [] \<or> gap \<noteq> [])
                   then (True, show_diff lc inp st1 gap)
                   else if should_inject_verify_receipt st1 (if lc_reserve lc = 0 then 10 else lc_reserve lc)
                   then (True, push_message (snd (mark_verify_receipt_injected st1)) (user_message (si_receipt inp)))
                   else if should_inject_writing_delivery_hold (lc_verify lc) st1
                   then (True, push_message (mark_writing_delivery_hold_injected st1) (user_message (si_hold inp)))
                   else (False, st1)))"

section \<open>One iteration\<close>

text \<open>How an iteration ends: the loop goes on, it is left, the run returns a value, or it raises.\<close>

datatype iteration = GoOn | Leave | Returns json | Raises

record loop_state =
  ls_engine :: engine
  ls_agent :: agent_state
  ls_inbox :: inbox
  ls_summary :: "str option"

definition terminate_summary :: "agent_state \<Rightarrow> json option" where
  "terminate_summary st =
     (if history st = [] then None
      else (case msg_blocks (last (history st)) of
          b # _ \<Rightarrow> map_option (\<lambda>d. dict_get_default d ''summary'' (JStr ''stub completed''))
                 (loads_obj (py_str (dict_get_default b ''content'' (JStr []))))
        | [] \<Rightarrow> None))"

text \<open>The calls of the reply.\<close>

definition call_step :: "step_input \<Rightarrow> int \<Rightarrow> dict list \<Rightarrow> str \<Rightarrow> loop_state \<Rightarrow> iteration \<times> loop_state" where
  "call_step inp step calls txt s =
     (let st = ls_agent s in
      case assistant_tool_uses calls txt of None \<Rightarrow> (Raises, s)
      | Some m \<Rightarrow>
          (let st1 = push_message st m in
           case run_tool_batch (zip (si_tools inp) calls) (ls_engine s) st1 step of
             None \<Rightarrow> (Raises, s\<lparr>ls_agent := st1\<rparr>)
           | Some (outcome, eng2, st2) \<Rightarrow>
               (let s2 = s\<lparr>ls_engine := eng2, ls_agent := st2\<rparr>;
                    s3 = (case outcome of Some (c # cs) \<Rightarrow> s2\<lparr>ls_summary := Some (c # cs)\<rparr> | _ \<Rightarrow> s2)
                in if outcome = Some ''CANCELLED'' then (Leave, s2)
                   else if outcome = Some ''waiting_approval'' \<or> outcome = Some ''waiting_child''
                   then (Returns (JStr (the outcome)), s2)
                   else if outcome = Some ''TERMINATE''
                   then (case terminate_summary st2 of None \<Rightarrow> (Raises, s2) | Some v \<Rightarrow> (Returns v, s2))
                   else if cancelled (core st2) then (Leave, s3)
                   else (GoOn, s3))))"

definition answer_step :: "loop_config \<Rightarrow> step_input \<Rightarrow> str \<Rightarrow> loop_state \<Rightarrow> iteration \<times> loop_state" where
  "answer_step lc inp txt s =
     (let s1 = (if txt = [] then s
            else s\<lparr>ls_agent := push_message (ls_agent s) (assistant_text txt), ls_summary := Some txt\<rparr>)
      in case final_edge lc inp (ls_agent s1) of None \<Rightarrow> (Raises, s1)
         | Some (more_steps, st2) \<Rightarrow> (if more_steps then GoOn else Leave, s1\<lparr>ls_agent := st2\<rparr>))"

definition model_step :: "loop_config \<Rightarrow> step_input \<Rightarrow> int \<Rightarrow> loop_state \<Rightarrow> iteration \<times> loop_state" where
  "model_step lc inp step s =
     (let st = snd (assemble_step inp (ls_agent s));
          st1 = (case si_stream_cancel inp of None \<Rightarrow> st | Some force \<Rightarrow> note_cancel st force ''model_stream'')
      in case si_reply inp of
        ReplyFails \<Rightarrow>
          (if cancelled (core st1) then (Leave, s\<lparr>ls_agent := st1\<rparr>)
           else if fst (si_error_cancel inp)
           then (Leave, s\<lparr>ls_agent := note_cancel st1 (snd (si_error_cancel inp)) ''model_stream''\<rparr>)
           else (Raises, s\<lparr>ls_agent := st1\<rparr>))
      | Reply txt calls inn out cr cc \<Rightarrow>
          (if cancelled (core st1)
           then (Leave, s\<lparr>ls_agent := if si_reply_seen inp then st1\<lparr>turn_usage := add_tokens inn out (turn_usage st1)\<rparr> else st1\<rparr>)
           else (let st2 = mark_budget lc (st1\<lparr>turn_usage := count_usage inp txt inn out cr cc (turn_usage st1)\<rparr>);
                     s2 = s\<lparr>ls_agent := st2\<rparr>
                 in if calls \<noteq> [] then call_step inp step calls txt s2 else answer_step lc inp txt s2)))"

definition loop_step :: "loop_config \<Rightarrow> step_input \<Rightarrow> loop_state \<Rightarrow> iteration \<times> loop_state" where
  "loop_step lc inp s =
     (let st = ls_agent s; box = foldl (\<lambda>b txt. push_steer b (run_id st) txt) (ls_inbox s) (si_steered inp) in
      if budget_spent lc st
      then (Leave, s\<lparr>ls_inbox := box, ls_agent := mark_budget lc st\<rparr>)
      else if fst (si_boundary_cancel inp)
      then (Leave, s\<lparr>ls_inbox := box, ls_agent := note_cancel st (snd (si_boundary_cancel inp)) ''step_boundary''\<rparr>)
      else (let step = step_count (core st);
                st1 = st\<lparr>core := core st\<lparr>step_count := step + 1\<rparr>\<rparr>;
                (steers, box2) = drain_steers box (run_id st);
                s2 = s\<lparr>ls_inbox := box2, ls_agent := push_all st1 (map user_message steers)\<rparr>
            in if fst (si_assemble_cancel inp)
               then (Leave, s2\<lparr>ls_agent := note_cancel (ls_agent s2) (snd (si_assemble_cancel inp)) ''assemble''\<rparr>)
               else model_step lc inp step s2))"

section \<open>The run\<close>

text \<open>\<open>Unfinished\<close>: the inputs ran out before the loop ended.\<close>

datatype run_end = Unfinished | RunReturns json | RunRaises

definition summary_or :: "str option \<Rightarrow> str \<Rightarrow> str" where
  "summary_or x d = (case x of Some (c # cs) \<Rightarrow> c # cs | _ \<Rightarrow> d)"

definition after_loop :: "loop_config \<Rightarrow> loop_state \<Rightarrow> run_end \<times> loop_state" where
  "after_loop lc s =
     (let st = ls_agent s in
      if cancelled (core st)
      then (RunReturns (case ls_summary s of None \<Rightarrow> JNull | Some t \<Rightarrow> JStr t), s)
      else if budget_exceeded st then (RunReturns (JStr (lc_finish lc (summary_or (ls_summary s) ''budget exceeded''))), s)
      else if step_count (core st) \<ge> max_steps (core st)
      then (RunReturns (JStr (lc_finish lc (summary_or (ls_summary s) ''max_steps reached''))),
            s\<lparr>ls_agent := st\<lparr>termination_reason := ''max_steps''\<rparr>\<rparr>)
      else (RunReturns (JStr (lc_finish lc (summary_or (ls_summary s) []))), s))"

fun run_loop :: "loop_config \<Rightarrow> step_input list \<Rightarrow> loop_state \<Rightarrow> run_end \<times> loop_state" where
  "run_loop lc [] s =
     (if step_count (core (ls_agent s)) < max_steps (core (ls_agent s)) then (Unfinished, s) else after_loop lc s)"
| "run_loop lc (inp # inps) s =
     (if step_count (core (ls_agent s)) < max_steps (core (ls_agent s))
      then (case loop_step lc inp s of
              (GoOn, s1) \<Rightarrow> run_loop lc inps s1
            | (Leave, s1) \<Rightarrow> after_loop lc s1
            | (Returns v, s1) \<Rightarrow> (RunReturns v, s1)
            | (Raises, s1) \<Rightarrow> (RunRaises, s1))
      else after_loop lc s)"

text \<open>Before the loop: the counters of the run, the baseline snapshot, the acceptance items.\<close>

definition start_run :: "loop_config \<Rightarrow> engine \<Rightarrow> agent_state \<Rightarrow> engine \<times> agent_state" where
  "start_run lc eng st =
     (let eng1 = eng\<lparr>search_sources_calls := 0, evidence_citation_ids := {}\<rparr>;
          st1 = (if shadow_snapshot_id (core st) = [] \<and> lc_baseline lc \<noteq> []
             then st\<lparr>core := core st\<lparr>shadow_snapshot_id := lc_baseline lc\<rparr>\<rparr> else st);
          commands = filter (\<lambda>c. c \<noteq> []) (map (\<lambda>item. strip (str_field item ''acceptance'')) (lc_seeded lc))
      in (eng1, if scenario_id (core st1) = ''agent'' \<and> \<not> ops_eval (core st1) \<and> plan_items st1 = [] \<and> lc_seeded lc \<noteq> []
            then st1\<lparr>plan_items := lc_planned lc, acceptance_commands := commands\<rparr> else st1))"

definition run :: "loop_config \<Rightarrow> step_input list \<Rightarrow> engine \<Rightarrow> agent_state \<Rightarrow> inbox \<Rightarrow> run_end \<times> loop_state" where
  "run lc inps eng st box =
     (let (eng1, st1) = start_run lc eng st
      in run_loop lc inps \<lparr>ls_engine = eng1, ls_agent = st1, ls_inbox = box, ls_summary = None\<rparr>)"

section \<open>Steps\<close>

lemma same_refl: "same_steps c c"
  by (simp add: same_steps_def)

lemma same_trans: "same_steps c c1 \<Longrightarrow> same_steps c1 c2 \<Longrightarrow> same_steps c c2"
  by (simp add: same_steps_def)

lemma cancel_steps: "same_steps (core st) (core (note_cancel st f p))"
  by (simp add: note_cancel_def same_steps_def Let_def)

lemma push_steps: "same_steps (core st) (core (push_message st m))" "same_steps (core st) (core (push_all st ms))"
  by (simp_all add: push_message_def push_all_def same_steps_def)

lemma budget_core: "core (mark_budget lc st) = core st"
  by (simp add: mark_budget_def)

lemma assemble_steps: "same_steps (core st) (core (snd (assemble_step inp st)))"
proof -
  have "same_steps c (raise_window c l)" for c l
    using raise_window_turn_frame [of c l] by (simp add: same_steps_def turn_frame_def)
  then show ?thesis by (simp add: assemble_step_def assemble_async_def Let_def)
qed

lemma mark_core: "core (snd (mark_verify_receipt_injected st)) = core st"
  by (simp add: mark_verify_receipt_injected_def clear_writing_pending_def Let_def)

lemma diff_steps: "same_steps (core st) (core (show_diff lc inp st gap))"
  by (simp add: show_diff_def push_message_def same_steps_def Let_def)

lemma edge_steps:
  assumes "final_edge lc inp st = Some (b, st')"
  shows "same_steps (core st) (core st')"
proof -
  define st1 where "st1 = (if hook_command lc st = [] then st else st\<lparr>product_hook_ran := True\<rparr>)"
  have c1: "core st1 = core st" by (simp add: st1_def)
  show ?thesis
  proof (cases "if hook_command lc st = [] then None else si_hook_result inp")
    case (Some hooked)
    with assms obtain st2 m where n: "st' = push_message st2 m" and
      "note_tool_result_for_verify (lc_verify lc) ''run_tests'' (dict_set hooked ''product_hook'' (JBool True))
         (JObj [(''command'', dict_get (dict_set hooked ''product_hook'' (JBool True)) ''command'')]) st1 = Some st2"
      by (auto simp: final_edge_def st1_def Let_def)
    from note_core [OF this(2)] n c1 push_steps show ?thesis by metis
  next
    case None
    note eq = assms [unfolded final_edge_def Let_def None, folded st1_def]
    have "st' = st1 \<or> (\<exists>gap. st' = show_diff lc inp st1 gap) \<or> (\<exists>m. st' = push_message (snd (mark_verify_receipt_injected st1)) m)
        \<or> (\<exists>m. st' = push_message (mark_writing_delivery_hold_injected st1) m)"
      using eq by (auto split: if_splits)
    then show ?thesis
      using c1 diff_steps [of st1] push_steps mark_core [of st1]
      by (auto simp: same_refl mark_writing_delivery_hold_injected_def push_message_def same_steps_def)
  qed
qed

definition real_tools :: "step_input \<Rightarrow> bool" where
  "real_tools inp \<longleftrightarrow> (\<forall>env \<in> set (si_tools inp). \<exists>ex tx e. env = with_executor ex tx e)"

lemma call_steps:
  assumes "call_step inp step calls txt s = (it, s')" and "real_tools inp"
  shows "same_steps (core (ls_agent s)) (core (ls_agent s'))"
proof (cases "assistant_tool_uses calls txt")
  case None
  with assms(1) show ?thesis by (simp add: call_step_def same_refl)
next
  case (Some m)
  let ?st = "push_message (ls_agent s) m"
  show ?thesis
  proof (cases "run_tool_batch (zip (si_tools inp) calls) (ls_engine s) ?st step")
    case None
    with assms(1) Some push_steps(1) show ?thesis by (auto simp: call_step_def Let_def)
  next
    case batch: (Some x)
    obtain out eng2 st2 where x: "x = (out, eng2, st2)" by (cases rule: prod_cases3)
    have "frames same_steps (zip (si_tools inp) calls)"
      using assms(2) executor_steps.call_frame_axioms by (auto simp: real_tools_def dest!: set_zip_leftD)
    from batch_frame [OF this same_refl batch [unfolded x]] push_steps(1) have "same_steps (core (ls_agent s)) (core st2)"
      using same_trans by blast
    moreover have "ls_agent s' = st2"
      using assms(1) Some batch x by (auto simp: call_step_def Let_def split: if_splits option.splits list.splits)
    ultimately show ?thesis by simp
  qed
qed

lemma model_steps:
  assumes "model_step lc inp step s = (it, s')" and "real_tools inp"
  shows "same_steps (core (ls_agent s)) (core (ls_agent s'))"
proof -
  define st1 where "st1 = (case si_stream_cancel inp of None \<Rightarrow> snd (assemble_step inp (ls_agent s))
      | Some force \<Rightarrow> note_cancel (snd (assemble_step inp (ls_agent s))) force ''model_stream'')"
  have r1: "same_steps (core (ls_agent s)) (core st1)"
    using assemble_steps same_trans [OF assemble_steps cancel_steps] by (auto simp: st1_def split: option.split)
  note eq = assms(1) [unfolded model_step_def Let_def, folded st1_def]
  show ?thesis
  proof (cases "si_reply inp")
    case ReplyFails
    with eq r1 cancel_steps same_trans show ?thesis by (auto split: if_splits)
  next
    case (Reply tx calls inn out cr cc)
    define st2 where "st2 = mark_budget lc (st1\<lparr>turn_usage := count_usage inp tx inn out cr cc (turn_usage st1)\<rparr>)"
    have c2: "core st2 = core st1" by (simp add: st2_def budget_core)
    note eq2 = eq [unfolded Reply model_reply.case, folded st2_def]
    consider "core (ls_agent s') = core st1" | "call_step inp step calls tx (s\<lparr>ls_agent := st2\<rparr>) = (it, s')"
      | "answer_step lc inp tx (s\<lparr>ls_agent := st2\<rparr>) = (it, s')"
      using eq2 by (auto split: if_splits)
    then show ?thesis
    proof cases
      case 1
      with r1 show ?thesis by simp
    next
      case 2
      from call_steps [OF this assms(2)] r1 c2 same_trans show ?thesis by simp
    next
      case 3
      define s3 where "s3 = (if tx = [] then s\<lparr>ls_agent := st2\<rparr>
          else s\<lparr>ls_agent := push_message st2 (assistant_text tx), ls_summary := Some tx\<rparr>)"
      have r3: "same_steps (core st1) (core (ls_agent s3))"
        using push_steps(1) [of st2] c2 by (simp add: s3_def same_refl)
      have "same_steps (core (ls_agent s3)) (core (ls_agent s'))"
        using 3 edge_steps same_refl by (auto simp: answer_step_def s3_def Let_def split: option.splits if_splits)
      with r1 r3 same_trans show ?thesis by blast
    qed
  qed
qed

lemma loop_step_counts:
  assumes "loop_step lc inp s = (it, s')" and "real_tools inp"
  shows "max_steps (core (ls_agent s')) = max_steps (core (ls_agent s))
    \<and> step_count (core (ls_agent s')) \<le> step_count (core (ls_agent s)) + 1
    \<and> (it = GoOn \<longrightarrow> step_count (core (ls_agent s')) = step_count (core (ls_agent s)) + 1)"
proof -
  define box where "box = foldl (\<lambda>b txt. push_steer b (run_id (ls_agent s)) txt) (ls_inbox s) (si_steered inp)"
  obtain steers box2 where dr: "drain_steers box (run_id (ls_agent s)) = (steers, box2)" by force
  let ?st = "ls_agent s"
  define s2 where "s2 = s\<lparr>ls_inbox := box2, ls_agent := push_all (?st\<lparr>core := core ?st\<lparr>step_count := step_count (core ?st) + 1\<rparr>\<rparr>)
      (map user_message steers)\<rparr>"
  have s2: "max_steps (core (ls_agent s2)) = max_steps (core ?st)" "step_count (core (ls_agent s2)) = step_count (core ?st) + 1"
    by (simp_all add: s2_def push_all_def)
  note eq = assms(1) [unfolded loop_step_def Let_def, folded box_def, unfolded dr prod.case, folded s2_def]
  consider "it = Leave" "core (ls_agent s') = core ?st" | f p where "it = Leave" "ls_agent s' = note_cancel ?st f p"
    | f p where "it = Leave" "ls_agent s' = note_cancel (ls_agent s2) f p"
    | "model_step lc inp (step_count (core ?st)) s2 = (it, s')"
    using eq by (auto simp: budget_core split: if_splits)
  then show ?thesis
  proof cases
    case 4
    from model_steps [OF this assms(2)] s2 show ?thesis by (simp add: same_steps_def)
  qed (use s2 cancel_steps in \<open>auto simp: same_steps_def\<close>)
qed

section \<open>Samples\<close>

definition sample_config :: loop_config where
  "sample_config = \<lparr>lc_token_budget = 0, lc_reserve = 10, lc_hook = False, lc_ops_eval = True,
     lc_verify = sample_verify, lc_finish = (\<lambda>s. s), lc_gap_prefix = [], lc_gap_separator = '', '', lc_diff_prefix = [],
     lc_review_prefix = [], lc_review_request = [], lc_baseline = [], lc_seeded = [], lc_planned = []\<rparr>"

text \<open>A step in which the model answers \<open>done\<close> with no call.\<close>

definition answering_input :: step_input where
  "answering_input = \<lparr>si_boundary_cancel = (False, False), si_steered = [], si_assemble_cancel = (False, False),
     si_frame = sample_frame, si_limits = sample_limits, si_policy = sample_policy 100000,
     si_summarize = (\<lambda>_. []), si_tokens_after = 10, si_pointerized = 0, si_reply = Reply ''done'' [] 5 1 0 0,
     si_stream_cancel = None, si_reply_seen = True, si_error_cancel = (False, False), si_tools = [], si_hook_result = None, si_stat = [],
     si_review = [], si_receipt = ''verify'', si_hold = ''hold''\<rparr>"

lemma answering_real: "real_tools answering_input"
  by (simp add: real_tools_def answering_input_def)

section \<open>Properties of the loop\<close>

lemma after_loop_counts:
  "fst (after_loop lc s) \<noteq> Unfinished"
  "step_count (core (ls_agent (snd (after_loop lc s)))) = step_count (core (ls_agent s))"
  by (simp_all add: after_loop_def Let_def)

lemma run_loop_ends:
  assumes "\<forall>inp \<in> set inps. real_tools inp"
    and "int (length inps) \<ge> max_steps (core (ls_agent s)) - step_count (core (ls_agent s))"
  shows "fst (run_loop lc inps s) \<noteq> Unfinished
    \<and> step_count (core (ls_agent (snd (run_loop lc inps s))))
        \<le> max (max_steps (core (ls_agent s))) (step_count (core (ls_agent s)))"
  using assms
proof (induction lc inps s rule: run_loop.induct)
  case (1 lc s)
  then show ?case by (simp add: after_loop_counts)
next
  case (2 lc inp inps s)
  show ?case
  proof (cases "step_count (core (ls_agent s)) < max_steps (core (ls_agent s))")
    case False
    then show ?thesis by (simp add: after_loop_counts)
  next
    case True
    obtain it s1 where step: "loop_step lc inp s = (it, s1)" by force
    have "real_tools inp" using "2.prems"(1) by simp
    note n = loop_step_counts [OF step this]
    show ?thesis
    proof (cases it)
      case GoOn
      with n have one: "step_count (core (ls_agent s1)) = step_count (core (ls_agent s)) + 1"
        "max_steps (core (ls_agent s1)) = max_steps (core (ls_agent s))" by auto
      have "int (length inps) \<ge> max_steps (core (ls_agent s1)) - step_count (core (ls_agent s1))"
        using "2.prems"(2) one by simp
      with "2.IH" [OF True step [symmetric] GoOn] "2.prems"(1) one True step GoOn show ?thesis by auto
    qed (use True step n in \<open>auto simp: after_loop_counts\<close>)
  qed
qed

text \<open>
  C9: the loop ends. As many iterations as the turn has steps left are enough, whatever the
  model, the tools and the user do, and the step counter never passes the limit of the turn.
\<close>

theorem run_ends_within_step_limit:
  assumes "\<forall>inp \<in> set inps. real_tools inp" and "int (length inps) \<ge> max_steps (core st) - step_count (core st)"
  shows "fst (run lc inps eng st box) \<noteq> Unfinished
    \<and> step_count (core (ls_agent (snd (run lc inps eng st box)))) \<le> max (max_steps (core st)) (step_count (core st))"
proof -
  obtain eng1 st1 where s1: "start_run lc eng st = (eng1, st1)" by force
  have same: "step_count (core st1) = step_count (core st)" "max_steps (core st1) = max_steps (core st)"
    using s1 by (auto simp: start_run_def Let_def split: if_splits)
  let ?s = "\<lparr>ls_engine = eng1, ls_agent = st1, ls_inbox = box, ls_summary = None\<rparr>"
  have "int (length inps) \<ge> max_steps (core (ls_agent ?s)) - step_count (core (ls_agent ?s))"
    using assms(2) same by simp
  from run_loop_ends [OF assms(1) this, of lc] show ?thesis by (simp add: run_def s1 same)
qed

lemma run_ends_within_step_limit_witness:
  "let st = edited_state\<lparr>core := (core edited_state)\<lparr>max_steps := 2\<rparr>\<rparr>;
       r = run sample_config [answering_input, answering_input] fresh_engine st []
   in fst r \<noteq> Unfinished \<and> step_count (core (ls_agent (snd r))) \<le> 2"
  using run_ends_within_step_limit [of "[answering_input, answering_input]" "edited_state\<lparr>core := (core edited_state)\<lparr>max_steps := 2\<rparr>\<rparr>"
      sample_config fresh_engine "[]"]
  by (simp add: answering_real edited_state_def new_agent_state_def new_turn_state_def Let_def)

text \<open>What the final edge may still add to the turn.\<close>

definition edge_left :: "agent_state \<Rightarrow> nat" where
  "edge_left st = of_bool (\<not> product_hook_ran st) + of_bool (\<not> diff_stat_sent st) + receipts_left st
     + of_bool (\<not> writing_delivery_hold_sent st)"

definition edge_flags :: "agent_state \<Rightarrow> bool list" where
  "edge_flags st = [product_hook_ran st, diff_stat_sent st, verify_receipt_sent st, issue_repro_receipt_sent st,
     writing_delivery_hold_sent st]"

lemma edge_left_flags: "edge_flags st' = edge_flags st \<Longrightarrow> edge_left st' = edge_left st"
  by (simp add: edge_flags_def edge_left_def receipts_left_def)

lemma hints_flags: "edge_flags (ensure_issue_repro_hints ve s) = edge_flags s"
  by (simp add: ensure_issue_repro_hints_def edge_flags_def Let_def)

lemma arm_flags: "arm_issue_repro_if_needed ve s cmd r = Some s' \<Longrightarrow> edge_flags s' = edge_flags s"
  by (auto simp: arm_issue_repro_if_needed_def edge_flags_def split: if_splits)

lemma update_flags:
  "edge_flags (s\<lparr>issue_repro_satisfied := b, issue_repro_armed := c, issue_repro_edits_since := n\<rparr>) = edge_flags s"
  "edge_flags (s\<lparr>last_repro_command := t\<rparr>) = edge_flags s" "edge_flags (s\<lparr>verify_pending := b\<rparr>) = edge_flags s"
  by (simp_all add: edge_flags_def)

lemma repro_flags:
  assumes "note_issue_repro_from_command ve st cmd r b = Some st'"
  shows "edge_flags st' = edge_flags st"
proof -
  define s1 where "s1 = (if issue_repro_hints_present st then st else ensure_issue_repro_hints ve st)"
  have s1: "edge_flags s1 = edge_flags st" by (simp add: s1_def hints_flags)
  note eq = assms [unfolded note_issue_repro_from_command_def Let_def, folded s1_def]
  have "edge_flags st' = edge_flags s1"
    using eq by (auto simp: update_flags dest: arm_flags split: if_splits)
  with s1 show ?thesis by simp
qed

lemma failure_flags: "edge_flags (note_first_failure s r) = edge_flags s"
  by (simp add: note_first_failure_def edge_flags_def Let_def split: json.split option.split)

lemma run_tests_edge:
  assumes "note_tool_result_for_verify ve ''run_tests'' r a st = Some st'"
  shows "edge_left st' = edge_left st"
proof (rule edge_left_flags)
  have n: "note_run_tests ve st r a = Some st'" using assms by (simp add: note_tool_result_for_verify_def)
  show "edge_flags st' = edge_flags st"
    using n by (auto simp: note_run_tests_def Let_def failure_flags update_flags dest!: repro_flags split: if_splits)
qed

text \<open>
  C24: the final edge cannot hold a turn up for long. Each time it sends the model on it uses up
  one of five allowances (the test hook, the diff, two receipts, the delivery hold).
\<close>

theorem final_edge_uses_allowance:
  assumes "final_edge lc inp st = Some (True, st')"
  shows "edge_left st' < edge_left st \<and> edge_left st \<le> 5"
proof
  show "edge_left st \<le> 5" by (simp add: edge_left_def receipts_left_def)
  define st1 where "st1 = (if hook_command lc st = [] then st else st\<lparr>product_hook_ran := True\<rparr>)"
  have le1: "edge_left st1 \<le> edge_left st" by (simp add: st1_def edge_left_def receipts_left_def)
  show "edge_left st' < edge_left st"
  proof (cases "if hook_command lc st = [] then None else si_hook_result inp")
    case (Some hooked)
    then have hook: "hook_command lc st \<noteq> []" by (auto split: if_splits)
    then have "\<not> product_hook_ran st" by (auto simp: hook_command_def split: if_splits)
    then have less: "edge_left st1 < edge_left st" using hook by (simp add: st1_def edge_left_def receipts_left_def)
    from assms Some obtain st2 m where n: "st' = push_message st2 m" and
      v: "note_tool_result_for_verify (lc_verify lc) ''run_tests'' (dict_set hooked ''product_hook'' (JBool True))
         (JObj [(''command'', dict_get (dict_set hooked ''product_hook'' (JBool True)) ''command'')]) st1 = Some st2"
      by (auto simp: final_edge_def st1_def Let_def)
    have "edge_left st2 = edge_left st1"
      using run_tests_edge v by blast
    with less n show ?thesis by (simp add: edge_left_def receipts_left_def push_message_def)
  next
    case None
    note eq = assms [unfolded final_edge_def Let_def None, folded st1_def]
    consider (diff) gap where "\<not> diff_stat_sent st1" "st' = show_diff lc inp st1 gap"
      | (receipt) m where "should_inject_verify_receipt st1 (if lc_reserve lc = 0 then 10 else lc_reserve lc)"
          "st' = push_message (snd (mark_verify_receipt_injected st1)) m"
      | (hold) m where "\<not> writing_delivery_hold_sent st1" "st' = push_message (mark_writing_delivery_hold_injected st1) m"
      using eq by (auto simp: should_inject_writing_delivery_hold_def split: if_splits)
    then have "edge_left st' < edge_left st1"
    proof cases
      case diff
      then show ?thesis by (simp add: show_diff_def edge_left_def receipts_left_def push_message_def Let_def)
    next
      case receipt
      let ?m = "snd (mark_verify_receipt_injected st1)"
      have "receipts_left ?m + 1 = receipts_left st1" using mark_receipt [OF receipt(1)] by blast
      moreover have "edge_left st' = edge_left ?m"
        using receipt(2) by (intro edge_left_flags) (simp add: edge_flags_def push_message_def)
      moreover have "product_hook_ran ?m = product_hook_ran st1" "diff_stat_sent ?m = diff_stat_sent st1"
        "writing_delivery_hold_sent ?m = writing_delivery_hold_sent st1"
        by (simp_all add: mark_verify_receipt_injected_def clear_writing_pending_def Let_def)
      ultimately show ?thesis by (simp add: edge_left_def)
    next
      case hold
      then show ?thesis
        by (simp add: mark_writing_delivery_hold_injected_def edge_left_def receipts_left_def push_message_def)
    qed
    with le1 show ?thesis by simp
  qed
qed

lemma final_edge_uses_allowance_witness:
  "\<exists>st'. final_edge sample_config answering_input edited_state = Some (True, st') \<and> edge_left st' < edge_left edited_state"
proof -
  let ?st' = "push_message (snd (mark_verify_receipt_injected edited_state)) (user_message ''verify'')"
  have "should_inject_verify_receipt edited_state 10"
    by (simp add: should_inject_verify_receipt_def edited_state_def new_agent_state_def new_turn_state_def
        remaining_steps_def classic_due_def)
  then have edge: "final_edge sample_config answering_input edited_state = Some (True, ?st')"
    by (simp add: final_edge_def hook_command_def product_mode_def sample_config_def answering_input_def)
  with final_edge_uses_allowance [OF edge] show ?thesis by simp
qed

end
