(* ===== verification/AgentConversation.thy ===== *)
theory AgentConversation
  imports AgentLoop
begin

text \<open>
  The conversation over a whole run: an iteration of \<open>AgentEngine.run\<close> that goes on leaves a
  paired history and no pending child, so that every request the loop sends to the model pairs
  calls and results. The loop is a step relation here, and the property an invariant of its
  reachable states; the mistakes of the last step of a run are stated at the end.
\<close>

section \<open>Messages that neither call nor answer\<close>

definition plain_message :: "json \<Rightarrow> bool" where
  "plain_message m \<longleftrightarrow> \<not> is_tool m \<and> \<not> message_has_tool_use m"

lemma user_plain [simp]: "plain_message (user_message txt)"
  by (simp add: plain_message_def user_message_def msg_role_is_def message_has_tool_use_def)

lemma answer_plain [simp]: "plain_message (assistant_text txt)"
  by (simp add: plain_message_def assistant_text_def msg_role_is_def message_has_tool_use_def msg_blocks_def block_is_def)

lemma plain_paired: "\<forall>m \<in> set ms. plain_message m \<Longrightarrow> paired ms"
  by (induction ms) (auto simp: plain_message_def paired_plain)

lemma paired_plain_append: "paired h \<Longrightarrow> \<forall>m \<in> set ms. plain_message m \<Longrightarrow> paired (h @ ms)"
  using plain_paired by (blast intro: paired_append)

text \<open>\<open>grows st st'\<close>: only such messages were added.\<close>

definition grows :: "agent_state \<Rightarrow> agent_state \<Rightarrow> bool" where
  "grows st st' \<longleftrightarrow> (\<exists>ms. history st' = history st @ ms \<and> (\<forall>m \<in> set ms. plain_message m))"

lemma grows_refl: "history st' = history st \<Longrightarrow> grows st st'"
  by (simp add: grows_def)

lemma grows_push: "grows st st' \<Longrightarrow> plain_message m \<Longrightarrow> grows st (push_message st' m)"
  by (auto simp: grows_def intro: exI [of _ "_ @ [m]"])

lemma grows_trans: "grows st st1 \<Longrightarrow> grows st1 st2 \<Longrightarrow> grows st st2"
  unfolding grows_def by (metis UnE append.assoc set_append)

lemma grows_paired: "grows st st' \<Longrightarrow> paired (history st) \<Longrightarrow> paired (history st')"
  by (auto simp: grows_def intro: paired_plain_append)

lemma diff_grows: "grows st (show_diff lc inp st gap)"
  by (simp add: show_diff_def grows_def push_message_def Let_def)

lemma edge_grows:
  assumes "final_edge lc inp st = Some (b, st')"
  shows "grows st st'"
proof -
  define st1 where "st1 = (if hook_command lc st = [] then st else st\<lparr>product_hook_ran := True\<rparr>)"
  have c1: "core st1 = core st" by (simp add: st1_def)
  show ?thesis
  proof (cases "if hook_command lc st = [] then None else si_hook_result inp")
    case (Some hooked)
    with assms obtain st2 where n: "st' = push_message st2 (hook_message (dict_set hooked ''product_hook'' (JBool True)))" and
      "note_tool_result_for_verify (lc_verify lc) ''run_tests'' (dict_set hooked ''product_hook'' (JBool True))
         (JObj [(''command'', dict_get (dict_set hooked ''product_hook'' (JBool True)) ''command'')]) st1 = Some st2"
      by (auto simp: final_edge_def st1_def Let_def)
    from note_core [OF this(2)] c1 have "grows st st2" by (intro grows_refl) simp
    then show ?thesis unfolding n by (rule grows_push) (simp add: hook_message_def)
  next
    case None
    note eq = assms [unfolded final_edge_def Let_def None, folded st1_def]
    have "grows st1 st'"
      using eq diff_grows [of st1] mark_core [of st1]
      by (auto intro!: grows_push intro: grows_refl simp: mark_writing_delivery_hold_injected_def split: if_splits)
    then show ?thesis using c1 by (simp add: grows_def)
  qed
qed

section \<open>The message that carries the calls\<close>

lemma tool_use_blocks_ids:
  "tool_use_blocks calls = Some bs \<Longrightarrow> length envs = length calls \<Longrightarrow> \<forall>p \<in> set (zip envs calls). call_named p \<Longrightarrow>
     map ((\<lambda>b. str_field b ''id'') \<circ> as_dict) bs = map item_id (zip envs calls)
     \<and> (\<forall>b \<in> set bs. block_is ''tool_use'' (as_dict b)) \<and> length bs = length calls"
proof (induction calls arbitrary: bs envs)
  case (Cons call calls)
  then obtain env envs' where e: "envs = env # envs'" by (cases envs) auto
  from Cons.prems(1) obtain i n bs' where b: "map_of call ''id'' = Some i" "map_of call ''name'' = Some n"
    "tool_use_blocks calls = Some bs'" and bs: "bs = JObj [(''type'', JStr ''tool_use''), (''id'', i), (''name'', n),
      (''input'', dict_get_default call ''input'' (JObj []))] # bs'"
    by (auto split: option.splits)
  have "call_named (env, call)" using Cons.prems(3) e by simp
  then obtain t where t: "i = JStr t" using b(1) by (auto simp: call_named_def)
  from Cons.IH [OF b(3), of envs'] Cons.prems(2,3) e bs t b(1) show ?case
    by (simp add: block_is_def str_field_def item_id_def field_text)
qed simp

lemma calls_message:
  assumes "assistant_tool_uses calls txt = Some m" and "length envs = length calls"
    and "\<forall>p \<in> set (zip envs calls). call_named p"
  shows "use_ids m = map item_id (zip envs calls)" and "calls \<noteq> [] \<Longrightarrow> message_has_tool_use m"
proof -
  obtain bs where bs: "tool_use_blocks calls = Some bs" and m: "m = JObj [(''role'', JStr ''assistant''),
        (''content'', JList ((if strip txt \<noteq> []
            then [JObj [(''type'', JStr ''text''), (''text'', JStr txt)]] else []) @ bs))]"
    using assms(1) by (auto simp: assistant_tool_uses_def)
  note ids = tool_use_blocks_ids [OF bs assms(2,3)]
  show "use_ids m = map item_id (zip envs calls)"
    using ids by (simp add: m use_ids_def msg_blocks_def block_is_def)
  assume "calls \<noteq> []"
  with ids obtain b where "b \<in> set bs" "block_is ''tool_use'' (as_dict b)" by (cases bs) auto
  then show "message_has_tool_use m"
    by (auto simp: m message_has_tool_use_def msg_blocks_def msg_role_is_def)
qed

section \<open>A step of the loop\<close>

lemma groups_pending:
  assumes "run_groups gs eng st step prev = Some (o1, eng', st')" and "o1 \<notin> Some ` set STOPPING"
    and "o1 \<noteq> Some ''waiting_child''"
  shows "pending_children eng' = []"
  using assms
proof (induction gs eng st step prev rule: run_groups.induct)
  case (1 eng st step prev)
  then show ?case by (auto split: if_splits)
next
  case (2 g gs eng st step prev)
  obtain summaries eng1 st1 where g: "run_group g eng st step = Some (summaries, eng1, st1)"
    using "2.prems"(1) by (auto split: option.splits)
  have ns: "filter (\<lambda>s. s \<in> set STOPPING) summaries = []"
  proof (cases "filter (\<lambda>s. s \<in> set STOPPING) summaries")
    case (Cons s rest)
    then have "s \<in> set (filter (\<lambda>s. s \<in> set STOPPING) summaries)" by simp
    then have "s \<in> set STOPPING" by simp
    with "2.prems"(1,2) g Cons show ?thesis by auto
  qed
  have nc: "\<not> cancelled (core st1)"
    using "2.prems"(1,2) g ns by (auto simp: STOPPING_def split: if_splits)
  from "2.IH" [OF g refl refl ns nc _ "2.prems"(2,3)] "2.prems"(1) g ns nc show ?case by simp
qed

text \<open>
  What the model and the tools owe the loop: one surroundings for each call, tools that leave the
  history alone, distinct ids that are not empty, and a pond tool (one that may ask for a fresh
  retry) only as the first call of a reply.
\<close>

definition reply_ok :: "step_input \<Rightarrow> bool" where
  "reply_ok inp = (case si_reply inp of ReplyFails \<Rightarrow> True
     | Reply txt calls _ _ _ _ \<Rightarrow>
         length (si_tools inp) = length calls \<and> calls_ok (zip (si_tools inp) calls)
         \<and> distinct (map item_id (zip (si_tools inp) calls)))"

definition conversation_ok :: "loop_state \<Rightarrow> bool" where
  "conversation_ok s \<longleftrightarrow> paired (history (ls_agent s)) \<and> pending_children (ls_engine s) = []"

lemma call_step_ok:
  assumes "call_step inp step calls txt s = (GoOn, s')" and "conversation_ok s" and "calls \<noteq> []"
    and "length (si_tools inp) = length calls" and "calls_ok (zip (si_tools inp) calls)"
    and "distinct (map item_id (zip (si_tools inp) calls))"
  shows "conversation_ok s'"
proof -
  obtain m where m: "assistant_tool_uses calls txt = Some m"
    using assms(1) by (auto simp: call_step_def split: option.splits)
  define st1 where "st1 = push_message (ls_agent s) m"
  obtain out eng2 st2 where b: "run_tool_batch (zip (si_tools inp) calls) (ls_engine s) st1 step = Some (out, eng2, st2)"
    using assms(1) m by (auto simp: call_step_def st1_def Let_def split: option.splits)
  have out: "out \<notin> Some ` set STOPPING" "out \<noteq> Some ''waiting_child''"
    and s': "ls_agent s' = st2" "ls_engine s' = eng2"
    using assms(1) m b by (auto simp: call_step_def st1_def [symmetric] Let_def STOPPING_def
        split: if_splits option.splits list.splits)
  have "\<forall>p \<in> set (zip (si_tools inp) calls). call_named p" using assms(5) by (simp add: calls_ok_def)
  note c = calls_message [OF m assms(4) this]
  have h: "history st1 = history (ls_agent s) @ [m]" by (simp add: st1_def)
  have "pending_children eng2 = []"
    using groups_pending [OF b [unfolded run_tool_batch_def] out] .
  moreover have "pending_children (ls_engine s) = []" and "paired (history (ls_agent s))"
    using assms(2) by (simp_all add: conversation_ok_def)
  moreover from batch_paired [OF h this(2) c(2) [OF assms(3)] c(1) _ assms(5) this(1) b out(1)] assms(6) c(1) calculation
  have "paired (history st2)" by simp
  ultimately show ?thesis by (simp add: conversation_ok_def s')
qed

lemma assemble_history: "history (snd (assemble_step inp st)) = history st"
proof -
  have "messages (raise_window c l) = messages c" for c l
    using raise_window_turn_frame [of c l] by (simp add: turn_frame_def)
  then show ?thesis by (simp add: assemble_step_def assemble_async_def Let_def)
qed

lemma model_step_ok:
  assumes "model_step lc inp step s = (GoOn, s')" and "conversation_ok s" and "reply_ok inp"
  shows "conversation_ok s'"
proof -
  define st1 where "st1 = (case si_stream_cancel inp of None \<Rightarrow> snd (assemble_step inp (ls_agent s))
      | Some force \<Rightarrow> note_cancel (snd (assemble_step inp (ls_agent s))) force ''model_stream'')"
  have h1: "history st1 = history (ls_agent s)"
    by (simp add: st1_def assemble_history split: option.split)
  note eq = assms(1) [unfolded model_step_def Let_def, folded st1_def]
  obtain tx calls inn out cr cc where r: "si_reply inp = Reply tx calls inn out cr cc"
    using eq by (cases "si_reply inp") (auto split: if_splits)
  define st2 where "st2 = mark_budget lc (st1\<lparr>turn_usage := count_usage inp tx inn out cr cc (turn_usage st1)\<rparr>)"
  have h2: "history st2 = history (ls_agent s)" by (simp add: st2_def budget_core h1)
  then have ok2: "conversation_ok (s\<lparr>ls_agent := st2\<rparr>)" using assms(2) by (simp add: conversation_ok_def)
  note eq2 = eq [unfolded r model_reply.case, folded st2_def]
  show ?thesis
  proof (cases "calls = []")
    case False
    then have "call_step inp step calls tx (s\<lparr>ls_agent := st2\<rparr>) = (GoOn, s')"
      using eq2 by (auto split: if_splits)
    from call_step_ok [OF this ok2 False] assms(3) r show ?thesis by (simp add: reply_ok_def)
  next
    case True
    define s3 where "s3 = (if tx = [] then s\<lparr>ls_agent := st2\<rparr>
        else s\<lparr>ls_agent := push_message st2 (assistant_text tx), ls_summary := Some tx\<rparr>)"
    have "answer_step lc inp tx (s\<lparr>ls_agent := st2\<rparr>) = (GoOn, s')"
      using eq2 True by (auto split: if_splits)
    then obtain st4 where e: "final_edge lc inp (ls_agent s3) = Some (True, st4)" "s' = s3\<lparr>ls_agent := st4\<rparr>"
      by (auto simp: answer_step_def s3_def Let_def split: option.splits if_splits)
    have "grows st2 (ls_agent s3)"
      by (auto simp: s3_def intro: grows_refl grows_push)
    from grows_paired [OF grows_trans [OF this edge_grows [OF e(1)]]] ok2 e(2) show ?thesis
      by (simp add: conversation_ok_def s3_def)
  qed
qed

lemma loop_step_ok:
  assumes "loop_step lc inp s = (GoOn, s')" and "conversation_ok s" and "reply_ok inp"
  shows "conversation_ok s'"
proof -
  define box where "box = foldl (\<lambda>b txt. push_steer b (run_id (ls_agent s)) txt) (ls_inbox s) (si_steered inp)"
  obtain steers box2 where dr: "drain_steers box (run_id (ls_agent s)) = (steers, box2)" by force
  let ?st = "ls_agent s"
  define s2 where "s2 = s\<lparr>ls_inbox := box2, ls_agent := push_all (?st\<lparr>core := core ?st\<lparr>step_count := step_count (core ?st) + 1\<rparr>\<rparr>)
      (map user_message steers)\<rparr>"
  have "grows ?st (ls_agent s2)"
    by (simp add: grows_def s2_def push_all_def)
  then have ok: "conversation_ok s2"
    using assms(2) grows_paired [of ?st "ls_agent s2"] by (simp add: conversation_ok_def s2_def)
  note eq = assms(1) [unfolded loop_step_def Let_def, folded box_def, unfolded dr prod.case, folded s2_def]
  have "model_step lc inp (step_count (core ?st)) s2 = (GoOn, s')"
    using eq by (auto split: if_splits)
  from model_step_ok [OF this ok assms(3)] show ?thesis .
qed

section \<open>Every request of a run\<close>

text \<open>The loop as a step relation: an iteration that goes on.\<close>

inductive loop_goes :: "loop_config \<Rightarrow> loop_state \<Rightarrow> loop_state \<Rightarrow> bool" for lc where
  loop_goes: "step_count (core (ls_agent s)) < max_steps (core (ls_agent s)) \<Longrightarrow> reply_ok inp \<Longrightarrow>
     loop_step lc inp s = (GoOn, s') \<Longrightarrow> loop_goes lc s s'"

inductive_cases loop_goesE: "loop_goes lc s s'"

lemma reach_conversation: "reach conversation_ok (loop_goes lc) s \<Longrightarrow> conversation_ok s"
  by (erule reach_invariant) (auto elim!: loop_goesE dest: loop_step_ok)

lemma strip_taint_shape: "shape (JObj (strip_taint (as_dict m))) = shape m"
proof -
  have "map_of (strip_taint d) k = (if k = ''_taint'' then None else map_of d k)" for d k
  proof -
    have "map_of (filter (\<lambda>(key, value). key \<noteq> ''_taint'') e) k = (if k = ''_taint'' then None else map_of e k)" for e :: dict
      by (induction e) auto
    then show ?thesis by (auto simp: strip_taint_def)
  qed
  then have "dict_get (strip_taint d) k = dict_get d k" if "k \<noteq> ''_taint''" for d k
    using that by (simp add: dict_get_def)
  then show ?thesis
    by (simp add: shape_def msg_role_is_def message_has_tool_use_def msg_blocks_def use_ids_def result_ids_def)
qed

lemma request_paired:
  assumes "paired (history st)"
  obtains body where "fst (assemble_step inp st)
      = prefix_messages (si_frame inp) @ body @ opt_list (runtime_msg (si_frame inp))" and "paired body"
proof -
  let ?e = "build_envelope (si_summarize inp) True (si_limits inp) (si_policy inp) (si_frame inp) (evicted_reread_used st) (history st)"
  let ?ms = "assemble_messages (si_summarize inp) ?e (history st)"
  let ?body = "map (\<lambda>m. JObj (strip_taint (as_dict m))) ?ms"
  have "map shape ?body = map shape ?ms" by (simp add: strip_taint_shape)
  moreover have "paired ?ms" using compaction_pairing [OF assms] by blast
  ultimately have "paired ?body" using paired_shape by blast
  moreover have "fst (assemble_step inp st) = prefix_messages (si_frame inp) @ ?body @ opt_list (runtime_msg (si_frame inp))"
    by (simp add: assemble_step_def assemble_async_def materialize_messages_def Let_def)
  ultimately show thesis using that by blast
qed

text \<open>
  C6: in a run whose replies meet \<open>reply_ok\<close> (distinct ids, tools that leave the history
  alone, and no pond tool behind another call of its reply, where
  \<open>late_retry_leaves_call_open\<close> shows what goes wrong), every request that an iteration sends
  pairs calls and results, whatever was compacted, dropped for a fresh retry, steered in by the user
  or added at the final edge before it; and no call is left to a child between two iterations.
\<close>

theorem every_request_is_paired:
  assumes "reach conversation_ok (loop_goes lc) s"
  shows "pending_children (ls_engine s) = []
    \<and> (\<exists>body. fst (assemble_step inp (push_all (ls_agent s) (map user_message steers)))
          = prefix_messages (si_frame inp) @ body @ opt_list (runtime_msg (si_frame inp)) \<and> paired body)"
proof
  have ok: "conversation_ok s" using assms by (rule reach_conversation)
  then show "pending_children (ls_engine s) = []" by (simp add: conversation_ok_def)
  have "grows (ls_agent s) (push_all (ls_agent s) (map user_message steers))"
    by (simp add: grows_def push_all_def)
  from grows_paired [OF this] ok have "paired (history (push_all (ls_agent s) (map user_message steers)))"
    by (simp add: conversation_ok_def)
  from request_paired [OF this] show "\<exists>body. fst (assemble_step inp (push_all (ls_agent s) (map user_message steers)))
      = prefix_messages (si_frame inp) @ body @ opt_list (runtime_msg (si_frame inp)) \<and> paired body"
    by blast
qed

definition edited_loop :: loop_state where
  "edited_loop = \<lparr>ls_engine = fresh_engine, ls_agent = edited_state, ls_inbox = [], ls_summary = None\<rparr>"

text \<open>The step of the sample input: an answer, on a state whose window and counters moved.\<close>

lemma unlimited_budget:
  "turn_token_budget st = 0 \<Longrightarrow> max_input_tokens st = 0 \<Longrightarrow> max_output_tokens st = 0 \<Longrightarrow>
     \<not> budget_spent sample_config st"
  by (simp add: budget_spent_def sample_config_def)

lemma raised_flags: "cancelled (raise_window c l) = cancelled c" "scenario_id (raise_window c l) = scenario_id c"
  by (simp_all add: raise_window_def Let_def)

lemma answering_step:
  assumes "ls_inbox s = []" and "\<not> cancelled (core (ls_agent s))" and "turn_token_budget (ls_agent s) = 0"
    and "max_input_tokens (ls_agent s) = 0" and "max_output_tokens (ls_agent s) = 0"
  obtains c ev pn u where "loop_step sample_config answering_input s = answer_step sample_config answering_input ''done''
      (s\<lparr>ls_inbox := [], ls_agent := (ls_agent s)\<lparr>core := c, evicted_paths := ev, pointerized_n := pn, turn_usage := u\<rparr>\<rparr>)"
    and "step_count c = step_count (core (ls_agent s)) + 1" and "max_steps c = max_steps (core (ls_agent s))"
    and "\<not> cancelled c" and "scenario_id c = scenario_id (core (ls_agent s))"
proof -
  define st1 where "st1 = (ls_agent s)\<lparr>core := (core (ls_agent s))\<lparr>step_count := step_count (core (ls_agent s)) + 1\<rparr>\<rparr>"
  obtain request c ev where as: "assemble_async (si_summarize answering_input) (si_limits answering_input) (si_policy answering_input)
      (si_frame answering_input) (evicted_reread_used st1) (core st1) = (request, c, ev)"
    by (cases rule: prod_cases3)
  then have c: "\<exists>l. c = raise_window (core st1) l" by (auto simp: assemble_async_def Let_def)
  define st2 where "st2 = st1\<lparr>core := c, evicted_paths := evicted_paths st1 \<union> ev, pointerized_n := pointerized_n st1\<rparr>"
  have a: "assemble_step answering_input st1 = (request, st2)"
    by (simp add: assemble_step_def as st2_def) (simp add: answering_input_def)
  have kept: "step_count c = step_count (core (ls_agent s)) + 1" "max_steps c = max_steps (core (ls_agent s))"
    "\<not> cancelled c" "scenario_id c = scenario_id (core (ls_agent s))"
    using c raise_window_turn_frame [of "core st1"] raised_flags [of "core st1"] assms(2) by (auto simp: st1_def turn_frame_def)
  define u where "u = count_usage answering_input ''done'' 5 1 0 0 (turn_usage st2)"
  have b: "\<not> budget_spent sample_config (ls_agent s)" "\<not> budget_spent sample_config (st2\<lparr>turn_usage := u\<rparr>)"
    using assms(3-5) by (intro unlimited_budget; simp add: st2_def st1_def)+
  have fields: "si_reply answering_input = Reply ''done'' [] 5 1 0 0" "si_stream_cancel answering_input = None"
    "si_boundary_cancel answering_input = (False, False)" "si_assemble_cancel answering_input = (False, False)"
    "si_steered answering_input = []"
    by (simp_all add: answering_input_def)
  have "loop_step sample_config answering_input s
      = model_step sample_config answering_input (step_count (core (ls_agent s))) (s\<lparr>ls_inbox := [], ls_agent := st1\<rparr>)"
    using b(1) by (simp add: loop_step_def Let_def fields assms(1) drain_steers_def or_else_def push_all_def st1_def)
  also have "\<dots> = answer_step sample_config answering_input ''done'' (s\<lparr>ls_inbox := [], ls_agent := st2\<lparr>turn_usage := u\<rparr>\<rparr>)"
    using b(2) kept(3) by (simp add: model_step_def Let_def fields a u_def mark_budget_def) (simp add: st2_def)
  finally show thesis
    using that [where c = c and ev = "evicted_paths st1 \<union> ev" and pn = "pointerized_n st1" and u = u] kept by (simp add: st2_def st1_def)
qed

lemma edited_loop_fields: "ls_agent edited_loop = edited_state" "ls_inbox edited_loop = []"
  by (simp_all add: edited_loop_def)

lemma edited_state_fields:
  "step_count (core edited_state) = 0" "max_steps (core edited_state) = 40" "\<not> cancelled (core edited_state)"
  "turn_token_budget edited_state = 0" "max_input_tokens edited_state = 0" "max_output_tokens edited_state = 0"
  "verify_pending edited_state" "code_edits_since_verify edited_state = 1" "\<not> verify_receipt_sent edited_state"
  "\<not> budget_exceeded edited_state" "\<not> issue_repro_armed edited_state"
  by (simp_all add: edited_state_def new_agent_state_def new_turn_state_def)

lemma edited_loop_ok: "conversation_ok edited_loop"
  by (simp add: conversation_ok_def edited_loop_def edited_state_def new_agent_state_def new_turn_state_def fresh_engine_def)

lemma edited_loop_goes: "loop_goes sample_config edited_loop (snd (loop_step sample_config answering_input edited_loop))"
proof (rule loop_goes)
  show "step_count (core (ls_agent edited_loop)) < max_steps (core (ls_agent edited_loop))"
    by (simp add: edited_loop_def edited_state_def new_agent_state_def new_turn_state_def)
  show "reply_ok answering_input" by (simp add: reply_ok_def answering_input_def calls_ok_def)
  obtain c ev pn u where step: "loop_step sample_config answering_input edited_loop = answer_step sample_config answering_input ''done''
      (edited_loop\<lparr>ls_inbox := [], ls_agent := edited_state\<lparr>core := c, evicted_paths := ev, pointerized_n := pn, turn_usage := u\<rparr>\<rparr>)"
      and c: "step_count c = 1" "max_steps c = 40" "\<not> cancelled c"
    by (rule answering_step [of edited_loop]) (use edited_state_fields in \<open>simp_all add: edited_loop_fields\<close>)
  let ?st = "push_message (edited_state\<lparr>core := c, evicted_paths := ev, pointerized_n := pn, turn_usage := u\<rparr>) (assistant_text ''done'')"
  have "should_inject_verify_receipt ?st 10"
    using c by (simp add: should_inject_verify_receipt_def push_message_def remaining_steps_def
        classic_due_def edited_state_fields)
  then have "\<exists>st'. final_edge sample_config answering_input ?st = Some (True, st')"
    by (simp add: final_edge_def hook_command_def product_mode_def sample_config_def answering_input_def)
  then have "fst (loop_step sample_config answering_input edited_loop) = GoOn"
    unfolding step by (auto simp: answer_step_def)
  then show "loop_step sample_config answering_input edited_loop = (GoOn, snd (loop_step sample_config answering_input edited_loop))"
    by (cases "loop_step sample_config answering_input edited_loop") simp
qed

lemma every_request_is_paired_witness:
  "\<exists>body. fst (assemble_step answering_input (push_all (ls_agent (snd (loop_step sample_config answering_input edited_loop)))
       [user_message ''faster''])) = JObj [] # body \<and> paired body"
proof -
  have "reach conversation_ok (loop_goes sample_config) (snd (loop_step sample_config answering_input edited_loop))"
    by (rule reach_step [OF reach_start]) (rule edited_loop_ok, rule edited_loop_goes)
  from every_request_is_paired [OF this, of answering_input "[''faster'']"] show ?thesis
    by (simp add: answering_input_def sample_frame_def prefix_messages_def opt_list_def)
qed

section \<open>The last step\<close>

lemma leave_counts:
  assumes "loop_step lc inp s = (Leave, s')" and "real_tools inp"
    and "\<not> cancelled (core (ls_agent s'))" and "\<not> budget_exceeded (ls_agent s')"
  shows "step_count (core (ls_agent s')) = step_count (core (ls_agent s)) + 1
    \<and> max_steps (core (ls_agent s')) = max_steps (core (ls_agent s))"
proof -
  define box where "box = foldl (\<lambda>b txt. push_steer b (run_id (ls_agent s)) txt) (ls_inbox s) (si_steered inp)"
  obtain steers box2 where dr: "drain_steers box (run_id (ls_agent s)) = (steers, box2)" by force
  let ?st = "ls_agent s"
  define s2 where "s2 = s\<lparr>ls_inbox := box2, ls_agent := push_all (?st\<lparr>core := core ?st\<lparr>step_count := step_count (core ?st) + 1\<rparr>\<rparr>)
      (map user_message steers)\<rparr>"
  have s2: "max_steps (core (ls_agent s2)) = max_steps (core ?st)" "step_count (core (ls_agent s2)) = step_count (core ?st) + 1"
    by (simp_all add: s2_def push_all_def)
  note eq = assms(1) [unfolded loop_step_def Let_def, folded box_def, unfolded dr prod.case, folded s2_def]
  have "model_step lc inp (step_count (core ?st)) s2 = (Leave, s')"
    using eq assms(3,4) by (auto simp: mark_budget_def split: if_splits)
  from model_steps [OF this assms(2)] s2 show ?thesis by (simp add: same_steps_def)
qed

text \<open>
  An answer that comes in the last step the turn may take is complete, yet the turn is
  reported as stopped by the step limit: the text of the model is returned with the reason
  \<open>max_steps\<close>.
\<close>

theorem last_step_answer_is_max_steps:
  assumes "step_count (core (ls_agent s)) + 1 = max_steps (core (ls_agent s))"
    and "loop_step lc inp s = (Leave, s1)" and "real_tools inp"
    and "\<not> cancelled (core (ls_agent s1))" and "\<not> budget_exceeded (ls_agent s1)"
    and "ls_summary s1 = Some answer" and "answer \<noteq> []"
  shows "run_loop lc (inp # inps) s = (RunReturns (JStr (lc_finish lc answer)),
      s1\<lparr>ls_agent := (ls_agent s1)\<lparr>termination_reason := ''max_steps''\<rparr>\<rparr>)"
proof -
  have "step_count (core (ls_agent s1)) = max_steps (core (ls_agent s1))"
    using leave_counts [OF assms(2-5)] assms(1) by simp
  moreover obtain c cs where "answer = c # cs" using assms(7) by (cases answer) auto
  ultimately show ?thesis
    using assms(1,2,4-6) by (simp add: after_loop_def summary_or_def Let_def)
qed

definition last_loop :: loop_state where
  "last_loop = edited_loop\<lparr>ls_agent := edited_state\<lparr>core := (core edited_state)\<lparr>max_steps := 1\<rparr>, verify_pending := False\<rparr>\<rparr>"

lemma last_step_answer_is_max_steps_witness:
  "fst (run_loop sample_config [answering_input] last_loop) = RunReturns (JStr ''done'')
   \<and> termination_reason (ls_agent (snd (run_loop sample_config [answering_input] last_loop))) = ''max_steps''"
proof -
  let ?step = "loop_step sample_config answering_input last_loop"
  let ?base = "edited_state\<lparr>core := (core edited_state)\<lparr>max_steps := 1\<rparr>, verify_pending := False\<rparr>"
  obtain c ev pn u where step: "?step = answer_step sample_config answering_input ''done''
      (last_loop\<lparr>ls_inbox := [], ls_agent := ?base\<lparr>core := c, evicted_paths := ev, pointerized_n := pn, turn_usage := u\<rparr>\<rparr>)"
      and c: "\<not> cancelled c"
    by (rule answering_step [of last_loop])
      (use edited_state_fields in \<open>simp_all add: last_loop_def edited_loop_fields\<close>)
  let ?st = "push_message (?base\<lparr>core := c, evicted_paths := ev, pointerized_n := pn, turn_usage := u\<rparr>) (assistant_text ''done'')"
  have "\<not> should_inject_verify_receipt ?st 10" "\<not> should_inject_writing_delivery_hold sample_verify ?st"
    by (simp_all add: should_inject_verify_receipt_def push_message_def edited_state_def new_agent_state_def classic_due_def
        should_inject_writing_delivery_hold_def sample_verify_def)
  then have edge: "final_edge sample_config answering_input ?st = Some (False, ?st)"
    by (simp add: final_edge_def hook_command_def product_mode_def sample_config_def)
  have facts: "fst ?step = Leave" "\<not> cancelled (core (ls_agent (snd ?step)))" "\<not> budget_exceeded (ls_agent (snd ?step))"
    "ls_summary (snd ?step) = Some ''done''"
    unfolding step using c edge by (simp_all add: answer_step_def) (simp_all add: push_message_def edited_state_def new_agent_state_def)
  have "step_count (core (ls_agent last_loop)) + 1 = max_steps (core (ls_agent last_loop))"
    by (simp add: last_loop_def edited_loop_def edited_state_def new_agent_state_def new_turn_state_def)
  from last_step_answer_is_max_steps [OF this _ answering_real facts(2-4), of sample_config "[]"] facts(1)
  show ?thesis by (cases ?step) (simp add: sample_config_def)
qed

end
