(* ===== verification/AgentRegistry.thy ===== *)
theory AgentRegistry
  imports AgentLoop
begin

text \<open>
  The type of the read registry over a whole run: every operation on it, every bookkeeping step
  of a call and every iteration of the loop keeps one entry for each path, no empty path, and
  line ranges that start at line 1 or later and do not end before they start.
\<close>

section \<open>Well-formed registries\<close>

definition ranges_ok :: "path_read_state \<Rightarrow> bool" where
  "ranges_ok st \<longleftrightarrow> (\<forall>(a, b) \<in> set (covered_ranges st). 1 \<le> a \<and> a \<le> b)"

definition registry_typed :: "ReadRegistry.registry \<Rightarrow> bool" where
  "registry_typed reg \<longleftrightarrow> distinct (map fst reg) \<and> (\<forall>(path, st) \<in> set reg. path \<noteq> [] \<and> ranges_ok st)"

lemma typed_entry: "registry_typed reg \<Longrightarrow> ranges_ok (or_else (map_of reg k) new_path_read_state)"
  by (auto simp: registry_typed_def or_else_def new_path_read_state_def ranges_ok_def split: option.split dest!: map_of_SomeD)

lemma dict_set_members: "(x, y) \<in> set (dict_set d k v) \<Longrightarrow> (x, y) \<in> set d \<or> (x = k \<and> y = v)"
  by (induction d k v rule: dict_set.induct) (auto split: if_splits)

lemma typed_set: "registry_typed reg \<Longrightarrow> k \<noteq> [] \<Longrightarrow> ranges_ok st \<Longrightarrow> registry_typed (dict_set reg k st)"
  by (auto simp: registry_typed_def distinct_dict_set dest!: dict_set_members)

named_theorems typed \<open>operations keep the type of the registry\<close>

lemma typed_reread [typed]: "registry_typed reg \<Longrightarrow> registry_typed (note_edit_failure_allows_reread reg p)"
  using typed_entry [of reg] by (auto simp: note_edit_failure_allows_reread_def Let_def ranges_ok_def intro!: typed_set)

lemma typed_written [typed]: "registry_typed reg \<Longrightarrow> registry_typed (note_written_hash reg p h)"
  using typed_entry [of reg "normalize_read_path p"]
  by (auto simp: note_written_hash_def Let_def ranges_ok_def or_else_def intro!: typed_set split: option.split)

lemma typed_stale [typed]: "registry_typed reg \<Longrightarrow> registry_typed (mark_registry_stale disk reg)"
proof -
  have "ranges_ok (stale_entry disk k st) = ranges_ok st" for k st
    by (simp add: stale_entry_def ranges_ok_def split: option.split)
  moreover have "fst \<circ> (\<lambda>(key, st). (key, stale_entry disk key st)) = fst"
    by auto
  ultimately show "registry_typed reg \<Longrightarrow> registry_typed (mark_registry_stale disk reg)"
    by (auto simp: registry_typed_def mark_registry_stale_def)
qed

lemma typed_read [typed]:
  "registry_typed reg \<Longrightarrow> registry_typed (record_successful_read reg p off fin tr nxt w h)"
  using typed_entry [of reg "normalize_read_path p"]
  by (auto simp: record_successful_read_def Let_def ranges_ok_def intro!: typed_set)

lemma typed_merge [typed]: "registry_typed reg \<Longrightarrow> registry_typed (merge_readonly_read_registry env call ms reg)"
  by (induction env call ms reg rule: merge_readonly_read_registry.induct)
    (auto simp: merged_read_def Let_def typed split: list.split option.split)

section \<open>The bookkeeping of a call\<close>

abbreviation typed_state :: "agent_state \<Rightarrow> bool" where
  "typed_state st \<equiv> registry_typed (read_registry st)"

text \<open>The verification debt does not touch the registry.\<close>

lemma repro_registry:
  assumes "note_issue_repro_from_command ve st cmd r b = Some st'"
  shows "read_registry st' = read_registry st"
proof -
  define s1 where "s1 = (if issue_repro_hints_present st then st else ensure_issue_repro_hints ve st)"
  have s1: "read_registry s1 = read_registry st" by (simp add: s1_def ensure_issue_repro_hints_def Let_def)
  have "read_registry s' = read_registry s1" if "arm_issue_repro_if_needed ve s1 cmd r = Some s'" for s'
    using that by (auto simp: arm_issue_repro_if_needed_def split: if_splits)
  with assms [unfolded note_issue_repro_from_command_def Let_def, folded s1_def] s1 show ?thesis
    by (auto split: if_splits)
qed

lemma failure_registry: "read_registry (note_first_failure s r) = read_registry s"
  by (simp add: note_first_failure_def Let_def split: json.split option.split)

lemma tests_registry: "note_run_tests ve st r a = Some st' \<Longrightarrow> read_registry st' = read_registry st"
  by (auto simp: note_run_tests_def Let_def failure_registry dest!: repro_registry split: if_splits)

lemma command_registry:
  assumes "note_run_command ve st r a = Some st'"
  shows "read_registry st' = read_registry st"
proof -
  obtain st1 where st1: "(if result_command r a = [] then Some st
      else note_issue_repro_from_command ve st (result_command r a) r True) = Some st1"
    using assms by (auto simp: note_run_command_def Let_def split: option.splits)
  then have r1: "read_registry st1 = read_registry st" by (auto dest: repro_registry split: if_splits)
  have arm: "read_registry t' = read_registry t" if "arm_issue_repro_if_needed ve t cmd r = Some t'" for t t' cmd
    using that by (auto simp: arm_issue_repro_if_needed_def split: if_splits)
  from assms st1 have "st' = st1 \<or> (\<exists>b. arm_issue_repro_if_needed ve (note_first_failure
      (if b then st1\<lparr>verify_pending := False, last_repro_command := take 500 (result_command r a)\<rparr>
       else st1\<lparr>verify_pending := False\<rparr>) r) (result_command r a) r = Some st')"
    by (auto simp: note_run_command_def Let_def split: if_splits option.splits)
  with r1 show ?thesis by (auto dest!: arm simp: failure_registry)
qed

lemma signals_registry: "read_registry (note_writing_signals st r) = read_registry st"
  by (simp add: note_writing_signals_def split: option.split prod.split)

lemma edit_registry: "read_registry (note_edit ve st r) = read_registry st"
  by (simp add: note_edit_def Let_def ensure_issue_repro_hints_def note_related_def split: json.split)

lemma verify_registry:
  "note_tool_result_for_verify ve n r a st = Some st' \<Longrightarrow> read_registry st' = read_registry st"
  by (auto simp: note_tool_result_for_verify_def signals_registry edit_registry
      dest: tests_registry command_registry split: if_splits)

lemma parts_typed:
  "typed_state st \<Longrightarrow> typed_state (note_written env st n a r)"
  "typed_state st \<Longrightarrow> typed_state (note_command env st n a r)"
  "typed_state st \<Longrightarrow> typed_state (note_plan st n r)"
  "typed_state st \<Longrightarrow> typed_state (append_path_rules env st p)"
proof -
  show "typed_state st \<Longrightarrow> typed_state (note_written env st n a r)"
    by (auto simp: note_written_def remember_edit_def Let_def typed split: prod.split)
  show "typed_state st \<Longrightarrow> typed_state (note_command env st n a r)"
    by (auto simp: note_command_def Let_def typed split: json.split)
  show "typed_state st \<Longrightarrow> typed_state (note_plan st n r)"
    by (auto simp: note_plan_def Let_def split: json.split)
  show "typed_state st \<Longrightarrow> typed_state (append_path_rules env st p)"
    by (auto simp: append_path_rules_def Let_def)
qed

lemma facts_typed: "note_facts env st n a r = Some st' \<Longrightarrow> typed_state st \<Longrightarrow> typed_state st'"
  by (auto simp: note_facts_def Let_def verify_registry intro!: parts_typed split: if_splits)

lemma coverage_typed:
  assumes "note_coverage env eng st n a r = (eng', st', r')" and "typed_state st"
  shows "typed_state st'"
proof -
  have "typed_state (fst (snd (note_read env eng st a r)))"
    using assms(2) by (simp add: note_read_def Let_def split_beta typed)
  then show ?thesis using assms by (auto simp: note_coverage_def typed split: if_splits)
qed

lemma end_typed:
  assumes "end_call env eng st step t n a r = Some (s, eng', st')" and "typed_state st"
  shows "typed_state st'"
proof -
  have complete: "typed_state st'" if c: "complete_call env eng st t n a r = Some (s, eng', st')"
  proof -
    obtain r1 st1 where at: "attach_signals env n a r st = (r1, st1)" by force
    then have "read_registry st1 = read_registry st"
      by (auto simp: attach_signals_def signals_registry split: prod.splits if_splits)
    then have "typed_state (answer_result env (note_delivery st1 n r1) t n r1)"
      using assms(2) by (simp add: answer_result_def note_delivery_def push_message_def Let_def split: option.split)
    then show ?thesis using c at by (auto simp: complete_call_def Let_def split: option.splits)
  qed
  have "read_registry (note_cancel st f p) = read_registry st" "read_registry (push_message st m) = read_registry st"
    for f p m by (simp_all add: note_cancel_def push_message_def Let_def)
  with assms complete show ?thesis by (auto simp: end_call_def Let_def split: if_splits)
qed

section \<open>A call and a batch\<close>

text \<open>Calls whose executor leaves the registry alone, as the one of the model does.\<close>

definition spares_registry :: "tool_env \<Rightarrow> bool" where
  "spares_registry env \<longleftrightarrow>
     (\<forall>n t a g st r st'. te_execute env n t a g st = Some (r, st') \<longrightarrow> read_registry st' = read_registry st)"

lemma executor_spares: "spares_registry (with_executor ex tx env)"
  by (auto simp: spares_registry_def with_executor_def execute_call_def split: option.splits)

lemma obtain_typed:
  assumes "obtain_result env eng st step t n a = Some (eng', st', r)" and "spares_registry env"
  shows "read_registry st' = read_registry st"
proof -
  obtain hit eng1 where look: "(if skip_read_cache st n a then (None, eng) else lookup_tool_cache eng n a) = (hit, eng1)"
    by force
  have skill: "read_registry (note_skill s n d) = read_registry s" for s d by (simp add: note_skill_def Let_def)
  show ?thesis
    using assms unfolding obtain_result_def look spares_registry_def
    by (cases hit) (auto simp: skill Let_def split: option.splits prod.splits if_splits)
qed

lemma run_tool_typed:
  assumes "run_tool env eng st step c call = Some (s, eng', st')" and "spares_registry env" and "typed_state st"
  shows "typed_state st'"
proof -
  obtain t n where id: "map_of call ''id'' = Some (JStr t)" "map_of call ''name'' = Some (JStr n)"
    using assms(1) by (auto simp: run_tool_def split: option.splits json.splits)
  let ?a = "dict_get_default call ''input'' (JObj [])"
  obtain eng1 early where gate: "call_gate env eng st n ?a c = (eng1, early)" by force
  note eq = assms(1) [unfolded run_tool_def id]
  show ?thesis
  proof (cases early)
    case (Some e)
    with eq gate assms(3) show ?thesis by (cases e) (auto simp: Let_def push_message_def)
  next
    case None
    obtain st1 stopped where d: "draft_cancelled env st n ?a = (st1, stopped)" by force
    then have r1: "read_registry st1 = read_registry st"
      by (auto simp: draft_cancelled_def note_cancel_def Let_def split: if_splits)
    show ?thesis
    proof (cases stopped)
      case True
      with eq gate None d r1 assms(3) show ?thesis by (auto simp: Let_def)
    next
      case False
      with eq gate None d obtain eng2 st2 res where o: "obtain_result env eng1 st1 step t n ?a = Some (eng2, st2, res)"
        by (auto simp: Let_def split: option.splits)
      have r2: "typed_state st2" using obtain_typed [OF o assms(2)] r1 assms(3) by simp
      show ?thesis
      proof (cases res)
        case None2: None
        with eq gate None d False o r2 show ?thesis by (auto simp: Let_def)
      next
        case (Some r)
        obtain eng3 st3 r3 where cov: "note_coverage env eng2 st2 n ?a r = (eng3, st3, r3)" by (cases rule: prod_cases3)
        from eq gate None d False o Some cov obtain e4 st4 r4 where
          f: "note_facts env st3 n ?a r3 = Some st4" and fin: "end_call env e4 st4 step t n ?a r4 = Some (s, eng', st')"
          by (auto simp: Let_def split: option.splits)
        from end_typed [OF fin facts_typed [OF f coverage_typed [OF cov r2]]] show ?thesis .
      qed
    qed
  qed
qed

lemma merge_typed: "typed_state st \<Longrightarrow> typed_state (foldl merge_run st xs)"
proof (induction xs arbitrary: st)
  case (Cons x xs)
  obtain env call s twin where x: "x = ((env, call), s, twin)" by (metis prod.exhaust)
  have "typed_state (merge_run st x)"
    using Cons.prems by (simp add: x merge_run_def Let_def note_cancel_def typed)
  with Cons show ?case by simp
qed simp

lemma isolated_registry:
  "run_isolated eng st step reg items = Some (runs, eng', st') \<Longrightarrow> read_registry st' = read_registry st"
proof (induction eng st step reg items arbitrary: runs eng' st' rule: run_isolated.induct)
  case (2 eng st step reg env call seed items)
  then show ?case by (auto simp: share_back_def split: option.splits)
qed simp

lemma group_typed:
  assumes "\<forall>p \<in> set items. spares_registry (fst p)" and "run_group items eng st step = Some (ss, eng', st')"
    and "typed_state st"
  shows "typed_state st'"
proof (cases "\<exists>env call. items = [(env, call)]")
  case True
  then obtain env call where it: "items = [(env, call)]" by blast
  with assms(2) obtain s where "run_tool env eng st step None call = Some (s, eng', st')"
    by (auto simp: run_group_def)
  from run_tool_typed [OF this _ assms(3)] it assms(1) show ?thesis by simp
next
  case False
  with assms(2) have rp: "run_parallel items eng st step = Some (ss, eng', st')"
    by (auto simp: run_group_def split: list.splits)
  obtain seeds r s where cs: "counter_seeds (read_file_calls eng) (search_sources_calls eng) (map snd items) = (seeds, r, s)"
    by (cases rule: prod_cases3)
  obtain runs eng1 st1 where ri: "run_isolated eng st step (read_registry st) (zip items seeds) = Some (runs, eng1, st1)"
    and out: "st' = foldl merge_run st1 (zip items runs)"
    using rp cs by (auto simp: run_parallel_def split: option.splits)
  from merge_typed [of st1 "zip items runs"] isolated_registry [OF ri] assms(3) show ?thesis by (simp add: out)
qed

lemma groups_typed:
  "\<forall>p \<in> set (concat gs). spares_registry (fst p) \<Longrightarrow> run_groups gs eng st step prev = Some (o1, eng', st') \<Longrightarrow>
     typed_state st \<Longrightarrow> typed_state st'"
proof (induction gs eng st step prev arbitrary: o1 eng' st' rule: run_groups.induct)
  case (2 g gs eng st step prev)
  obtain ss eng1 st1 where g: "run_group g eng st step = Some (ss, eng1, st1)"
    using "2.prems"(2) by (auto split: option.splits)
  have t1: "typed_state st1" using group_typed [OF _ g] "2.prems"(1,3) by auto
  show ?case
  proof (cases "filter (\<lambda>s. s \<in> set STOPPING) ss = [] \<and> \<not> cancelled (core st1)")
    case True
    with "2.prems"(2) g have rest: "run_groups gs eng1 st1 step (last_text prev ss) = Some (o1, eng', st')" by simp
    show ?thesis using "2.IH" [OF g refl refl _ _ _ rest t1] True "2.prems"(1) by auto
  next
    case False
    with "2.prems"(2) g t1 show ?thesis by (auto split: list.splits if_splits)
  qed
qed auto

lemma batch_typed:
  assumes "\<forall>p \<in> set items. spares_registry (fst p)" and "run_tool_batch items eng st step = Some (o1, eng', st')"
    and "typed_state st"
  shows "typed_state st'"
  using groups_typed [of "batch_groups items" eng st step None o1 eng' st'] assms
  by (auto simp: run_tool_batch_def concat_batch_groups)

section \<open>An iteration and a run\<close>

lemma small_registry:
  "read_registry (note_cancel st f p) = read_registry st" "read_registry (push_message st m) = read_registry st"
  "read_registry (push_all st ms) = read_registry st" "read_registry (mark_budget lc st) = read_registry st"
  "read_registry (snd (assemble_step inp st)) = read_registry st"
  by (simp_all add: note_cancel_def push_message_def push_all_def mark_budget_def assemble_step_def Let_def split_beta)

lemma edge_registry:
  assumes "final_edge lc inp st = Some (b, st')"
  shows "read_registry st' = read_registry st"
proof -
  define st1 where "st1 = (if hook_command lc st = [] then st else st\<lparr>product_hook_ran := True\<rparr>)"
  have r1: "read_registry st1 = read_registry st" by (simp add: st1_def)
  have diff: "read_registry (show_diff lc inp t gap) = read_registry t" for t gap
    by (simp add: show_diff_def Let_def small_registry)
  have marks: "read_registry (snd (mark_verify_receipt_injected t)) = read_registry t"
    "read_registry (mark_writing_delivery_hold_injected t) = read_registry t" for t
    by (simp_all add: mark_verify_receipt_injected_def mark_writing_delivery_hold_injected_def clear_writing_pending_def Let_def)
  show ?thesis
  proof (cases "if hook_command lc st = [] then None else si_hook_result inp")
    case (Some hooked)
    with assms obtain st2 m where n: "st' = push_message st2 m" and
      "note_tool_result_for_verify (lc_verify lc) ''run_tests'' (dict_set hooked ''product_hook'' (JBool True))
         (JObj [(''command'', dict_get (dict_set hooked ''product_hook'' (JBool True)) ''command'')]) st1 = Some st2"
      by (auto simp: final_edge_def st1_def Let_def)
    from verify_registry [OF this(2)] n r1 show ?thesis by (simp add: small_registry)
  next
    case None
    from assms [unfolded final_edge_def Let_def None, folded st1_def] r1 show ?thesis
      by (auto simp: diff marks small_registry split: if_splits)
  qed
qed

lemma model_typed:
  assumes "model_step lc inp step s = (it, s')" and "\<forall>env \<in> set (si_tools inp). spares_registry env"
    and "typed_state (ls_agent s)"
  shows "typed_state (ls_agent s')"
proof -
  define st1 where "st1 = (case si_stream_cancel inp of None \<Rightarrow> snd (assemble_step inp (ls_agent s))
      | Some force \<Rightarrow> note_cancel (snd (assemble_step inp (ls_agent s))) force ''model_stream'')"
  have r1: "typed_state st1" using assms(3) by (simp add: st1_def small_registry split: option.split)
  note eq = assms(1) [unfolded model_step_def Let_def, folded st1_def]
  show ?thesis
  proof (cases "si_reply inp")
    case ReplyFails
    with eq r1 show ?thesis by (auto simp: small_registry split: if_splits)
  next
    case (Reply tx calls inn out cr cc)
    define st2 where "st2 = mark_budget lc (st1\<lparr>turn_usage := count_usage inp tx inn out cr cc (turn_usage st1)\<rparr>)"
    have r2: "typed_state st2" using r1 by (simp add: st2_def small_registry)
    note eq2 = eq [unfolded Reply model_reply.case, folded st2_def]
    consider "read_registry (ls_agent s') = read_registry st1" | "call_step inp step calls tx (s\<lparr>ls_agent := st2\<rparr>) = (it, s')"
      | "answer_step lc inp tx (s\<lparr>ls_agent := st2\<rparr>) = (it, s')"
      using eq2 by (auto split: if_splits)
    then show ?thesis
    proof cases
      case 1
      with r1 show ?thesis by simp
    next
      case 2
      have "typed_state st3" if "run_tool_batch (zip (si_tools inp) calls) eng (push_message st2 m) step = Some (o1, eng', st3)"
        for eng m o1 eng' st3
        by (rule batch_typed [OF _ that]) (use assms(2) r2 in \<open>auto simp: small_registry dest: set_zip_leftD\<close>)
      with 2 r2 show ?thesis
        by (auto simp: call_step_def Let_def small_registry split: option.splits if_splits list.splits)
    next
      case 3
      define s3 where "s3 = (if tx = [] then s\<lparr>ls_agent := st2\<rparr>
          else s\<lparr>ls_agent := push_message st2 (assistant_text tx), ls_summary := Some tx\<rparr>)"
      have "typed_state (ls_agent s3)" using r2 by (simp add: s3_def small_registry)
      moreover have "read_registry (ls_agent s') = read_registry (ls_agent s3)"
        using 3 by (auto simp: answer_step_def s3_def Let_def dest!: edge_registry split: option.splits if_splits)
      ultimately show ?thesis by simp
    qed
  qed
qed

lemma loop_typed:
  assumes "loop_step lc inp s = (it, s')" and "\<forall>env \<in> set (si_tools inp). spares_registry env"
    and "typed_state (ls_agent s)"
  shows "typed_state (ls_agent s')"
proof -
  define box where "box = foldl (\<lambda>b txt. push_steer b (run_id (ls_agent s)) txt) (ls_inbox s) (si_steered inp)"
  obtain steers box2 where dr: "drain_steers box (run_id (ls_agent s)) = (steers, box2)" by force
  let ?st = "ls_agent s"
  define s2 where "s2 = s\<lparr>ls_inbox := box2, ls_agent := push_all (?st\<lparr>core := core ?st\<lparr>step_count := step_count (core ?st) + 1\<rparr>\<rparr>)
      (map user_message steers)\<rparr>"
  have s2: "read_registry (ls_agent s2) = read_registry ?st" by (simp add: s2_def small_registry)
  note eq = assms(1) [unfolded loop_step_def Let_def, folded box_def, unfolded dr prod.case, folded s2_def]
  consider "read_registry (ls_agent s') = read_registry ?st" | "model_step lc inp (step_count (core ?st)) s2 = (it, s')"
    using eq s2 by (auto simp: small_registry split: if_splits)
  then show ?thesis
  proof cases
    case 2
    from model_typed [OF this assms(2)] s2 assms(3) show ?thesis by simp
  qed (use assms(3) in simp)
qed

lemma run_loop_typed:
  "\<forall>inp \<in> set inps. real_tools inp \<Longrightarrow> typed_state (ls_agent s) \<Longrightarrow> typed_state (ls_agent (snd (run_loop lc inps s)))"
proof (induction lc inps s rule: run_loop.induct)
  case (1 lc s)
  then show ?case by (simp add: after_loop_def Let_def)
next
  case (2 lc inp inps s)
  obtain it s1 where step: "loop_step lc inp s = (it, s1)" by force
  have "\<forall>env \<in> set (si_tools inp). spares_registry env"
    using "2.prems"(1) executor_spares by (auto simp: real_tools_def)
  note t1 = loop_typed [OF step this "2.prems"(2)]
  have done1: "typed_state (ls_agent (snd (after_loop lc t)))" if "typed_state (ls_agent t)" for t
    using that by (simp add: after_loop_def Let_def)
  show ?case
  proof (cases "step_count (core (ls_agent s)) < max_steps (core (ls_agent s))")
    case True
    show ?thesis
    proof (cases it)
      case GoOn
      from "2.IH" [OF True step [symmetric] GoOn _ t1] "2.prems"(1) True step GoOn show ?thesis by simp
    qed (use True step t1 done1 in auto)
  qed (use "2.prems"(2) done1 in auto)
qed

text \<open>
  C17: the read registry is well typed in every run. Started well typed, it is so when the run
  returns, parks or raises, whatever the model asked for, the tools returned and the parallel
  reads merged: one entry for each path, none for the empty path, and ranges of lines that start
  at 1 or later and do not end before they start.
\<close>

theorem run_keeps_registry_type:
  assumes "registry_typed (read_registry st)" and "\<forall>inp \<in> set inps. real_tools inp"
  shows "registry_typed (read_registry (ls_agent (snd (run lc inps eng st box))))"
proof -
  obtain eng1 st1 where s1: "start_run lc eng st = (eng1, st1)" by force
  then have "read_registry st1 = read_registry st"
    by (auto simp: start_run_def Let_def split: if_splits)
  with assms run_loop_typed [OF assms(2)] show ?thesis by (simp add: run_def s1)
qed

lemma run_keeps_registry_type_witness:
  "registry_typed (read_registry (ls_agent (snd (run sample_config [answering_input] fresh_engine
     (edited_state\<lparr>read_registry := [(''a'', new_path_read_state\<lparr>covered_ranges := [(1, 9)]\<rparr>)]\<rparr>) []))))"
  by (rule run_keeps_registry_type) (simp_all add: answering_real registry_typed_def ranges_ok_def)

text \<open>
  The keys need not be normal: a blank after a leading \<open>./\<close> survives the first normalisation and
  not the second, so a checkpoint renames the entry of such a file.
\<close>

lemma normal_path_is_not_stable:
  "normalize_read_path ''./ a'' = '' a'' \<and> normalize_read_path '' a'' = ''a''"
  by (simp add: normalize_read_path_def replace_char_def strip_def lstrip_def rstrip_def is_space_def)

end
