(* ===== verification/RunCommands.thy ===== *)
theory RunCommands
  imports PyValue
begin

text \<open>
  The queue \<open>run_commands\<close>, which carries the decisions of the user from the api
  (\<open>services/command/run_commands.py\<close>) to the runtime that owns the run
  (\<open>controller/run_commands_listener.py\<close>). The table is a list of rows in the order of
  \<open>created_at\<close>, each SQL statement an update of it; consumers interleave between statements.
  Notifications, JSON columns and the listening connection are left out; the status
  \<open>expired\<close>, which no code writes, too.
\<close>

section \<open>The run commands\<close>

record command_row =
  cm_id :: str
  cm_run :: str
  cm_type :: str
  cm_payload :: dict
  cm_pending :: bool

definition COMMAND_TYPES :: "str list" where
  "COMMAND_TYPES = [''approve'', ''deny'', ''patch_accept'', ''patch_reject'', ''cancel'']"

text \<open>The partial unique index \<open>(run_id, type) WHERE status = 'pending'\<close>.\<close>

definition pending_for :: "str \<Rightarrow> str \<Rightarrow> command_row \<Rightarrow> bool" where
  "pending_for run_id command_type c \<longleftrightarrow> cm_run c = run_id \<and> cm_type c = command_type \<and> cm_pending c"

text \<open>The id returned and the table; None is the ValueError of an unknown type.\<close>

definition enqueue_run_command ::
  "str \<Rightarrow> str \<Rightarrow> str \<Rightarrow> dict \<Rightarrow> command_row list \<Rightarrow> (str \<times> command_row list) option" where
  "enqueue_run_command cmd_id run_id command_type payload rows =
     (if command_type \<notin> set COMMAND_TYPES then None
      else (case find (pending_for run_id command_type) rows of
          None \<Rightarrow> Some (cmd_id, rows @ [\<lparr>cm_id = cmd_id, cm_run = run_id, cm_type = command_type,
                    cm_payload = payload, cm_pending = True\<rparr>])
        | Some c \<Rightarrow> Some (cm_id c, map (\<lambda>d. if pending_for run_id command_type d
                    then d\<lparr>cm_payload := payload\<rparr> else d) rows)))"

definition mark_consumed :: "str \<Rightarrow> command_row list \<Rightarrow> bool \<times> command_row list" where
  "mark_consumed command_id rows =
     (list_ex (\<lambda>c. cm_id c = command_id \<and> cm_pending c) rows,
      map (\<lambda>c. if cm_id c = command_id then c\<lparr>cm_pending := False\<rparr> else c) rows)"

text \<open>The rows a runner reads: of its runs, or of one of them, the oldest twenty.\<close>

definition select_pending ::
  "(str \<Rightarrow> str option) \<Rightarrow> str \<Rightarrow> str option \<Rightarrow> command_row list \<Rightarrow> command_row list" where
  "select_pending owner runner run_id rows = take 20 (filter (\<lambda>c. cm_pending c \<and> owner (cm_run c) = Some runner
     \<and> (case run_id of None \<Rightarrow> True | Some r \<Rightarrow> cm_run c = r)) rows)"

datatype run_action = ApproveCall str str | DenyCall str str | AcceptPatch str | RejectPatch str str
  | RequestCancel bool | PushSteer str | UnknownCommand

text \<open>None is the ValueError of a trace id that is no UUID.\<close>

definition dispatch_command :: "(str \<Rightarrow> bool) \<Rightarrow> command_row \<Rightarrow> run_action option" where
  "dispatch_command is_uuid row =
     (let p = cm_payload row; t = cm_type row;
          text_or = (\<lambda>k d. py_str (py_or (dict_get p k) (JStr d)))
      in if truthy (dict_get p ''trace_id'') \<and> \<not> is_uuid (py_str (dict_get p ''trace_id'')) then None
         else Some (if t = ''approve'' then ApproveCall (text_or ''tool_call_id'' []) (text_or ''approver_user_id'' [])
           else if t = ''deny'' then DenyCall (text_or ''tool_call_id'' []) (text_or ''reason'' ''user_denied'')
           else if t = ''patch_accept'' then AcceptPatch (text_or ''patch_id'' [])
           else if t = ''patch_reject'' then RejectPatch (text_or ''patch_id'' []) (text_or ''reason'' ''user_rejected'')
           else if t = ''cancel'' then RequestCancel (truthy (dict_get p ''force''))
           else if t = ''steer'' then PushSteer (py_str (py_or (py_or (dict_get p ''text'') (dict_get p ''message'')) (JStr [])))
           else UnknownCommand))"

text \<open>
  One row of the loop of \<open>consume_pending_for_run\<close>: the row as it was read is dispatched when
  this consumer is the one that marks it.
\<close>

definition consume_row ::
  "(str \<Rightarrow> bool) \<Rightarrow> command_row \<Rightarrow> command_row list \<Rightarrow> run_action option option \<times> command_row list" where
  "consume_row is_uuid row rows =
     (let (mine, rows1) = mark_consumed (cm_id row) rows
      in (if mine then Some (dispatch_command is_uuid row) else None, rows1))"

text \<open>The whole loop of one consumer that nothing interrupts, with the count it returns.\<close>

fun consume_rows :: "(str \<Rightarrow> bool) \<Rightarrow> command_row list \<Rightarrow> command_row list \<Rightarrow> (str \<times> run_action) list \<times> command_row list" where
  "consume_rows is_uuid [] rows = ([], rows)"
| "consume_rows is_uuid (row # selected) rows =
     (let (sent, rows1) = consume_row is_uuid row rows;
          (others, rows2) = consume_rows is_uuid selected rows1
      in (case sent of Some (Some a) \<Rightarrow> (cm_id row, a) # others | _ \<Rightarrow> others, rows2))"

definition consume_pending_for_run ::
  "(str \<Rightarrow> bool) \<Rightarrow> (str \<Rightarrow> str option) \<Rightarrow> str \<Rightarrow> bool \<Rightarrow> str option \<Rightarrow> command_row list
     \<Rightarrow> (str \<times> run_action) list \<times> command_row list" where
  "consume_pending_for_run is_uuid owner runner enabled run_id rows =
     (if \<not> enabled then ([], rows) else consume_rows is_uuid (select_pending owner runner run_id rows) rows)"

section \<open>Interleaved consumers\<close>

text \<open>
  The table, the rows each consumer (a woken listener or a poll, of any runner) has read and
  not yet handled, and what was dispatched. Ownership of a run may change between reads.
\<close>

record command_state =
  cs_rows :: "command_row list"
  cs_held :: "nat \<Rightarrow> command_row list"
  cs_sent :: "(str \<times> run_action option) list"

inductive command_step :: "(str \<Rightarrow> bool) \<Rightarrow> command_state \<Rightarrow> command_state \<Rightarrow> bool" for is_uuid where
  api: "cmd_id \<notin> cm_id ` set (cs_rows s) \<Longrightarrow>
      enqueue_run_command cmd_id run_id command_type payload (cs_rows s) = Some (i, rows) \<Longrightarrow>
      command_step is_uuid s (s\<lparr>cs_rows := rows\<rparr>)"
| reads: "cs_held s k = [] \<Longrightarrow>
      command_step is_uuid s (s\<lparr>cs_held := (cs_held s)(k := select_pending owner runner run_id (cs_rows s))\<rparr>)"
| handles: "cs_held s k = row # others \<Longrightarrow> consume_row is_uuid row (cs_rows s) = (sent, rows) \<Longrightarrow>
      command_step is_uuid s (s\<lparr>cs_rows := rows, cs_held := (cs_held s)(k := others),
        cs_sent := cs_sent s @ (case sent of None \<Rightarrow> [] | Some a \<Rightarrow> [(cm_id row, a)])\<rparr>)"

inductive_cases command_stepE: "command_step is_uuid s s'"

definition no_commands :: "command_state \<Rightarrow> bool" where
  "no_commands s \<longleftrightarrow> cs_rows s = [] \<and> cs_sent s = [] \<and> (\<forall>k. cs_held s k = [])"

text \<open>
  Distinct ids, at most one pending row for each run and type, every dispatched row once and no
  longer pending.
\<close>

definition one_pending :: "command_row list \<Rightarrow> bool" where
  "one_pending rows \<longleftrightarrow> distinct (map (\<lambda>c. (cm_run c, cm_type c)) (filter cm_pending rows))"

definition consumed :: "command_row list \<Rightarrow> str \<Rightarrow> bool" where
  "consumed rows i \<longleftrightarrow> (\<exists>c \<in> set rows. cm_id c = i \<and> \<not> cm_pending c)"

definition commands_ok :: "command_state \<Rightarrow> bool" where
  "commands_ok s \<longleftrightarrow> distinct (map cm_id (cs_rows s)) \<and> one_pending (cs_rows s)
     \<and> distinct (map fst (cs_sent s)) \<and> (\<forall>i \<in> set (map fst (cs_sent s)). consumed (cs_rows s) i)"

lemma find_pending:
  "find (pending_for r t) rows = None \<longleftrightarrow> (r, t) \<notin> set (map (\<lambda>c. (cm_run c, cm_type c)) (filter cm_pending rows))"
  by (auto simp: find_None_iff pending_for_def)

lemma enqueue_ok:
  assumes "enqueue_run_command cmd_id r t p rows = Some (i, rows')" and "cmd_id \<notin> cm_id ` set rows"
    and "distinct (map cm_id rows)" and "one_pending rows"
  shows "distinct (map cm_id rows') \<and> one_pending rows' \<and> (\<forall>j. consumed rows j \<longrightarrow> consumed rows' j)"
proof (cases "find (pending_for r t) rows")
  case None
  then have rows': "rows' = rows @ [\<lparr>cm_id = cmd_id, cm_run = r, cm_type = t, cm_payload = p, cm_pending = True\<rparr>]"
    using assms(1) by (auto simp: enqueue_run_command_def split: if_splits)
  from None [unfolded find_pending] assms(2-4) show ?thesis
    by (auto simp: rows' one_pending_def consumed_def)
next
  case (Some c)
  let ?f = "\<lambda>d. if pending_for r t d then d\<lparr>cm_payload := p\<rparr> else d"
  have rows': "rows' = map ?f rows"
    using assms(1) Some by (auto simp: enqueue_run_command_def split: if_splits)
  have keep: "cm_id (?f d) = cm_id d \<and> cm_run (?f d) = cm_run d \<and> cm_type (?f d) = cm_type d \<and> cm_pending (?f d) = cm_pending d" for d
    by simp
  have "map cm_id rows' = map cm_id rows" by (simp add: rows')
  moreover have "map (\<lambda>c. (cm_run c, cm_type c)) (filter cm_pending rows') = map (\<lambda>c. (cm_run c, cm_type c)) (filter cm_pending rows)"
    unfolding rows' by (induction rows) auto
  moreover have "\<forall>j. consumed rows j \<longrightarrow> consumed rows' j"
    unfolding consumed_def rows' using keep by (metis (no_types, lifting) image_eqI list.set_map)
  ultimately show ?thesis using assms(3,4) by (simp add: one_pending_def)
qed

lemma mark_ok:
  assumes "distinct (map cm_id rows)" and "one_pending rows"
  shows "distinct (map cm_id (snd (mark_consumed i rows)))" and "one_pending (snd (mark_consumed i rows))"
    and "consumed rows j \<Longrightarrow> consumed (snd (mark_consumed i rows)) j"
    and "fst (mark_consumed i rows) \<Longrightarrow> \<not> consumed rows i \<and> consumed (snd (mark_consumed i rows)) i"
proof -
  let ?f = "\<lambda>c. if cm_id c = i then c\<lparr>cm_pending := False\<rparr> else c"
  have eq: "snd (mark_consumed i rows) = map ?f rows" by (simp add: mark_consumed_def)
  have "map cm_id (map ?f rows) = map cm_id rows" by simp
  with assms(1) show "distinct (map cm_id (snd (mark_consumed i rows)))" by (simp only: eq)
  have "one_pending (map ?f rows)" if "one_pending rows" for rows
    using that by (induction rows) (auto simp: one_pending_def split: if_splits)
  with assms(2) show "one_pending (snd (mark_consumed i rows))" by (simp only: eq)
  show "consumed (snd (mark_consumed i rows)) j" if "consumed rows j"
    using that unfolding consumed_def eq by force
  assume "fst (mark_consumed i rows)"
  then obtain c where c: "c \<in> set rows" "cm_id c = i" "cm_pending c"
    by (auto simp: mark_consumed_def list_ex_iff)
  have "c' = c" if "c' \<in> set rows" "cm_id c' = i" for c'
    by (rule inj_onD [of cm_id "set rows"]) (use assms(1) c(1,2) that in \<open>simp_all add: distinct_map\<close>)
  with c have "\<not> consumed rows i" unfolding consumed_def by blast
  moreover have "consumed (snd (mark_consumed i rows)) i"
    unfolding consumed_def eq set_map by (rule bexI [OF _ imageI [OF c(1)]]) (simp add: c(2))
  ultimately show "\<not> consumed rows i \<and> consumed (snd (mark_consumed i rows)) i" by blast
qed

lemma command_step_ok: "command_step is_uuid s s' \<Longrightarrow> commands_ok s \<Longrightarrow> commands_ok s'"
proof (induction rule: command_step.induct)
  case (api cmd_id s r t p i rows)
  with enqueue_ok [OF api(2,1)] show ?case by (auto simp: commands_ok_def)
next
  case (reads s k owner runner run_id)
  then show ?case by (simp add: commands_ok_def)
next
  case (handles s k row others sent rows)
  then have ok: "distinct (map cm_id (cs_rows s))" "one_pending (cs_rows s)" by (simp_all add: commands_ok_def)
  note m = mark_ok [OF ok, where i = "cm_id row"]
  have rows: "rows = snd (mark_consumed (cm_id row) (cs_rows s))"
    and sent: "sent = (if fst (mark_consumed (cm_id row) (cs_rows s)) then Some (dispatch_command is_uuid row) else None)"
    using handles(2) by (auto simp: consume_row_def split: prod.splits)
  show ?case
  proof (cases "fst (mark_consumed (cm_id row) (cs_rows s))")
    case True
    from m(4) [OF this] handles(3) have "cm_id row \<notin> set (map fst (cs_sent s))" by (auto simp: commands_ok_def)
    with handles(3) True m show ?thesis by (auto simp: commands_ok_def rows sent)
  next
    case False
    with handles(3) m show ?thesis by (auto simp: commands_ok_def rows sent)
  qed
qed

text \<open>
  C12: a command is dispatched at most once. However the api, the woken listeners and the polls of
  all runners interleave, also while runs change hands, no command id is dispatched twice, what
  was dispatched is consumed, and a run has at most one pending command of each type.
\<close>

theorem command_dispatched_once:
  assumes "reach no_commands (command_step is_uuid) s"
  shows "distinct (map fst (cs_sent s)) \<and> one_pending (cs_rows s)
    \<and> (\<forall>i \<in> set (map fst (cs_sent s)). \<forall>c \<in> set (cs_rows s). cm_id c = i \<longrightarrow> \<not> cm_pending c)"
proof -
  have ok: "commands_ok s"
    using assms
  proof (rule reach_invariant)
    show "commands_ok t" if "no_commands t" for t
      using that by (simp add: no_commands_def commands_ok_def one_pending_def)
  qed (rule command_step_ok)
  have "\<not> cm_pending c" if i: "i \<in> set (map fst (cs_sent s))" and c: "c \<in> set (cs_rows s)" "cm_id c = i" for i c
  proof -
    from ok i obtain d where d: "d \<in> set (cs_rows s)" "cm_id d = i" "\<not> cm_pending d"
      by (auto simp: commands_ok_def consumed_def)
    have "d = c"
      by (rule inj_onD [of cm_id "set (cs_rows s)"]) (use ok c d(1,2) in \<open>simp_all add: commands_ok_def distinct_map\<close>)
    with d show ?thesis by simp
  qed
  with ok show ?thesis by (simp add: commands_ok_def)
qed

definition sample_command :: command_row where
  "sample_command = \<lparr>cm_id = ''i1'', cm_run = ''r'', cm_type = ''cancel'', cm_payload = [(''force'', JBool False)],
     cm_pending = True\<rparr>"

definition before_commands :: command_state where
  "before_commands = \<lparr>cs_rows = [], cs_held = (\<lambda>_. []), cs_sent = []\<rparr>"

text \<open>Two consumers read the same row; one dispatches it, the other finds it marked.\<close>

definition after_commands :: command_state where
  "after_commands = \<lparr>cs_rows = [sample_command\<lparr>cm_pending := False\<rparr>], cs_held = (\<lambda>k. []),
     cs_sent = [(''i1'', Some (RequestCancel False))]\<rparr>"

lemma sample_commands_reached: "reach no_commands (command_step (\<lambda>_. True)) after_commands"
proof -
  let ?R = "reach no_commands (command_step (\<lambda>_. True))"
  define s1 where "s1 = before_commands\<lparr>cs_rows := [sample_command]\<rparr>"
  define s2 where "s2 = s1\<lparr>cs_held := (cs_held s1)(0 := [sample_command])\<rparr>"
  define s3 where "s3 = s2\<lparr>cs_held := (cs_held s2)(1 := [sample_command])\<rparr>"
  define s4 where "s4 = s3\<lparr>cs_rows := [sample_command\<lparr>cm_pending := False\<rparr>], cs_held := (cs_held s3)(0 := []),
     cs_sent := cs_sent s3 @ [(''i1'', Some (RequestCancel False))]\<rparr>"
  have "?R before_commands" by (rule reach_start) (simp add: before_commands_def no_commands_def)
  moreover have "command_step (\<lambda>_. True) before_commands s1"
    unfolding s1_def by (rule command_step.api [where cmd_id = "''i1''" and run_id = "''r''" and command_type = "''cancel''"
          and payload = "[(''force'', JBool False)]" and i = "''i1''"])
      (simp_all add: before_commands_def enqueue_run_command_def COMMAND_TYPES_def sample_command_def)
  ultimately have r1: "?R s1" by (rule reach_step)
  have sel: "select_pending (\<lambda>_. Some ''w'') ''w'' None [sample_command] = [sample_command]"
    by (simp add: select_pending_def sample_command_def)
  have "command_step (\<lambda>_. True) s1 s2"
    using command_step.reads [of s1 0 _ "\<lambda>_. Some ''w''" "''w''" None] sel
    by (simp add: s2_def s1_def before_commands_def)
  with r1 have r2: "?R s2" by (rule reach_step)
  have "command_step (\<lambda>_. True) s2 s3"
    using command_step.reads [of s2 1 _ "\<lambda>_. Some ''w''" "''w''" None] sel
    by (simp add: s3_def s2_def s1_def before_commands_def)
  with r2 have r3: "?R s3" by (rule reach_step)
  have one: "consume_row (\<lambda>_. True) sample_command [sample_command]
      = (Some (Some (RequestCancel False)), [sample_command\<lparr>cm_pending := False\<rparr>])"
    by (simp add: consume_row_def mark_consumed_def dispatch_command_def sample_command_def Let_def)
  have "command_step (\<lambda>_. True) s3 s4"
    using command_step.handles [of s3 0 sample_command "[]" "\<lambda>_. True"] one
    by (simp add: s4_def s3_def s2_def s1_def before_commands_def sample_command_def)
  with r3 have r4: "?R s4" by (rule reach_step)
  have two: "consume_row (\<lambda>_. True) sample_command [sample_command\<lparr>cm_pending := False\<rparr>]
      = (None, [sample_command\<lparr>cm_pending := False\<rparr>])"
    by (simp add: consume_row_def mark_consumed_def sample_command_def)
  define s5 where "s5 = s4\<lparr>cs_rows := [sample_command\<lparr>cm_pending := False\<rparr>], cs_held := (cs_held s4)(1 := []),
     cs_sent := cs_sent s4 @ []\<rparr>"
  have "command_step (\<lambda>_. True) s4 s5"
    using command_step.handles [of s4 1 sample_command "[]" "\<lambda>_. True"] two
    by (simp add: s5_def s4_def s3_def s2_def s1_def before_commands_def)
  moreover have "s5 = after_commands"
    by (simp add: s5_def s4_def s3_def s2_def s1_def before_commands_def after_commands_def fun_eq_iff)
  ultimately have "command_step (\<lambda>_. True) s4 after_commands" by simp
  with r4 show ?thesis by (rule reach_step)
qed

lemma command_dispatched_once_witness:
  "distinct (map fst (cs_sent after_commands)) \<and> one_pending (cs_rows after_commands)"
  using command_dispatched_once [OF sample_commands_reached] by blast

text \<open>
  C39: a command that is sent again while a consumer already holds the first is lost. The api
  updates the pending row and returns its id; the consumer then marks that row consumed and
  dispatches what it had read. The new payload is dispatched by no one: nothing is pending for
  the run and the type any more.
\<close>

theorem updated_command_is_lost:
  assumes "c \<in> set rows" and "cm_pending c" and "distinct (map cm_id rows)" and "one_pending rows"
    and "enqueue_run_command cmd_id (cm_run c) (cm_type c) payload rows = Some (i, rows')"
  shows "i = cm_id c
    \<and> fst (consume_row is_uuid c rows') = Some (dispatch_command is_uuid c)
    \<and> find (pending_for (cm_run c) (cm_type c)) (snd (consume_row is_uuid c rows')) = None"
proof -
  have p: "pending_for (cm_run c) (cm_type c) c" using assms(2) by (simp add: pending_for_def)
  have unique: "d = c" if "d \<in> set rows" "pending_for (cm_run c) (cm_type c) d" for d
  proof -
    have "inj_on (\<lambda>c. (cm_run c, cm_type c)) (set (filter cm_pending rows))"
      using assms(4) by (simp add: one_pending_def distinct_map)
    with that p assms(1) show ?thesis by (auto simp: pending_for_def dest: inj_onD)
  qed
  obtain c' where c': "find (pending_for (cm_run c) (cm_type c)) rows = Some c'"
    using assms(1) p by (cases "find (pending_for (cm_run c) (cm_type c)) rows") (auto simp: find_None_iff)
  then have "c' = c" using unique by (auto simp: find_Some_iff)
  with assms(5) c' have out: "i = cm_id c" "rows' = map (\<lambda>d. if pending_for (cm_run c) (cm_type c) d
      then d\<lparr>cm_payload := payload\<rparr> else d) rows"
    by (auto simp: enqueue_run_command_def split: if_splits)
  have "list_ex (\<lambda>d. cm_id d = cm_id c \<and> cm_pending d) rows'"
  proof -
    have "cm_id d = cm_id c \<and> cm_pending d" if "d = (if pending_for (cm_run c) (cm_type c) c then c\<lparr>cm_payload := payload\<rparr> else c)" for d
      using that assms(2) by simp
    moreover have "(if pending_for (cm_run c) (cm_type c) c then c\<lparr>cm_payload := payload\<rparr> else c) \<in> set rows'"
      unfolding out(2) set_map using assms(1) by (rule imageI)
    ultimately show ?thesis unfolding list_ex_iff by blast
  qed
  moreover have "find (pending_for (cm_run c) (cm_type c)) (snd (mark_consumed (cm_id c) rows')) = None"
    using unique by (auto simp: find_None_iff mark_consumed_def out pending_for_def split: if_splits)
  ultimately show ?thesis
    by (simp add: out consume_row_def) (simp add: mark_consumed_def out)
qed

lemma updated_command_is_lost_witness:
  "\<exists>rows'. enqueue_run_command ''i2'' ''r'' ''cancel'' [(''force'', JBool True)] [sample_command] = Some (''i1'', rows')
     \<and> fst (consume_row (\<lambda>_. True) sample_command rows') = Some (Some (RequestCancel False))"
proof -
  obtain rows' where e: "enqueue_run_command ''i2'' (cm_run sample_command) (cm_type sample_command) [(''force'', JBool True)]
      [sample_command] = Some (''i1'', rows')"
    by (simp add: enqueue_run_command_def COMMAND_TYPES_def sample_command_def pending_for_def)
  have p: "sample_command \<in> set [sample_command]" "cm_pending sample_command" "distinct (map cm_id [sample_command])"
    "one_pending [sample_command]"
    by (simp_all add: sample_command_def one_pending_def)
  have "dispatch_command (\<lambda>_. True) sample_command = Some (RequestCancel False)"
    by (simp add: dispatch_command_def sample_command_def Let_def)
  with updated_command_is_lost [OF p e, of "\<lambda>_. True"] e show ?thesis by (simp add: sample_command_def)
qed

end
