(* ===== verification/Outbox.thy ===== *)
theory Outbox
  imports PyValue
begin

text \<open>
  The queue \<open>outbox_jobs\<close> of the api (\<open>services/outbox.py\<close>), the worker that empties it
  (\<open>worker/main.py\<close>) and the dispatch of a job (\<open>services/jobs/handlers.py\<close>). The table is a list
  of rows in the order of \<open>created_at\<close>, each SQL statement an update of it, times are whole
  seconds. The handlers are a parameter: an error text, or None when the job succeeds.
\<close>

section \<open>The table\<close>

datatype job_status = JPending | JRetry | JProcessing | JDone | JFailed

record job =
  jb_id :: str
  jb_type :: str
  jb_payload :: dict
  jb_status :: job_status
  jb_attempts :: int
  jb_max :: int
  jb_error :: "str option"
  jb_available :: int
  jb_updated :: int

definition enqueue_job :: "str \<Rightarrow> int \<Rightarrow> str \<Rightarrow> dict \<Rightarrow> int option \<Rightarrow> int \<Rightarrow> job list \<Rightarrow> job list" where
  "enqueue_job job_id now job_type payload available_at max_attempts rows =
     rows @ [\<lparr>jb_id = job_id, jb_type = job_type, jb_payload = payload, jb_status = JPending, jb_attempts = 0,
       jb_max = max_attempts, jb_error = None,
       jb_available = (case available_at of None \<Rightarrow> now | Some t \<Rightarrow> t), jb_updated = now\<rparr>]"

text \<open>The jobs after a turn: the refresh, those its profile names, the summary.\<close>

definition turn_job_types :: "json list \<Rightarrow> str list" where
  "turn_job_types post_turn_jobs = [''projection.refresh'']
     @ filter (\<lambda>name. name \<noteq> []) (map (\<lambda>t. strip (py_str (py_or t (JStr [])))) post_turn_jobs) @ [''session.summary'']"

definition enqueue_turn_jobs :: "(nat \<Rightarrow> str) \<Rightarrow> int \<Rightarrow> str \<Rightarrow> json list \<Rightarrow> job list \<Rightarrow> job list" where
  "enqueue_turn_jobs new_id now turn_id post_turn_jobs rows =
     foldl (\<lambda>rs (k, t). enqueue_job (new_id k) now t [(''turn_id'', JStr turn_id)] None 5 rs) rows
       (zip [0..<length (turn_job_types post_turn_jobs)] (turn_job_types post_turn_jobs))"

definition PROCESSING_STALE_MINUTES :: int where
  "PROCESSING_STALE_MINUTES = 10"

definition stale :: "int \<Rightarrow> job \<Rightarrow> bool" where
  "stale now j \<longleftrightarrow> jb_status j = JProcessing \<and> jb_updated j < now - 60 * PROCESSING_STALE_MINUTES"

definition requeue_stale_processing :: "int \<Rightarrow> job list \<Rightarrow> nat \<times> job list" where
  "requeue_stale_processing now rows =
     (length (filter (stale now) rows),
      map (\<lambda>j. if stale now j then j\<lparr>jb_status := JRetry, jb_available := now, jb_updated := now\<rparr> else j) rows)"

definition job_claimable :: "int \<Rightarrow> job \<Rightarrow> bool" where
  "job_claimable now j \<longleftrightarrow> jb_status j \<in> {JPending, JRetry} \<and> jb_available j \<le> now \<and> jb_type j \<noteq> ''work_gc''"

text \<open>Rows another transaction holds are skipped: \<open>FOR UPDATE SKIP LOCKED\<close>.\<close>

definition claim_jobs :: "int \<Rightarrow> str set \<Rightarrow> nat \<Rightarrow> job list \<Rightarrow> job list \<times> job list" where
  "claim_jobs now locked limit rows =
     (let claimed = take limit (filter (\<lambda>j. job_claimable now j \<and> jb_id j \<notin> locked) rows) in
      (claimed, map (\<lambda>j. if jb_id j \<in> jb_id ` set claimed then j\<lparr>jb_status := JProcessing, jb_updated := now\<rparr> else j) rows))"

definition mark_done :: "int \<Rightarrow> str \<Rightarrow> job list \<Rightarrow> job list" where
  "mark_done now job_id rows =
     map (\<lambda>j. if jb_id j = job_id then j\<lparr>jb_status := JDone, jb_updated := now\<rparr> else j) rows"

definition mark_failed :: "int \<Rightarrow> str \<Rightarrow> str \<Rightarrow> int \<Rightarrow> int \<Rightarrow> job list \<Rightarrow> job list" where
  "mark_failed now job_id error attempts max_attempts rows =
     (let last_try = (attempts + 1 \<ge> max_attempts);
          delay = (if last_try then 0 else min 60 (2 ^ nat attempts))
      in map (\<lambda>j. if jb_id j = job_id
           then j\<lparr>jb_status := (if last_try then JFailed else JRetry), jb_attempts := attempts + 1,
                  jb_error := Some (take 1024 error), jb_available := now + delay, jb_updated := now\<rparr>
           else j) rows)"

section \<open>The worker\<close>

definition HANDLERS :: "str list" where
  "HANDLERS = [''projection.refresh'', ''sources.index_sync'', ''session.summary'', ''verify.sample'', ''critique.batch'']"

definition dispatch_job :: "(str \<Rightarrow> dict \<Rightarrow> str option) \<Rightarrow> str \<Rightarrow> dict \<Rightarrow> str option" where
  "dispatch_job handle job_type payload =
     (if job_type \<in> set HANDLERS then handle job_type payload else Some (''unknown job type: '' @ job_type))"

text \<open>A claimed job is finished with the attempts it had when it was claimed.\<close>

definition finish_job :: "(str \<Rightarrow> dict \<Rightarrow> str option) \<Rightarrow> int \<Rightarrow> job \<Rightarrow> job list \<Rightarrow> job list" where
  "finish_job handle now j rows = (case dispatch_job handle (jb_type j) (jb_payload j) of
      None \<Rightarrow> mark_done now (jb_id j) rows
    | Some error \<Rightarrow> mark_failed now (jb_id j) error (jb_attempts j) (jb_max j) rows)"

definition process_batch :: "(str \<Rightarrow> dict \<Rightarrow> str option) \<Rightarrow> int \<Rightarrow> str set \<Rightarrow> nat \<Rightarrow> job list \<Rightarrow> nat \<times> job list" where
  "process_batch handle now locked batch_size rows =
     (let (claimed, rows1) = claim_jobs now locked batch_size rows
      in (length claimed, foldl (\<lambda>rs j. finish_job handle now j rs) rows1 claimed))"

section \<open>Jobs in the hands of workers\<close>

text \<open>
  The queue with its clock, the jobs the workers hold (worker, the job as it was claimed, the time
  of the claim) and the failures reported so far. Any number of workers act in any order; each
  step is one statement, and a worker reports only what it holds. A worker may also die.
  Time passes only as far as every worker keeps within ten minutes of its claim, the time after
  which the sweep takes a job away; \<open>late_failure_reopens_done_job\<close> shows what happens otherwise.
\<close>

record queue_state =
  qs_rows :: "job list"
  qs_now :: int
  qs_hands :: "(str \<times> job \<times> int) set"
  qs_failures :: "str list"

definition queue_init :: "queue_state \<Rightarrow> bool" where
  "queue_init s \<longleftrightarrow> qs_rows s = [] \<and> qs_hands s = {} \<and> qs_failures s = []"

definition failure_of :: "(str \<Rightarrow> dict \<Rightarrow> str option) \<Rightarrow> job \<Rightarrow> str list" where
  "failure_of handle j = (if dispatch_job handle (jb_type j) (jb_payload j) = None then [] else [jb_id j])"

inductive queue_step :: "queue_state \<Rightarrow> queue_state \<Rightarrow> bool" where
  Tick: "qs_now s \<le> t \<Longrightarrow> \<forall>(w, j, t0) \<in> qs_hands s. t \<le> t0 + 60 * PROCESSING_STALE_MINUTES
     \<Longrightarrow> queue_step s (s\<lparr>qs_now := t\<rparr>)"
| Enqueue: "i \<notin> jb_id ` set (qs_rows s) \<Longrightarrow> 0 < m
     \<Longrightarrow> queue_step s (s\<lparr>qs_rows := enqueue_job i (qs_now s) t d a m (qs_rows s)\<rparr>)"
| Sweep: "queue_step s (s\<lparr>qs_rows := snd (requeue_stale_processing (qs_now s) (qs_rows s))\<rparr>)"
| Claim: "claim_jobs (qs_now s) locked n (qs_rows s) = (claimed, rows)
     \<Longrightarrow> queue_step s (s\<lparr>qs_rows := rows, qs_hands := qs_hands s \<union> (\<lambda>j. (w, j, qs_now s)) ` set claimed\<rparr>)"
| Report: "(w, j, t0) \<in> qs_hands s
     \<Longrightarrow> queue_step s (s\<lparr>qs_rows := finish_job handle (qs_now s) j (qs_rows s),
           qs_hands := qs_hands s - {(w, j, t0)}, qs_failures := qs_failures s @ failure_of handle j\<rparr>)"
| Die: "(w, j, t0) \<in> qs_hands s \<Longrightarrow> queue_step s (s\<lparr>qs_hands := qs_hands s - {(w, j, t0)}\<rparr>)"

text \<open>What a row shows: the failures reported for it, and that it may still be tried.\<close>

definition row_inv :: "str list \<Rightarrow> job \<Rightarrow> bool" where
  "row_inv failures j \<longleftrightarrow> jb_attempts j = int (count_list failures (jb_id j)) \<and> jb_attempts j \<le> jb_max j
     \<and> (jb_status j \<in> {JPending, JRetry, JProcessing} \<longrightarrow> jb_attempts j < jb_max j)"

text \<open>What a hand shows: the row is as the worker claimed it, and the time is not over.\<close>

definition hand_inv :: "int \<Rightarrow> job list \<Rightarrow> job \<Rightarrow> int \<Rightarrow> bool" where
  "hand_inv now rows j t \<longleftrightarrow> now \<le> t + 60 * PROCESSING_STALE_MINUTES
     \<and> j\<lparr>jb_status := JProcessing, jb_updated := t\<rparr> \<in> set rows"

definition rows_inv :: "str list \<Rightarrow> job list \<Rightarrow> bool" where
  "rows_inv failures rows \<longleftrightarrow> distinct (map jb_id rows) \<and> (\<forall>j \<in> set rows. row_inv failures j)
     \<and> set failures \<subseteq> jb_id ` set rows"

definition hands_inv :: "int \<Rightarrow> job list \<Rightarrow> (str \<times> job \<times> int) set \<Rightarrow> bool" where
  "hands_inv now rows H \<longleftrightarrow> (\<forall>w j t. (w, j, t) \<in> H \<longrightarrow> hand_inv now rows j t)
     \<and> (\<forall>w j t w' j' t'. (w, j, t) \<in> H \<longrightarrow> (w', j', t') \<in> H \<longrightarrow> jb_id j = jb_id j' \<longrightarrow> w = w' \<and> j = j' \<and> t = t')"

definition queue_inv :: "queue_state \<Rightarrow> bool" where
  "queue_inv s \<longleftrightarrow> rows_inv (qs_failures s) (qs_rows s) \<and> hands_inv (qs_now s) (qs_rows s) (qs_hands s)"

lemma same_row: "distinct (map jb_id rows) \<Longrightarrow> x \<in> set rows \<Longrightarrow> y \<in> set rows \<Longrightarrow> jb_id x = jb_id y \<Longrightarrow> x = y"
  by (auto simp: distinct_map inj_on_def)

text \<open>A job in somebody's hands is not claimable, and a statement that spares its row leaves it there.\<close>

lemma held_not_claimed:
  assumes "distinct (map jb_id rows)" and "hand_inv now rows j t"
  shows "jb_id j \<notin> jb_id ` set (fst (claim_jobs now' locked n rows))"
proof
  assume "jb_id j \<in> jb_id ` set (fst (claim_jobs now' locked n rows))"
  then obtain x where x: "x \<in> set rows" "jb_id x = jb_id j" "job_claimable now' x"
    by (auto simp: claim_jobs_def Let_def dest!: in_set_takeD)
  have "x = j\<lparr>jb_status := JProcessing, jb_updated := t\<rparr>"
    using assms(2) x(2) by (intro same_row [OF assms(1) x(1)]) (simp_all add: hand_inv_def)
  with x(3) show False by (simp add: job_claimable_def)
qed

lemma hand_map:
  assumes "hand_inv now rows j t" and "f (j\<lparr>jb_status := JProcessing, jb_updated := t\<rparr>) = j\<lparr>jb_status := JProcessing, jb_updated := t\<rparr>"
  shows "hand_inv now (map f rows) j t"
proof -
  have "f (j\<lparr>jb_status := JProcessing, jb_updated := t\<rparr>) \<in> set (map f rows)"
    using assms(1) unfolding hand_inv_def set_map by (intro imageI) simp
  with assms show ?thesis by (simp add: hand_inv_def)
qed

lemma rows_map:
  assumes "rows_inv failures rows" and "\<And>x. jb_id (f x) = jb_id x"
    and "\<And>x. x \<in> set rows \<Longrightarrow> row_inv failures' (f x)" and "set failures' \<subseteq> jb_id ` set rows"
  shows "rows_inv failures' (map f rows)"
proof -
  have ids: "map jb_id (map f rows) = map jb_id rows" using assms(2) by simp
  then have "jb_id ` set (map f rows) = jb_id ` set rows" by (metis list.set_map)
  with assms ids show ?thesis unfolding rows_inv_def by (auto simp: ids simp del: map_map)
qed

lemma hands_map:
  assumes "hands_inv now rows H"
    and "\<And>w j t. (w, j, t) \<in> H \<Longrightarrow> f (j\<lparr>jb_status := JProcessing, jb_updated := t\<rparr>) = j\<lparr>jb_status := JProcessing, jb_updated := t\<rparr>"
  shows "hands_inv now (map f rows) H"
  unfolding hands_inv_def
proof (intro conjI allI impI)
  fix w j t assume "(w, j, t) \<in> H"
  with assms show "hand_inv now (map f rows) j t"
    unfolding hands_inv_def by (intro hand_map) blast+
qed (use assms(1) in \<open>unfold hands_inv_def, blast+\<close>)

lemma hands_subset: "hands_inv now rows H \<Longrightarrow> H' \<subseteq> H \<Longrightarrow> hands_inv now rows H'"
  unfolding hands_inv_def by blast

lemma enqueue_inv:
  assumes "queue_inv s" and "i \<notin> jb_id ` set (qs_rows s)" and "0 < m"
  shows "queue_inv (s\<lparr>qs_rows := enqueue_job i now t d a m (qs_rows s)\<rparr>)"
proof -
  have "i \<notin> set (qs_failures s)" using assms(1,2) by (auto simp: queue_inv_def rows_inv_def)
  then have "count_list (qs_failures s) i = 0" by (simp add: count_list_0_iff)
  then have "rows_inv (qs_failures s) (enqueue_job i now t d a m (qs_rows s))"
    using assms by (auto simp: queue_inv_def rows_inv_def enqueue_job_def row_inv_def)
  moreover have "hands_inv (qs_now s) (enqueue_job i now t d a m (qs_rows s)) (qs_hands s)"
    using assms(1) by (simp add: queue_inv_def hands_inv_def hand_inv_def enqueue_job_def)
  ultimately show ?thesis by (simp add: queue_inv_def)
qed

lemma sweep_inv:
  assumes "queue_inv s"
  shows "queue_inv (s\<lparr>qs_rows := snd (requeue_stale_processing (qs_now s) (qs_rows s))\<rparr>)"
proof -
  let ?f = "\<lambda>j. if stale (qs_now s) j then j\<lparr>jb_status := JRetry, jb_available := qs_now s, jb_updated := qs_now s\<rparr> else j"
  have "rows_inv (qs_failures s) (map ?f (qs_rows s))"
    using assms by (intro rows_map) (auto simp: queue_inv_def rows_inv_def row_inv_def stale_def)
  moreover have "hands_inv (qs_now s) (map ?f (qs_rows s)) (qs_hands s)"
  proof (rule hands_map)
    fix w j t assume "(w, j, t) \<in> qs_hands s"
    with assms have "qs_now s \<le> t + 60 * PROCESSING_STALE_MINUTES"
      unfolding queue_inv_def hands_inv_def hand_inv_def by blast
    then show "?f (j\<lparr>jb_status := JProcessing, jb_updated := t\<rparr>) = j\<lparr>jb_status := JProcessing, jb_updated := t\<rparr>"
      by (simp add: stale_def)
  qed (use assms in \<open>simp add: queue_inv_def\<close>)
  ultimately show ?thesis by (simp add: queue_inv_def requeue_stale_processing_def)
qed

lemma hand_out_inv:
  assumes "queue_inv s" and "claim_jobs (qs_now s) locked n (qs_rows s) = (claimed, rows)"
  shows "queue_inv (s\<lparr>qs_rows := rows, qs_hands := qs_hands s \<union> (\<lambda>j. (w, j, qs_now s)) ` set claimed\<rparr>)"
proof -
  let ?f = "\<lambda>j. if jb_id j \<in> jb_id ` set claimed then j\<lparr>jb_status := JProcessing, jb_updated := qs_now s\<rparr> else j"
  have rows: "rows = map ?f (qs_rows s)" and claimed: "claimed = fst (claim_jobs (qs_now s) locked n (qs_rows s))"
    using assms(2) by (auto simp: claim_jobs_def Let_def)
  have dist: "distinct (map jb_id (qs_rows s))" and hands: "hands_inv (qs_now s) (qs_rows s) (qs_hands s)"
    using assms(1) by (simp_all add: queue_inv_def rows_inv_def)
  have sub: "j \<in> set (qs_rows s) \<and> job_claimable (qs_now s) j" if "j \<in> set claimed" for j
    using that claimed by (auto simp: claim_jobs_def Let_def dest!: in_set_takeD)
  have free: "jb_id j \<notin> jb_id ` set claimed" if "(w', j, t) \<in> qs_hands s" for w' j t
    unfolding claimed using hands that by (intro held_not_claimed [OF dist]) (auto simp: hands_inv_def)
  have open_row: "x \<in> set claimed" if "x \<in> set (qs_rows s)" "jb_id x \<in> jb_id ` set claimed" for x
    using that sub same_row [OF dist] by blast
  have "row_inv (qs_failures s) (?f x)" if x: "x \<in> set (qs_rows s)" for x
  proof (cases "jb_id x \<in> jb_id ` set claimed")
    case True
    have "job_claimable (qs_now s) x" using sub open_row [OF x True] by blast
    moreover have "row_inv (qs_failures s) x" using assms(1) x by (simp add: queue_inv_def rows_inv_def)
    ultimately show ?thesis using True by (auto simp: row_inv_def job_claimable_def)
  qed (use assms(1) x in \<open>simp add: queue_inv_def rows_inv_def\<close>)
  then have "rows_inv (qs_failures s) rows"
    unfolding rows using assms(1) by (intro rows_map [of "qs_failures s"]) (simp_all add: queue_inv_def rows_inv_def)
  moreover have "hands_inv (qs_now s) rows (qs_hands s \<union> (\<lambda>j. (w, j, qs_now s)) ` set claimed)"
  proof -
    have old: "hands_inv (qs_now s) rows (qs_hands s)"
      unfolding rows using free by (intro hands_map [OF hands]) simp
    have "?f j \<in> set rows" if "j \<in> set claimed" for j
      using sub [OF that] unfolding rows by simp
    then have new: "hand_inv (qs_now s) rows j (qs_now s)" if "j \<in> set claimed" for j
      using that by (force simp: hand_inv_def PROCESSING_STALE_MINUTES_def)
    have one: "j = j'" if "j \<in> set claimed" "j' \<in> set claimed" "jb_id j = jb_id j'" for j j'
      using that sub same_row [OF dist] by blast
    have apart: "jb_id j \<noteq> jb_id j'" if "(w', j, t) \<in> qs_hands s" "j' \<in> set claimed" for w' j t j'
      using free [OF that(1)] that(2) by (metis imageI)
    show ?thesis unfolding hands_inv_def
    proof (intro conjI allI impI)
      fix w1 j t assume "(w1, j, t) \<in> qs_hands s \<union> (\<lambda>j. (w, j, qs_now s)) ` set claimed"
      with old new show "hand_inv (qs_now s) rows j t" unfolding hands_inv_def by blast
    next
      fix w1 j t w2 j' t'
      assume a: "(w1, j, t) \<in> qs_hands s \<union> (\<lambda>j. (w, j, qs_now s)) ` set claimed"
        "(w2, j', t') \<in> qs_hands s \<union> (\<lambda>j. (w, j, qs_now s)) ` set claimed" "jb_id j = jb_id j'"
      then consider "(w1, j, t) \<in> qs_hands s" "(w2, j', t') \<in> qs_hands s"
        | "(w1, j, t) \<in> qs_hands s" "j' \<in> set claimed" | "j \<in> set claimed" "(w2, j', t') \<in> qs_hands s"
        | "j \<in> set claimed" "j' \<in> set claimed" "w1 = w" "w2 = w" "t = qs_now s" "t' = qs_now s" by blast
      then have "w1 = w2 \<and> j = j' \<and> t = t'"
      proof cases
        case 1
        with old a(3) show ?thesis unfolding hands_inv_def by blast
      next
        case 2
        from apart [OF this] a(3) show ?thesis by simp
      next
        case 3
        from apart [OF this(2,1)] a(3) show ?thesis by simp
      next
        case 4
        with one a(3) show ?thesis by blast
      qed
      then show "w1 = w2" and "j = j'" and "t = t'" by simp_all
    qed
  qed
  ultimately show ?thesis by (simp add: queue_inv_def)
qed

text \<open>A report changes the row of its job alone, and counts a failure there.\<close>

definition finished :: "(str \<Rightarrow> dict \<Rightarrow> str option) \<Rightarrow> int \<Rightarrow> job \<Rightarrow> job \<Rightarrow> job" where
  "finished handle now j x = (case dispatch_job handle (jb_type j) (jb_payload j) of
      None \<Rightarrow> x\<lparr>jb_status := JDone, jb_updated := now\<rparr>
    | Some e \<Rightarrow> x\<lparr>jb_status := (if jb_attempts j + 1 \<ge> jb_max j then JFailed else JRetry),
        jb_attempts := jb_attempts j + 1, jb_error := Some (take 1024 e),
        jb_available := now + (if jb_attempts j + 1 \<ge> jb_max j then 0 else min 60 (2 ^ nat (jb_attempts j))),
        jb_updated := now\<rparr>)"

lemma finish_job_map:
  "finish_job handle now j rows = map (\<lambda>x. if jb_id x = jb_id j then finished handle now j x else x) rows"
  by (simp add: finish_job_def finished_def mark_done_def mark_failed_def Let_def split: option.split)

lemma report_inv:
  assumes "queue_inv s" and "(w, j, t0) \<in> qs_hands s"
  shows "queue_inv (s\<lparr>qs_rows := finish_job handle (qs_now s) j (qs_rows s),
     qs_hands := qs_hands s - {(w, j, t0)}, qs_failures := qs_failures s @ failure_of handle j\<rparr>)"
proof -
  let ?f = "\<lambda>x. if jb_id x = jb_id j then finished handle (qs_now s) j x else x"
  let ?row = "j\<lparr>jb_status := JProcessing, jb_updated := t0\<rparr>" and ?fs = "qs_failures s @ failure_of handle j"
  have dist: "distinct (map jb_id (qs_rows s))" and hands: "hands_inv (qs_now s) (qs_rows s) (qs_hands s)"
    using assms(1) by (simp_all add: queue_inv_def rows_inv_def)
  have row: "?row \<in> set (qs_rows s)"
    using hands assms(2) unfolding hands_inv_def hand_inv_def by blast
  have rinv: "row_inv (qs_failures s) ?row" using assms(1) row unfolding queue_inv_def rows_inv_def by blast
  have "row_inv ?fs (?f x)" if x: "x \<in> set (qs_rows s)" for x
  proof (cases "jb_id x = jb_id j")
    case True
    then have xr: "x = ?row" using same_row [OF dist x row] by simp
    show ?thesis
      using rinv unfolding xr
      by (cases "dispatch_job handle (jb_type j) (jb_payload j)")
        (simp_all add: row_inv_def finished_def failure_of_def)
  next
    case False
    then have "count_list ?fs (jb_id x) = count_list (qs_failures s) (jb_id x)"
      by (auto simp: failure_of_def)
    moreover have "row_inv (qs_failures s) x" using assms(1) x by (simp add: queue_inv_def rows_inv_def)
    ultimately show ?thesis using False by (auto simp: row_inv_def)
  qed
  moreover have "set ?fs \<subseteq> jb_id ` set (qs_rows s)"
  proof -
    have "jb_id ?row \<in> jb_id ` set (qs_rows s)" using row by (rule imageI)
    then have "jb_id j \<in> jb_id ` set (qs_rows s)" by simp
    with assms(1) show ?thesis by (auto simp: queue_inv_def rows_inv_def failure_of_def)
  qed
  ultimately have "rows_inv ?fs (map ?f (qs_rows s))"
    using assms(1) by (intro rows_map [of "qs_failures s"])
      (auto simp: queue_inv_def finished_def split: option.split)
  moreover have "hands_inv (qs_now s) (map ?f (qs_rows s)) (qs_hands s - {(w, j, t0)})"
  proof (rule hands_map)
    show "hands_inv (qs_now s) (qs_rows s) (qs_hands s - {(w, j, t0)})"
      by (rule hands_subset [OF hands]) blast
    fix w' j' t' assume "(w', j', t') \<in> qs_hands s - {(w, j, t0)}"
    with hands assms(2) have "jb_id j' \<noteq> jb_id j" unfolding hands_inv_def by blast
    then show "?f (j'\<lparr>jb_status := JProcessing, jb_updated := t'\<rparr>) = j'\<lparr>jb_status := JProcessing, jb_updated := t'\<rparr>"
      by simp
  qed
  ultimately show ?thesis by (simp add: queue_inv_def finish_job_map)
qed

lemma queue_step_inv: "queue_step s s' \<Longrightarrow> queue_inv s \<Longrightarrow> queue_inv s'"
proof (induction rule: queue_step.induct)
  case (Tick s t)
  then show ?case by (fastforce simp: queue_inv_def hands_inv_def hand_inv_def)
next
  case (Die w j t0 s)
  then show ?case using hands_subset by (fastforce simp: queue_inv_def)
qed (auto intro: enqueue_inv sweep_inv hand_out_inv report_inv)

lemma queue_reach: "reach queue_init queue_step s \<Longrightarrow> queue_inv s"
proof (erule reach_invariant)
  show "queue_init s \<Longrightarrow> queue_inv s" for s
    by (simp add: queue_init_def queue_inv_def rows_inv_def hands_inv_def)
qed (rule queue_step_inv)

text \<open>
  C26: a claimed job has one worker. While every worker reports or dies within ten minutes of its
  claim, whatever the api, the sweep and the other workers do: no job is in the hands of two
  workers or twice in one's, a held job's row is in \<open>processing\<close> as it was claimed, and no claim hands it out.
\<close>

theorem claimed_job_is_exclusive:
  assumes "reach queue_init queue_step s" and "(w, j, t) \<in> qs_hands s"
  shows "((w', j', t') \<in> qs_hands s \<and> jb_id j' = jb_id j \<longrightarrow> w' = w \<and> j' = j \<and> t' = t)
    \<and> j\<lparr>jb_status := JProcessing, jb_updated := t\<rparr> \<in> set (qs_rows s)
    \<and> jb_id j \<notin> jb_id ` set (fst (claim_jobs now locked n (qs_rows s)))"
proof -
  have inv: "rows_inv (qs_failures s) (qs_rows s)" "hands_inv (qs_now s) (qs_rows s) (qs_hands s)"
    using queue_reach [OF assms(1)] by (simp_all add: queue_inv_def)
  then have hand: "hand_inv (qs_now s) (qs_rows s) j t" and dist: "distinct (map jb_id (qs_rows s))"
    using assms(2) by (auto simp: hands_inv_def rows_inv_def)
  have "(w', j', t') \<in> qs_hands s \<and> jb_id j' = jb_id j \<longrightarrow> w' = w \<and> j' = j \<and> t' = t"
    using inv(2) assms(2) unfolding hands_inv_def by blast
  with hand held_not_claimed [OF dist hand] show ?thesis by (simp add: hand_inv_def)
qed


definition sample_jobs :: "job list" where
  "sample_jobs = enqueue_job ''j1'' 0 ''session.summary'' [] None 5 []"

abbreviation sample_job :: job where
  "sample_job \<equiv> \<lparr>jb_id = ''j1'', jb_type = ''session.summary'', jb_payload = [], jb_status = JPending, jb_attempts = 0,
     jb_max = 5, jb_error = None, jb_available = 0, jb_updated = 0\<rparr>"

definition sample_queue :: queue_state where
  "sample_queue = \<lparr>qs_rows = [sample_job\<lparr>jb_status := JProcessing\<rparr>], qs_now = 0,
     qs_hands = {(''w'', sample_job, 0)}, qs_failures = []\<rparr>"

lemma sample_queue_reachable: "reach queue_init queue_step sample_queue"
proof -
  let ?s0 = "sample_queue\<lparr>qs_rows := [], qs_hands := {}\<rparr>" and ?s1 = "sample_queue\<lparr>qs_rows := sample_jobs, qs_hands := {}\<rparr>"
  have "reach queue_init queue_step ?s0"
    by (rule reach.intros) (simp add: queue_init_def sample_queue_def)
  moreover have "queue_step ?s0 ?s1"
    using Enqueue [of "''j1''" ?s0 5 "''session.summary''" "[]" None] by (simp add: sample_jobs_def sample_queue_def)
  moreover have "queue_step ?s1 sample_queue"
  proof -
    have "claim_jobs (qs_now ?s1) {} 10 (qs_rows ?s1) = ([sample_job], [sample_job\<lparr>jb_status := JProcessing\<rparr>])"
      by (simp add: claim_jobs_def sample_jobs_def enqueue_job_def job_claimable_def sample_queue_def)
    from Claim [OF this, of "''w''"] show ?thesis by (simp add: sample_queue_def)
  qed
  ultimately show ?thesis by (metis reach.intros(2))
qed

lemma claimed_job_is_exclusive_witness:
  "(''w'', sample_job, 0) \<in> qs_hands sample_queue
   \<and> ''j1'' \<notin> jb_id ` set (fst (claim_jobs 900 {} 10 (qs_rows sample_queue)))"
  using claimed_job_is_exclusive [OF sample_queue_reachable, of "''w''" sample_job 0] by (simp add: sample_queue_def)


section \<open>Failures\<close>

text \<open>A worker that dies with its job, and the sweep that finds it.\<close>

definition crash_round :: "int \<Rightarrow> job list \<Rightarrow> job list" where
  "crash_round t rows = snd (requeue_stale_processing (t + 601) (snd (claim_jobs t {} 1 rows)))"

fun crash_rounds :: "nat \<Rightarrow> int \<Rightarrow> job list \<Rightarrow> job list" where
  "crash_rounds 0 t rows = rows"
| "crash_rounds (Suc k) t rows = crash_rounds k (t + 601) (crash_round t rows)"

text \<open>
  A job that kills its worker is run for ever. The sweep does not count the attempt, so after
  any number of crashes the job has the attempts it began with and is claimed again.
\<close>

theorem crashing_job_never_fails:
  assumes "job_claimable t j"
  shows "\<exists>j'. crash_rounds k t [j] = [j'] \<and> job_claimable (t + 601 * int k) j' \<and> jb_attempts j' = jb_attempts j"
  using assms
proof (induction k arbitrary: t j)
  case (Suc k)
  have "crash_round t [j] = [j\<lparr>jb_status := JRetry, jb_available := t + 601, jb_updated := t + 601\<rparr>]"
    using Suc.prems by (simp add: crash_round_def claim_jobs_def requeue_stale_processing_def stale_def PROCESSING_STALE_MINUTES_def)
  moreover have "job_claimable (t + 601) (j\<lparr>jb_status := JRetry, jb_available := t + 601, jb_updated := t + 601\<rparr>)"
    using Suc.prems by (simp add: job_claimable_def)
  ultimately show ?case using Suc.IH by (fastforce simp: algebra_simps)
qed simp

lemma crashing_job_never_fails_witness:
  "\<exists>j'. crash_rounds 100 0 sample_jobs = [j'] \<and> job_claimable 60100 j' \<and> jb_attempts j' = 0"
  using crashing_job_never_fails [of 0 "\<lparr>jb_id = ''j1'', jb_type = ''session.summary'', jb_payload = [], jb_status = JPending,
    jb_attempts = 0, jb_max = 5, jb_error = None, jb_available = 0, jb_updated = 0\<rparr>" 100]
  by (simp add: sample_jobs_def enqueue_job_def job_claimable_def)

text \<open>
  A finished job can run again. The statement that records a failure looks at the id alone:
  when a slow worker, whose job was handed to another in the meantime, fails at last, a job that
  the other has done goes back to \<open>retry\<close> and is claimed within a minute.
\<close>

theorem late_failure_reopens_done_job:
  assumes "j \<in> set rows" and "jb_type j \<noteq> ''work_gc''" and "attempts + 1 < jb_max j"
  shows "\<exists>j'. j' \<in> set (mark_failed now (jb_id j) error attempts (jb_max j) (mark_done earlier (jb_id j) rows))
    \<and> jb_id j' = jb_id j \<and> jb_status j' = JRetry \<and> job_claimable (now + 60) j'"
proof -
  let ?j = "j\<lparr>jb_status := JRetry, jb_attempts := attempts + 1, jb_error := Some (take 1024 error),
    jb_available := now + min 60 (2 ^ nat attempts), jb_updated := now\<rparr>"
  have "?j \<in> set (mark_failed now (jb_id j) error attempts (jb_max j) (mark_done earlier (jb_id j) rows))"
    using assms by (force simp: mark_failed_def mark_done_def Let_def)
  moreover have "job_claimable (now + 60) ?j" using assms(2) by (simp add: job_claimable_def)
  ultimately show ?thesis by (intro exI [of _ ?j]) simp
qed

lemma late_failure_reopens_done_job_witness:
  "\<exists>j' \<in> set (mark_failed 700 ''j1'' ''late'' 0 5 (mark_done 650 ''j1'' sample_jobs)). jb_status j' = JRetry"
  using late_failure_reopens_done_job [of "\<lparr>jb_id = ''j1'', jb_type = ''session.summary'', jb_payload = [], jb_status = JPending,
    jb_attempts = 0, jb_max = 5, jb_error = None, jb_available = 0, jb_updated = 0\<rparr>" sample_jobs 0 700 "''late''" 650]
  by (auto simp: sample_jobs_def enqueue_job_def)

end
