(* ===== verification/Checkpoint.thy ===== *)
theory Checkpoint
  imports AgentState "HOL-Library.Monad_Syntax" "HOL-Library.Char_ord" "HOL-Library.List_Lexorder"
begin

text \<open>
  The checkpoint of a turn: its codec (\<open>engine/checkpoint_codec.py\<close>), the table
  \<open>checkpoints\<close> (\<open>controller/checkpoint_store.py\<close>), and the checkpoint files of the writing
  host (\<open>writing_host/files.py\<close>, \<open>writing_host/schema.py\<close>). A turn that waits for the user is
  resumed from here, so what the codec forgets the turn forgets. None is an exception. A
  \<open>jsonb\<close> column may reorder the keys of an object, which the model leaves out, and so are the
  spellings of numbers that \<open>float\<close> and \<open>UUID\<close> accept in texts no code writes.
\<close>

section \<open>Reading a field\<close>

text \<open>
  \<open>int(data.get(k) or 0)\<close>, \<open>int(data.get(k, n))\<close>, \<open>bool(data.get(k, False))\<close>, \<open>str(data[k]) if
  data.get(k) else None\<close>, \<open>float(data.get(k) or 0.0)\<close>, and the two list comprehensions.
\<close>

definition int_or_zero :: "dict \<Rightarrow> str \<Rightarrow> int option" where
  "int_or_zero d k = py_int (py_or (dict_get d k) (JInt 0))"

definition int_or_default :: "dict \<Rightarrow> str \<Rightarrow> int \<Rightarrow> int option" where
  "int_or_default d k n = py_int (dict_get_default d k (JInt n))"

definition flag_of :: "dict \<Rightarrow> str \<Rightarrow> bool" where
  "flag_of d k = truthy (dict_get d k)"

definition text_or_none :: "dict \<Rightarrow> str \<Rightarrow> str option" where
  "text_or_none d k = (if truthy (dict_get d k) then Some (py_str (dict_get d k)) else None)"

definition text_or_default :: "dict \<Rightarrow> str \<Rightarrow> str \<Rightarrow> str" where
  "text_or_default d k s = py_str (py_or (dict_get d k) (JStr s))"

definition float_or_zero :: "dict \<Rightarrow> str \<Rightarrow> (int \<times> nat) option" where
  "float_or_zero d k = (case py_float (py_or (dict_get d k) (JDec 0 1)) of
      Some (JDec m e) \<Rightarrow> Some (m, e) | _ \<Rightarrow> None)"

definition items_of :: "dict \<Rightarrow> str \<Rightarrow> json list option" where
  "items_of d k = py_list (py_or (dict_get d k) (JList []))"

definition nonblank_texts :: "dict \<Rightarrow> str \<Rightarrow> str list option" where
  "nonblank_texts d k = map_option (\<lambda>xs. filter (\<lambda>s. strip s \<noteq> []) (map py_str xs)) (items_of d k)"

definition dict_items :: "dict \<Rightarrow> str \<Rightarrow> dict list option" where
  "dict_items d k = map_option (\<lambda>xs. concat (map (\<lambda>x. case x of JObj e \<Rightarrow> [e] | _ \<Rightarrow> []) xs)) (items_of d k)"

section \<open>Identifiers\<close>

fun remove_text :: "str \<Rightarrow> str \<Rightarrow> str" where
  "remove_text p [] = []"
| "remove_text p (c # cs) =
     (if p \<noteq> [] \<and> starts_with (c # cs) p then remove_text p (drop (length p - 1) cs) else c # remove_text p cs)"

definition hex_digits :: str where
  "hex_digits = ''0123456789abcdef''"

definition is_hex :: "char \<Rightarrow> bool" where
  "is_hex c \<longleftrightarrow> c \<in> set ''0123456789abcdefABCDEF''"

definition dashed :: "str \<Rightarrow> str" where
  "dashed h = take 8 h @ ''-'' @ take 4 (drop 8 h) @ ''-'' @ take 4 (drop 12 h) @ ''-'' @ take 4 (drop 16 h)
     @ ''-'' @ drop 20 h"

text \<open>\<open>str(UUID(s))\<close>: prefixes, braces and dashes are dropped, 32 hexadecimal digits must remain.\<close>

definition uuid_text :: "json \<Rightarrow> str option" where
  "uuid_text v = (case v of
      JStr s \<Rightarrow>
        (let h = filter (\<lambda>c. c \<noteq> CHR ''-'')
               (rstrip_chars ''{}'' (lstrip_chars ''{}'' (remove_text ''uuid:'' (remove_text ''urn:'' s))))
         in if length h = 32 \<and> (\<forall>c \<in> set h. is_hex c) then Some (dashed (lower h)) else None)
    | _ \<Rightarrow> None)"

definition uuid_field :: "dict \<Rightarrow> str \<Rightarrow> str option" where
  "uuid_field d k = Option.bind (map_of d k) uuid_text"

text \<open>A UUID as Python prints it.\<close>

definition uuid_ok :: "str \<Rightarrow> bool" where
  "uuid_ok s \<longleftrightarrow> (let h = filter (\<lambda>c. c \<noteq> CHR ''-'') s in
     length h = 32 \<and> set h \<subseteq> set hex_digits \<and> s = dashed h)"

section \<open>Snapshots of overwritten files\<close>

definition SNAPSHOT_BUDGET :: nat where
  "SNAPSHOT_BUDGET = 200000"

definition snapshot_text :: "json \<Rightarrow> str" where
  "snapshot_text value = (case value of
      JObj d \<Rightarrow> if ''b64'' \<in> fst ` set d then ''b64:'' @ str_field d ''b64'' else py_str value
    | _ \<Rightarrow> py_str value)"

text \<open>The loop over the items; a dict has distinct keys, so each step appends.\<close>

fun snapshot_items :: "nat \<Rightarrow> dict \<Rightarrow> dict" where
  "snapshot_items used [] = []"
| "snapshot_items used ((key, value) # rest) =
     (let txt = snapshot_text value
      in if used + length txt > SNAPSHOT_BUDGET then []
         else (key, JStr txt) # snapshot_items (used + length txt) rest)"

definition snapshot_payload :: "dict \<Rightarrow> dict" where
  "snapshot_payload raw = snapshot_items 0 raw"

definition snapshot_value :: "str \<Rightarrow> json" where
  "snapshot_value txt = (if starts_with txt ''b64:'' then JObj [(''b64'', JStr (drop 4 txt))] else JStr txt)"

definition snapshot_load :: "json \<Rightarrow> dict" where
  "snapshot_load raw = (case raw of
      JObj d \<Rightarrow> map (\<lambda>(key, value). (key, snapshot_value (py_str value))) d
    | _ \<Rightarrow> [])"

section \<open>Related tests\<close>

definition related_item :: "json \<Rightarrow> (str \<times> str) list" where
  "related_item item = (case item of
      JObj e \<Rightarrow> (let path = strip (str_field e ''path''); cmd = strip (str_field e ''command'')
                in if path = [] then [] else [(path, cmd)])
    | JStr s \<Rightarrow> if strip s = [] then [] else [(strip s, [])]
    | _ \<Rightarrow> [])"

definition related_union :: "json \<Rightarrow> (str \<times> str) list" where
  "related_union raw = (case raw of JList items \<Rightarrow> concat (map related_item items) | _ \<Rightarrow> [])"

section \<open>Writing a state\<close>

definition texts_json :: "str list \<Rightarrow> json" where
  "texts_json xs = JList (map JStr xs)"

definition option_json :: "str option \<Rightarrow> json" where
  "option_json x = (case x of None \<Rightarrow> JNull | Some s \<Rightarrow> JStr s)"

text \<open>\<open>float(x or 0.0)\<close>.\<close>

definition float_json :: "int \<times> nat \<Rightarrow> json" where
  "float_json x = (if fst x = 0 then JDec 0 1 else JDec (fst x) (snd x))"

definition usage_json :: "usage \<Rightarrow> json" where
  "usage_json u = JObj [(''input_tokens'', JInt (input_tokens u)), (''output_tokens'', JInt (output_tokens u)),
     (''cache_read_input_tokens'', JInt (cache_read_input_tokens u)),
     (''cache_creation_input_tokens'', JInt (cache_creation_input_tokens u))]"

definition budget_entries :: "agent_state \<Rightarrow> dict" where
  "budget_entries st =
     [(''turn_id'', JStr (turn_id st)), (''session_id'', JStr (session_id st)), (''run_id'', JStr (run_id st)),
      (''trace_id'', JStr (trace_id st)), (''scenario_id'', JStr (scenario_id (core st))),
      (''messages'', JList (messages (core st))), (''step_count'', JInt (step_count (core st))),
      (''max_steps'', JInt (max_steps (core st))), (''usage'', usage_json (turn_usage st)),
      (''cancelled'', JBool (cancelled (core st))), (''cancel_force'', JBool (cancel_force st)),
      (''cancelled_at_phase'', option_json (cancelled_at_phase st)),
      (''termination_reason'', JStr (termination_reason st)), (''budget_exceeded'', JBool (budget_exceeded st)),
      (''turn_token_budget'', JInt (turn_token_budget st)), (''max_input_tokens'', JInt (max_input_tokens st)),
      (''max_output_tokens'', JInt (max_output_tokens st)), (''fill_ratio_max'', float_json (fill_ratio_max st)),
      (''model_queue_wait_s'', float_json (model_queue_wait_s st)), (''pointerized_n'', JInt (pointerized_n st))]"

definition policy_entries :: "agent_state \<Rightarrow> dict" where
  "policy_entries st =
     [(''loaded_skill_names'',
         texts_json (map (\<lambda>n. lower (strip n)) (filter (\<lambda>n. strip n \<noteq> []) (loaded_skill_names st)))),
      (''delivery'', case delivery st of None \<Rightarrow> JNull | Some d \<Rightarrow> JObj d),
      (''plan_hint'', option_json (plan_hint st)), (''plan_phase'', option_json (plan_phase (core st))),
      (''model_mode'', option_json (model_mode st)), (''ops_eval'', JBool (ops_eval (core st))),
      (''volatile_context'', JStr (volatile_context st)), (''writes_preapproved'', JBool (writes_preapproved st)),
      (''exec_preapproved'', JBool (exec_preapproved st)), (''saw_external'', JBool (saw_external (core st))),
      (''window_taint'', JStr (if window_taint (core st) = [] then ''user'' else window_taint (core st))),
      (''last_external_tool'', JStr (last_external_tool (core st))),
      (''pinned_policy_version'', JStr (pinned_policy_version st)),
      (''shadow_snapshot_id'', JStr (shadow_snapshot_id (core st))),
      (''permission_mode'', JStr (if permission_mode (core st) = [] then ''ask'' else permission_mode (core st)))]"

definition product_entries :: "agent_state \<Rightarrow> dict" where
  "product_entries st =
     [(''edited_files'', JList (map JObj (edited_files st))), (''last_test_command'', JStr (last_test_command st)),
      (''last_test_delta'', JObj (last_test_delta st)), (''product_hook_ran'', JBool (product_hook_ran st)),
      (''diff_stat_sent'', JBool (diff_stat_sent st)), (''acceptance_commands'', texts_json (acceptance_commands st)),
      (''s1_granted_this_turn'', JBool (s1_granted_this_turn (core st))),
      (''s2_granted_this_turn'', JBool (s2_granted_this_turn (core st))),
      (''plan_items'', JList (map JObj (plan_items st))), (''review_sent'', JBool (review_sent st)),
      (''command_offer'', JStr (command_offer st)),
      (''s1_snapshots'', JObj (if shadow_snapshot_id (core st) \<noteq> [] then [] else snapshot_payload (s1_snapshots (core st))))]"

definition read_entries :: "agent_state \<Rightarrow> dict" where
  "read_entries st =
     [(''read_registry'', JObj (serialize_read_registry (read_registry st))),
      (''evicted_paths'', texts_json (sorted_list_of_set (evicted_paths st))),
      (''evicted_reread_used'', texts_json (sorted_list_of_set (evicted_reread_used st))),
      (''verify_pending'', JBool (verify_pending st)), (''verify_receipt_sent'', JBool (verify_receipt_sent st)),
      (''code_edits_since_verify'', JInt (code_edits_since_verify st)),
      (''related_tests_union'',
         JList (map (\<lambda>(p, c). JObj [(''path'', JStr p), (''command'', JStr c)]) (related_tests_union st))),
      (''last_repro_command'', JStr (last_repro_command st)),
      (''last_test_first_failure'', JStr (last_test_first_failure st))]"

definition repro_entries :: "agent_state \<Rightarrow> dict" where
  "repro_entries st =
     [(''issue_repro_loaded'', JBool (issue_repro_loaded st)),
      (''issue_repro_commands'', texts_json (issue_repro_commands st)),
      (''issue_repro_markers'', texts_json (issue_repro_markers st)),
      (''issue_repro_required_tokens'', texts_json (issue_repro_required_tokens st)),
      (''issue_repro_assets'', texts_json (issue_repro_assets st)),
      (''issue_repro_casefold_assets'', texts_json (issue_repro_casefold_assets st)),
      (''issue_repro_fail_signals'', texts_json (issue_repro_fail_signals st)),
      (''issue_repro_expect_signals'', texts_json (issue_repro_expect_signals st)),
      (''issue_repro_need_roundtrip'', JBool (issue_repro_need_roundtrip st)),
      (''issue_repro_need_casefold'', JBool (issue_repro_need_casefold st)),
      (''issue_repro_roundtrip_formats'', texts_json (issue_repro_roundtrip_formats st)),
      (''issue_repro_roundtrip_kwargs'', texts_json (issue_repro_roundtrip_kwargs st)),
      (''issue_repro_armed'', JBool (issue_repro_armed st)), (''issue_repro_satisfied'', JBool (issue_repro_satisfied st)),
      (''issue_repro_receipt_sent'', JBool (issue_repro_receipt_sent st)),
      (''issue_repro_edits_since'', JInt (issue_repro_edits_since st))]"

definition writing_entries :: "agent_state \<Rightarrow> dict" where
  "writing_entries st =
     [(''turn_user_text'', JStr (turn_user_text (core st))), (''hinge_pending'', JBool (hinge_pending st)),
      (''hinge_receipt_sent'', JBool (hinge_receipt_sent st)), (''lore_pending'', JBool (lore_pending st)),
      (''lore_receipt_sent'', JBool (lore_receipt_sent st)), (''opening_pending'', JBool (opening_pending st)),
      (''opening_receipt_sent'', JBool (opening_receipt_sent st)), (''staccato_pending'', JBool (staccato_pending st)),
      (''staccato_receipt_sent'', JBool (staccato_receipt_sent st))]"

definition serialize_state :: "agent_state \<Rightarrow> dict" where
  "serialize_state st = budget_entries st @ policy_entries st @ product_entries st @ read_entries st
     @ repro_entries st @ writing_entries st"

section \<open>Loading a state\<close>

definition load_usage :: "dict \<Rightarrow> usage option" where
  "load_usage d = (case py_or (dict_get d ''usage'') (JObj []) of
      JObj u \<Rightarrow> do {
        i \<leftarrow> int_or_default u ''input_tokens'' 0;
        out \<leftarrow> int_or_default u ''output_tokens'' 0;
        r \<leftarrow> int_or_zero u ''cache_read_input_tokens'';
        c \<leftarrow> int_or_zero u ''cache_creation_input_tokens'';
        Some \<lparr>input_tokens = i, output_tokens = out, cache_read_input_tokens = r, cache_creation_input_tokens = c\<rparr> }
    | _ \<Rightarrow> None)"

definition load_identity :: "dict \<Rightarrow> agent_state option" where
  "load_identity d = do {
     t \<leftarrow> uuid_field d ''turn_id'';
     s \<leftarrow> uuid_field d ''session_id'';
     r \<leftarrow> uuid_field d ''run_id'';
     x \<leftarrow> uuid_field d ''trace_id'';
     scenario \<leftarrow> map_of d ''scenario_id'';
     Some (new_agent_state t s r x (py_str scenario)) }"

definition load_budget :: "dict \<Rightarrow> agent_state \<Rightarrow> agent_state option" where
  "load_budget d st = do {
     ms \<leftarrow> items_of d ''messages'';
     steps \<leftarrow> int_or_default d ''step_count'' 0;
     limit \<leftarrow> int_or_default d ''max_steps'' 40;
     u \<leftarrow> load_usage d;
     budget \<leftarrow> int_or_zero d ''turn_token_budget'';
     max_in \<leftarrow> int_or_zero d ''max_input_tokens'';
     max_out \<leftarrow> int_or_zero d ''max_output_tokens'';
     fill \<leftarrow> float_or_zero d ''fill_ratio_max'';
     wait \<leftarrow> float_or_zero d ''model_queue_wait_s'';
     n \<leftarrow> int_or_zero d ''pointerized_n'';
     Some (st\<lparr>core := core st\<lparr>messages := ms, step_count := steps, max_steps := limit,
                 cancelled := flag_of d ''cancelled''\<rparr>,
       turn_usage := u, cancel_force := flag_of d ''cancel_force'',
       cancelled_at_phase := text_or_none d ''cancelled_at_phase'',
       termination_reason := py_str (dict_get_default d ''termination_reason'' (JStr ''final'')),
       budget_exceeded := flag_of d ''budget_exceeded'', turn_token_budget := budget,
       max_input_tokens := max_in, max_output_tokens := max_out, fill_ratio_max := fill,
       model_queue_wait_s := wait, pointerized_n := n\<rparr>) }"

definition load_policy :: "dict \<Rightarrow> agent_state \<Rightarrow> agent_state option" where
  "load_policy d st = do {
     skills \<leftarrow> nonblank_texts d ''loaded_skill_names'';
     Some (st\<lparr>core := core st\<lparr>plan_phase := text_or_none d ''plan_phase'', ops_eval := flag_of d ''ops_eval'',
                 saw_external := flag_of d ''saw_external'', window_taint := text_or_default d ''window_taint'' ''user'',
                 last_external_tool := str_field d ''last_external_tool'',
                 s1_snapshots := snapshot_load (dict_get d ''s1_snapshots''),
                 shadow_snapshot_id := str_field d ''shadow_snapshot_id'',
                 permission_mode := text_or_default d ''permission_mode'' ''ask''\<rparr>,
       loaded_skill_names := map (\<lambda>n. lower (strip n)) skills,
       delivery := (case dict_get d ''delivery'' of JObj e \<Rightarrow> Some e | _ \<Rightarrow> None),
       plan_hint := text_or_none d ''plan_hint'', model_mode := text_or_none d ''model_mode'',
       volatile_context := str_field d ''volatile_context'',
       writes_preapproved := flag_of d ''writes_preapproved'', exec_preapproved := flag_of d ''exec_preapproved'',
       pinned_policy_version := str_field d ''pinned_policy_version''\<rparr>) }"

definition load_product :: "dict \<Rightarrow> agent_state \<Rightarrow> agent_state option" where
  "load_product d st = do {
     edits \<leftarrow> dict_items d ''edited_files'';
     commands \<leftarrow> nonblank_texts d ''acceptance_commands'';
     plan \<leftarrow> dict_items d ''plan_items'';
     Some (st\<lparr>core := core st\<lparr>s1_granted_this_turn := flag_of d ''s1_granted_this_turn'',
                 s2_granted_this_turn := flag_of d ''s2_granted_this_turn''\<rparr>,
       edited_files := edits, last_test_command := str_field d ''last_test_command'',
       last_test_delta := (case dict_get d ''last_test_delta'' of JObj e \<Rightarrow> e | _ \<Rightarrow> []),
       product_hook_ran := flag_of d ''product_hook_ran'', diff_stat_sent := flag_of d ''diff_stat_sent'',
       acceptance_commands := commands, plan_items := plan, review_sent := flag_of d ''review_sent'',
       command_offer := str_field d ''command_offer''\<rparr>) }"

definition load_reads :: "dict \<Rightarrow> agent_state \<Rightarrow> agent_state option" where
  "load_reads d st = do {
     reg \<leftarrow> deserialize_read_registry (dict_get d ''read_registry'');
     evicted \<leftarrow> nonblank_texts d ''evicted_paths'';
     used \<leftarrow> nonblank_texts d ''evicted_reread_used'';
     edits \<leftarrow> int_or_zero d ''code_edits_since_verify'';
     Some (st\<lparr>read_registry := reg, evicted_paths := set evicted, evicted_reread_used := set used,
       verify_pending := flag_of d ''verify_pending'', verify_receipt_sent := flag_of d ''verify_receipt_sent'',
       code_edits_since_verify := edits, related_tests_union := related_union (dict_get d ''related_tests_union''),
       last_repro_command := str_field d ''last_repro_command'',
       last_test_first_failure := str_field d ''last_test_first_failure''\<rparr>) }"

definition load_repro :: "dict \<Rightarrow> agent_state \<Rightarrow> agent_state option" where
  "load_repro d st = do {
     commands \<leftarrow> nonblank_texts d ''issue_repro_commands'';
     markers \<leftarrow> nonblank_texts d ''issue_repro_markers'';
     tokens \<leftarrow> nonblank_texts d ''issue_repro_required_tokens'';
     assets \<leftarrow> nonblank_texts d ''issue_repro_assets'';
     casefold \<leftarrow> nonblank_texts d ''issue_repro_casefold_assets'';
     fails \<leftarrow> nonblank_texts d ''issue_repro_fail_signals'';
     expects \<leftarrow> nonblank_texts d ''issue_repro_expect_signals'';
     formats \<leftarrow> nonblank_texts d ''issue_repro_roundtrip_formats'';
     kwargs \<leftarrow> nonblank_texts d ''issue_repro_roundtrip_kwargs'';
     edits \<leftarrow> int_or_zero d ''issue_repro_edits_since'';
     Some (st\<lparr>issue_repro_loaded := flag_of d ''issue_repro_loaded'', issue_repro_commands := commands,
       issue_repro_markers := markers, issue_repro_required_tokens := tokens, issue_repro_assets := assets,
       issue_repro_casefold_assets := casefold, issue_repro_fail_signals := fails,
       issue_repro_expect_signals := expects, issue_repro_need_roundtrip := flag_of d ''issue_repro_need_roundtrip'',
       issue_repro_need_casefold := flag_of d ''issue_repro_need_casefold'',
       issue_repro_roundtrip_formats := formats, issue_repro_roundtrip_kwargs := kwargs,
       issue_repro_armed := flag_of d ''issue_repro_armed'',
       issue_repro_satisfied := flag_of d ''issue_repro_satisfied'',
       issue_repro_receipt_sent := flag_of d ''issue_repro_receipt_sent'',
       issue_repro_edits_since := edits\<rparr>) }"

definition load_writing :: "dict \<Rightarrow> agent_state \<Rightarrow> agent_state" where
  "load_writing d st = st\<lparr>core := core st\<lparr>turn_user_text := str_field d ''turn_user_text''\<rparr>,
     hinge_pending := flag_of d ''hinge_pending'', hinge_receipt_sent := flag_of d ''hinge_receipt_sent'',
     lore_pending := flag_of d ''lore_pending'', lore_receipt_sent := flag_of d ''lore_receipt_sent'',
     opening_pending := flag_of d ''opening_pending'', opening_receipt_sent := flag_of d ''opening_receipt_sent'',
     staccato_pending := flag_of d ''staccato_pending'', staccato_receipt_sent := flag_of d ''staccato_receipt_sent''\<rparr>"

definition deserialize_state :: "dict \<Rightarrow> agent_state option" where
  "deserialize_state d = do {
     st \<leftarrow> load_identity d;
     st \<leftarrow> load_budget d st;
     st \<leftarrow> load_policy d st;
     st \<leftarrow> load_product d st;
     st \<leftarrow> load_reads d st;
     st \<leftarrow> load_repro d st;
     Some (load_writing d st) }"

section \<open>The table and the files\<close>

record checkpoint_row =
  ck_turn :: str
  ck_step :: int
  ck_state :: str
  ck_interrupt :: "str option"

type_synonym checkpoint_table = "str \<rightharpoonup> checkpoint_row"

text \<open>The upsert: a missing or empty interrupt payload keeps the stored one.\<close>

definition save_checkpoint ::
  "str \<Rightarrow> str \<Rightarrow> agent_state \<Rightarrow> int \<Rightarrow> dict option \<Rightarrow> checkpoint_table \<Rightarrow> checkpoint_table" where
  "save_checkpoint rid tid st step_index interrupt_payload table =
     (let state_json = json_dumps_ascii (JObj (serialize_state st));
          interrupt = (case interrupt_payload of
             Some p \<Rightarrow> if p = [] then None else Some (json_dumps_ascii (JObj p)) | None \<Rightarrow> None)
      in table(rid \<mapsto> (case table rid of
           None \<Rightarrow> \<lparr>ck_turn = tid, ck_step = step_index, ck_state = state_json, ck_interrupt = interrupt\<rparr>
         | Some old \<Rightarrow> old\<lparr>ck_step := step_index, ck_state := state_json,
             ck_interrupt := (if interrupt = None then ck_interrupt old else interrupt)\<rparr>)))"

definition load_text :: "str \<Rightarrow> agent_state option" where
  "load_text txt = (case json_loads txt of Some (JObj d) \<Rightarrow> deserialize_state d | _ \<Rightarrow> None)"

text \<open>The outer None is an exception, the inner one a run without a row.\<close>

definition load_checkpoint :: "str \<Rightarrow> checkpoint_table \<Rightarrow> (agent_state \<times> json option) option option" where
  "load_checkpoint rid table = (case table rid of
      None \<Rightarrow> Some None
    | Some row \<Rightarrow> (case load_text (ck_state row) of
          None \<Rightarrow> None
        | Some st \<Rightarrow> (case ck_interrupt row of
              None \<Rightarrow> Some (Some (st, None))
            | Some txt \<Rightarrow> map_option (\<lambda>v. Some (st, Some v)) (json_loads txt))))"

definition delete_checkpoint :: "str \<Rightarrow> checkpoint_table \<Rightarrow> checkpoint_table" where
  "delete_checkpoint rid table = table(rid := None)"

text \<open>The checkpoint files: \<open>files t\<close> is the text of \<open>.agent/checkpoints/t.json\<close>.\<close>

definition file_save :: "agent_state \<Rightarrow> int \<Rightarrow> dict option \<Rightarrow> (str \<rightharpoonup> str) \<Rightarrow> (str \<rightharpoonup> str)" where
  "file_save st step_index interrupt_payload files =
     files(turn_id st \<mapsto> json_dumps (JObj
       [(''schema_version'', JInt 1), (''step_index'', JInt step_index),
        (''interrupt_payload'', case interrupt_payload of None \<Rightarrow> JNull | Some p \<Rightarrow> JObj p),
        (''state'', JObj (serialize_state st))]))"

definition CHECKPOINT_SCHEMA :: int where
  "CHECKPOINT_SCHEMA = 1"

definition migrate_checkpoint :: "json \<Rightarrow> dict option" where
  "migrate_checkpoint data = (case data of
      JObj d \<Rightarrow> do {
        version \<leftarrow> int_or_zero d ''schema_version'';
        if version > CHECKPOINT_SCHEMA then None
        else if ''state'' \<notin> fst ` set d \<and> truthy (dict_get d ''turn_id'') then do {
          step \<leftarrow> py_int (py_or (py_or (dict_get d ''step_index'') (dict_get d ''step_count'')) (JInt 0));
          Some [(''schema_version'', JInt CHECKPOINT_SCHEMA), (''step_index'', JInt step),
            (''interrupt_payload'', dict_get d ''interrupt_payload''), (''state'', JObj d)] }
        else if version < CHECKPOINT_SCHEMA then Some (dict_set d ''schema_version'' (JInt CHECKPOINT_SCHEMA))
        else Some d }
    | _ \<Rightarrow> None)"

definition file_load :: "str \<Rightarrow> (str \<rightharpoonup> str) \<Rightarrow> (agent_state \<times> dict option \<times> int) option" where
  "file_load tid files = do {
     txt \<leftarrow> files tid;
     raw \<leftarrow> json_loads txt;
     d \<leftarrow> migrate_checkpoint raw;
     state \<leftarrow> map_of d ''state'';
     st \<leftarrow> (case state of JObj e \<Rightarrow> deserialize_state e | _ \<Rightarrow> None);
     step \<leftarrow> int_or_zero d ''step_index'';
     Some (st, (case dict_get d ''interrupt_payload'' of JObj p \<Rightarrow> Some p | _ \<Rightarrow> None), step) }"

section \<open>What a checkpoint keeps\<close>

text \<open>
  The states a checkpoint can represent: printed UUIDs and floats, no empty text where the
  loader reads an empty text as absence or as a default, no blank text in the filtered lists,
  a registry of normal paths, and snapshots that fit the budget and are not mistaken for bytes.
\<close>

definition nonblank :: "str \<Rightarrow> bool" where
  "nonblank s \<longleftrightarrow> strip s \<noteq> []"

definition float_ok :: "int \<times> nat \<Rightarrow> bool" where
  "float_ok x \<longleftrightarrow> dec_ok (fst x) (snd x) \<and> (fst x = 0 \<longrightarrow> snd x = 1)"

definition identity_ok :: "agent_state \<Rightarrow> bool" where
  "identity_ok st \<longleftrightarrow> uuid_ok (turn_id st) \<and> uuid_ok (session_id st) \<and> uuid_ok (run_id st) \<and> uuid_ok (trace_id st)"

definition budget_ok :: "agent_state \<Rightarrow> bool" where
  "budget_ok st \<longleftrightarrow> (\<forall>m \<in> set (messages (core st)). json_ok m) \<and> cancelled_at_phase st \<noteq> Some []
     \<and> float_ok (fill_ratio_max st) \<and> float_ok (model_queue_wait_s st)"

definition snapshot_ok :: "json \<Rightarrow> bool" where
  "snapshot_ok v \<longleftrightarrow> snapshot_value (snapshot_text v) = v"

definition snapshots_ok :: "agent_state \<Rightarrow> bool" where
  "snapshots_ok st \<longleftrightarrow> (let snaps = s1_snapshots (core st) in
     distinct (map fst snaps) \<and> (\<forall>(k, v) \<in> set snaps. snapshot_ok v)
     \<and> sum_list (map (\<lambda>(k, v). length (snapshot_text v)) snaps) \<le> SNAPSHOT_BUDGET
     \<and> (shadow_snapshot_id (core st) \<noteq> [] \<longrightarrow> snaps = []))"

definition policy_ok :: "agent_state \<Rightarrow> bool" where
  "policy_ok st \<longleftrightarrow> (\<forall>n \<in> set (loaded_skill_names st). n \<noteq> [] \<and> lower (strip n) = n)
     \<and> (\<forall>d. delivery st = Some d \<longrightarrow> json_ok (JObj d)) \<and> plan_hint st \<noteq> Some []
     \<and> plan_phase (core st) \<noteq> Some [] \<and> model_mode st \<noteq> Some [] \<and> window_taint (core st) \<noteq> []
     \<and> permission_mode (core st) \<noteq> [] \<and> snapshots_ok st"

definition product_ok :: "agent_state \<Rightarrow> bool" where
  "product_ok st \<longleftrightarrow> (\<forall>d \<in> set (edited_files st). json_ok (JObj d)) \<and> json_ok (JObj (last_test_delta st))
     \<and> (\<forall>d \<in> set (plan_items st). json_ok (JObj d)) \<and> (\<forall>c \<in> set (acceptance_commands st). nonblank c)"

definition reads_ok :: "agent_state \<Rightarrow> bool" where
  "reads_ok st \<longleftrightarrow> registry_ok (read_registry st) \<and> finite (evicted_paths st) \<and> finite (evicted_reread_used st)
     \<and> (\<forall>p \<in> evicted_paths st \<union> evicted_reread_used st. nonblank p)
     \<and> (\<forall>(p, c) \<in> set (related_tests_union st). p \<noteq> [] \<and> strip p = p \<and> strip c = c)"

definition repro_ok :: "agent_state \<Rightarrow> bool" where
  "repro_ok st \<longleftrightarrow> (\<forall>s \<in> set (issue_repro_commands st @ issue_repro_markers st @ issue_repro_required_tokens st
      @ issue_repro_assets st @ issue_repro_casefold_assets st @ issue_repro_fail_signals st
      @ issue_repro_expect_signals st @ issue_repro_roundtrip_formats st @ issue_repro_roundtrip_kwargs st). nonblank s)"

definition checkpointable :: "agent_state \<Rightarrow> bool" where
  "checkpointable st \<longleftrightarrow> identity_ok st \<and> budget_ok st \<and> policy_ok st \<and> product_ok st \<and> reads_ok st \<and> repro_ok st"

text \<open>
  The state that comes back. \<open>audit_log\<close> is the log file, not a field; the flag of the
  delivery hold is a field that the codec does not mention.
\<close>

definition restored :: "agent_state \<Rightarrow> agent_state" where
  "restored st = st\<lparr>core := core st\<lparr>audit_log := []\<rparr>, writing_delivery_hold_sent := False\<rparr>"

subsection \<open>Identifiers\<close>

lemma remove_absent: "c \<notin> set s \<Longrightarrow> remove_text (c # p) s = s"
  by (induction s) (auto simp: starts_with_def)

lemma strip_chars_absent:
  assumes "set s \<inter> set cs = {}"
  shows "lstrip_chars cs s = s" and "rstrip_chars cs s = s"
proof -
  have "dropWhile (\<lambda>c. c \<in> set cs) xs = xs" if "set xs \<inter> set cs = {}" for xs
    using that by (cases xs) auto
  with assms show "lstrip_chars cs s = s" "rstrip_chars cs s = s"
    by (simp_all add: lstrip_chars_def rstrip_chars_def)
qed

lemma hex_facts:
  "list_all (\<lambda>c. lower_char c = c \<and> is_hex c \<and> c \<noteq> CHR ''u'' \<and> c \<noteq> CHR ''{'' \<and> c \<noteq> CHR ''}'') hex_digits"
  by code_simp

lemma hex_char:
  assumes "c \<in> set hex_digits"
  shows "lower_char c = c" and "is_hex c" and "c \<noteq> CHR ''u''" and "c \<noteq> CHR ''{''" and "c \<noteq> CHR ''}''"
  using assms hex_facts by (auto simp: list_all_iff)

lemma lower_hex: "set h \<subseteq> set hex_digits \<Longrightarrow> lower h = h"
  unfolding lower_def by (rule map_idI) (use hex_char(1) in blast)

lemma uuid_text_ok [simp]:
  assumes "uuid_ok s"
  shows "uuid_text (JStr s) = Some s"
proof -
  let ?h = "filter (\<lambda>c. c \<noteq> CHR ''-'') s"
  have h: "length ?h = 32" "set ?h \<subseteq> set hex_digits" "s = dashed ?h"
    using assms unfolding uuid_ok_def Let_def by blast+
  have chars: "c = CHR ''-'' \<or> c \<in> set hex_digits" if "c \<in> set s" for c
    using h(2) that by (cases "c = CHR ''-''") auto
  have "CHR ''u'' \<notin> set s"
    using chars [of "CHR ''u''"] hex_char(3) by auto
  then have "remove_text ''uuid:'' (remove_text ''urn:'' s) = s"
    by (simp add: remove_absent)
  moreover have "set s \<inter> set ''{}'' = {}"
    using chars [of "CHR ''{''"] chars [of "CHR ''}''"] hex_char(4,5) by auto
  then have "rstrip_chars ''{}'' (lstrip_chars ''{}'' s) = s"
    using strip_chars_absent by metis
  moreover have "\<forall>c \<in> set ?h. is_hex c"
    using h(2) hex_char(2) by blast
  ultimately show ?thesis
    using h(1,3) lower_hex [OF h(2)] unfolding uuid_text_def Let_def by simp
qed

subsection \<open>Fields\<close>

lemma items_of_list: "dict_get d k = JList xs \<Longrightarrow> items_of d k = Some xs"
  by (cases "xs = []") (simp_all add: items_of_def)

lemma nonblank_texts_back:
  assumes "dict_get d k = texts_json xs" and "\<forall>s \<in> set xs. nonblank s"
  shows "nonblank_texts d k = Some xs"
proof -
  have "filter (\<lambda>s. strip s \<noteq> []) xs = xs"
    using assms(2) by (simp add: filter_id_conv nonblank_def)
  then show ?thesis
    using assms(1) by (simp add: nonblank_texts_def texts_json_def items_of_list comp_def)
qed

lemma dict_items_back: "dict_get d k = JList (map JObj xs) \<Longrightarrow> dict_items d k = Some xs"
  by (simp add: dict_items_def items_of_list comp_def)

lemma int_or_zero_back: "dict_get d k = JInt n \<Longrightarrow> int_or_zero d k = Some n"
  by (cases "n = 0") (simp_all add: int_or_zero_def)

lemma int_or_default_back: "map_of d k = Some (JInt n) \<Longrightarrow> int_or_default d k m = Some n"
  by (simp add: int_or_default_def dict_get_default_def)

lemma text_or_none_back: "dict_get d k = option_json x \<Longrightarrow> x \<noteq> Some [] \<Longrightarrow> text_or_none d k = x"
  by (cases x) (simp_all add: text_or_none_def option_json_def)

lemma text_or_default_back: "dict_get d k = JStr s \<Longrightarrow> s \<noteq> [] \<Longrightarrow> text_or_default d k t = s"
  by (simp add: text_or_default_def)

lemma str_field_back: "dict_get d k = JStr s \<Longrightarrow> str_field d k = s"
  by (cases "s = []") (simp_all add: str_field_def)

lemma float_or_zero_back:
  assumes "dict_get d k = float_json x" and "float_ok x"
  shows "float_or_zero d k = Some x"
  using assms by (cases x; cases "fst x = 0") (simp_all add: float_or_zero_def float_json_def float_ok_def)

lemma flag_of_back: "dict_get d k = JBool b \<Longrightarrow> flag_of d k = b"
  by (simp add: flag_of_def)

lemmas field_back = items_of_list nonblank_texts_back dict_items_back int_or_zero_back int_or_default_back
  text_or_none_back text_or_default_back str_field_back float_or_zero_back flag_of_back

subsection \<open>Snapshots and related tests\<close>

lemma snapshot_items_fit:
  assumes "used + sum_list (map (\<lambda>(k, v). length (snapshot_text v)) snaps) \<le> SNAPSHOT_BUDGET"
  shows "snapshot_items used snaps = map (\<lambda>(k, v). (k, JStr (snapshot_text v))) snaps"
  using assms
proof (induction snaps arbitrary: used)
  case (Cons p snaps)
  obtain k v where p: "p = (k, v)" by force
  with Cons show ?case by (simp add: add.assoc)
qed simp

lemma snapshots_back:
  assumes "snapshots_ok st" and "shadow_snapshot_id (core st) = []"
  shows "snapshot_load (JObj (snapshot_payload (s1_snapshots (core st)))) = s1_snapshots (core st)"
proof -
  have "map (\<lambda>(k, v). (k, snapshot_value (snapshot_text v))) (s1_snapshots (core st)) = s1_snapshots (core st)"
    using assms(1) by (intro map_idI) (auto simp: snapshots_ok_def snapshot_ok_def Let_def)
  then show ?thesis
    using assms by (simp add: snapshot_payload_def snapshots_ok_def Let_def snapshot_items_fit snapshot_load_def
        comp_def case_prod_unfold)
qed

lemma related_back:
  assumes "\<forall>(p, c) \<in> set xs. p \<noteq> [] \<and> strip p = p \<and> strip c = c"
  shows "related_union (JList (map (\<lambda>(p, c). JObj [(''path'', JStr p), (''command'', JStr c)]) xs)) = xs"
  using assms
  by (induction xs) (auto simp: related_union_def related_item_def str_field_back Let_def)

subsection \<open>Every entry is found\<close>

lemma dict_members:
  assumes "distinct (map fst d)"
  shows "list_all (\<lambda>(k, v). map_of d k = Some v \<and> dict_get d k = v) d"
  using assms by (auto simp: list_all_iff dict_get_def)

lemma distinct_keys: "distinct (map fst (serialize_state st))"
proof -
  have "map fst (serialize_state st) = map fst (serialize_state (new_agent_state [] [] [] [] []))"
    by (simp add: serialize_state_def budget_entries_def policy_entries_def product_entries_def read_entries_def
        repro_entries_def writing_entries_def)
  moreover have "distinct (map fst (serialize_state (new_agent_state [] [] [] [] [])))"
    by code_simp
  ultimately show ?thesis by simp
qed

lemma entry_groups:
  "list_all (\<lambda>(k, v). map_of (serialize_state st) k = Some v \<and> dict_get (serialize_state st) k = v) (budget_entries st)"
  "list_all (\<lambda>(k, v). map_of (serialize_state st) k = Some v \<and> dict_get (serialize_state st) k = v) (policy_entries st)"
  "list_all (\<lambda>(k, v). map_of (serialize_state st) k = Some v \<and> dict_get (serialize_state st) k = v) (product_entries st)"
  "list_all (\<lambda>(k, v). map_of (serialize_state st) k = Some v \<and> dict_get (serialize_state st) k = v) (read_entries st)"
  "list_all (\<lambda>(k, v). map_of (serialize_state st) k = Some v \<and> dict_get (serialize_state st) k = v) (repro_entries st)"
  "list_all (\<lambda>(k, v). map_of (serialize_state st) k = Some v \<and> dict_get (serialize_state st) k = v) (writing_entries st)"
  using dict_members [OF distinct_keys, of st] by (simp_all add: list_all_iff serialize_state_def Ball_def)

lemmas stored = entry_groups(1) [unfolded budget_entries_def usage_json_def, simplified]
  entry_groups(2) [unfolded policy_entries_def, simplified]
  entry_groups(3) [unfolded product_entries_def, simplified]
  entry_groups(4) [unfolded read_entries_def, simplified]
  entry_groups(5) [unfolded repro_entries_def, simplified]
  entry_groups(6) [unfolded writing_entries_def, simplified]

subsection \<open>Group by group\<close>

lemma value_back [simp]:
  "py_int (py_or (JInt n) (JInt 0)) = Some n"
  "py_str (py_or (JStr s) (JStr [])) = s"
  "py_or (JList xs) (JList []) = JList xs"
  "py_or (option_json None) y = y"
  by (cases "n = 0"; cases "s = []"; cases "xs = []"; simp add: option_json_def)+

lemma writing_back:
  "load_writing (serialize_state st) s = s\<lparr>core := core s\<lparr>turn_user_text := turn_user_text (core st)\<rparr>,
     hinge_pending := hinge_pending st, hinge_receipt_sent := hinge_receipt_sent st,
     lore_pending := lore_pending st, lore_receipt_sent := lore_receipt_sent st,
     opening_pending := opening_pending st, opening_receipt_sent := opening_receipt_sent st,
     staccato_pending := staccato_pending st, staccato_receipt_sent := staccato_receipt_sent st\<rparr>"
  by (simp add: load_writing_def stored flag_of_def str_field_def)

lemma repro_back:
  assumes "repro_ok st"
  shows "load_repro (serialize_state st) s = Some (s\<lparr>issue_repro_loaded := issue_repro_loaded st,
       issue_repro_commands := issue_repro_commands st, issue_repro_markers := issue_repro_markers st,
       issue_repro_required_tokens := issue_repro_required_tokens st, issue_repro_assets := issue_repro_assets st,
       issue_repro_casefold_assets := issue_repro_casefold_assets st, issue_repro_fail_signals := issue_repro_fail_signals st,
       issue_repro_expect_signals := issue_repro_expect_signals st, issue_repro_need_roundtrip := issue_repro_need_roundtrip st,
       issue_repro_need_casefold := issue_repro_need_casefold st,
       issue_repro_roundtrip_formats := issue_repro_roundtrip_formats st,
       issue_repro_roundtrip_kwargs := issue_repro_roundtrip_kwargs st,
       issue_repro_armed := issue_repro_armed st, issue_repro_satisfied := issue_repro_satisfied st,
       issue_repro_receipt_sent := issue_repro_receipt_sent st, issue_repro_edits_since := issue_repro_edits_since st\<rparr>)"
  using assms by (simp add: load_repro_def stored flag_of_def int_or_zero_def repro_ok_def nonblank_texts_back)

lemma reads_back:
  assumes "reads_ok st"
  shows "load_reads (serialize_state st) s = Some (s\<lparr>read_registry := read_registry st,
       evicted_paths := evicted_paths st, evicted_reread_used := evicted_reread_used st,
       verify_pending := verify_pending st, verify_receipt_sent := verify_receipt_sent st,
       code_edits_since_verify := code_edits_since_verify st, related_tests_union := related_tests_union st,
       last_repro_command := last_repro_command st, last_test_first_failure := last_test_first_failure st\<rparr>)"
proof -
  have "nonblank_texts (serialize_state st) ''evicted_paths'' = Some (sorted_list_of_set (evicted_paths st))"
    "nonblank_texts (serialize_state st) ''evicted_reread_used'' = Some (sorted_list_of_set (evicted_reread_used st))"
    using assms by (auto simp: reads_ok_def stored intro!: nonblank_texts_back)
  moreover have "deserialize_read_registry (JObj (serialize_read_registry (read_registry st))) = Some (read_registry st)"
    using assms load_registry_serialized [of "read_registry st" "[]"] by (simp add: reads_ok_def deserialize_read_registry_def)
  ultimately show ?thesis
    using assms related_back [of "related_tests_union st"]
    by (simp add: load_reads_def stored flag_of_def int_or_zero_def str_field_def reads_ok_def)
qed

lemma product_back:
  assumes "product_ok st"
  shows "load_product (serialize_state st) s = Some (s\<lparr>core := core s\<lparr>s1_granted_this_turn := s1_granted_this_turn (core st),
         s2_granted_this_turn := s2_granted_this_turn (core st)\<rparr>,
       edited_files := edited_files st, last_test_command := last_test_command st, last_test_delta := last_test_delta st,
       product_hook_ran := product_hook_ran st, diff_stat_sent := diff_stat_sent st,
       acceptance_commands := acceptance_commands st, plan_items := plan_items st, review_sent := review_sent st,
       command_offer := command_offer st\<rparr>)"
  using assms
  by (simp add: load_product_def stored flag_of_def str_field_def product_ok_def dict_items_back nonblank_texts_back)

lemma policy_back:
  assumes "policy_ok st"
  shows "load_policy (serialize_state st) s = Some (s\<lparr>core := core s\<lparr>plan_phase := plan_phase (core st), ops_eval := ops_eval (core st),
                 saw_external := saw_external (core st), window_taint := window_taint (core st),
                 last_external_tool := last_external_tool (core st), s1_snapshots := s1_snapshots (core st),
                 shadow_snapshot_id := shadow_snapshot_id (core st), permission_mode := permission_mode (core st)\<rparr>,
       loaded_skill_names := loaded_skill_names st, delivery := delivery st, plan_hint := plan_hint st,
       model_mode := model_mode st, volatile_context := volatile_context st, writes_preapproved := writes_preapproved st,
       exec_preapproved := exec_preapproved st, pinned_policy_version := pinned_policy_version st\<rparr>)"
proof -
  have skills: "map (\<lambda>n. lower (strip n)) (filter (\<lambda>n. strip n \<noteq> []) (loaded_skill_names st)) = loaded_skill_names st"
    "\<forall>n \<in> set (loaded_skill_names st). nonblank n" "map (\<lambda>n. lower (strip n)) (loaded_skill_names st) = loaded_skill_names st"
  proof -
    have all: "n \<noteq> [] \<and> lower (strip n) = n" if "n \<in> set (loaded_skill_names st)" for n
      using assms that by (simp add: policy_ok_def)
    then have blank: "strip n \<noteq> []" if "n \<in> set (loaded_skill_names st)" for n
      using that by force
    then show "\<forall>n \<in> set (loaded_skill_names st). nonblank n" by (simp add: nonblank_def)
    show two: "map (\<lambda>n. lower (strip n)) (loaded_skill_names st) = loaded_skill_names st"
      using all by (intro map_idI) blast
    show "map (\<lambda>n. lower (strip n)) (filter (\<lambda>n. strip n \<noteq> []) (loaded_skill_names st)) = loaded_skill_names st"
      using blank two by (simp add: filter_id_conv)
  qed
  have snaps: "snapshot_load (JObj (if shadow_snapshot_id (core st) \<noteq> [] then [] else snapshot_payload (s1_snapshots (core st))))
      = s1_snapshots (core st)"
    using assms snapshots_back [of st] by (auto simp: policy_ok_def snapshots_ok_def snapshot_load_def Let_def)
  show ?thesis
    using assms skills snaps
    by (simp add: load_policy_def stored flag_of_def str_field_def policy_ok_def nonblank_texts_back
        text_or_none_back text_or_default_back split: option.splits)
qed

lemma budget_back:
  assumes "budget_ok st"
  shows "load_budget (serialize_state st) s = Some (s\<lparr>core := core s\<lparr>messages := messages (core st), step_count := step_count (core st),
         max_steps := max_steps (core st), cancelled := cancelled (core st)\<rparr>,
       turn_usage := turn_usage st, cancel_force := cancel_force st, cancelled_at_phase := cancelled_at_phase st,
       termination_reason := termination_reason st, budget_exceeded := budget_exceeded st,
       turn_token_budget := turn_token_budget st, max_input_tokens := max_input_tokens st,
       max_output_tokens := max_output_tokens st, fill_ratio_max := fill_ratio_max st,
       model_queue_wait_s := model_queue_wait_s st, pointerized_n := pointerized_n st\<rparr>)"
proof -
  have "load_usage (serialize_state st) = Some (turn_usage st)"
    by (simp add: load_usage_def stored int_or_zero_def int_or_default_def dict_get_default_def)
  then show ?thesis
    using assms
    by (simp add: load_budget_def stored flag_of_def int_or_zero_def int_or_default_def dict_get_default_def
        items_of_list budget_ok_def text_or_none_back float_or_zero_back)
qed

lemma identity_back:
  assumes "identity_ok st"
  shows "load_identity (serialize_state st)
    = Some (new_agent_state (turn_id st) (session_id st) (run_id st) (trace_id st) (scenario_id (core st)))"
  using assms by (simp add: load_identity_def uuid_field_def stored identity_ok_def)

lemma state_back:
  assumes "checkpointable st"
  shows "deserialize_state (serialize_state st) = Some (restored st)"
proof -
  have ok: "identity_ok st" "budget_ok st" "policy_ok st" "product_ok st" "reads_ok st" "repro_ok st"
    using assms by (simp_all add: checkpointable_def)
  show ?thesis
    unfolding deserialize_state_def restored_def
    by (simp add: identity_back budget_back policy_back product_back reads_back repro_back writing_back ok
        new_agent_state_def new_turn_state_def)
qed

section \<open>Saving and loading\<close>

definition sample_state :: agent_state where
  "sample_state = (new_agent_state ''00000000-0000-4000-8000-00000000000a'' ''00000000-0000-4000-8000-00000000000b''
      ''00000000-0000-4000-8000-00000000000c'' ''00000000-0000-4000-8000-00000000000d'' ''coding'')
     \<lparr>cancelled_at_phase := Some ''model'', loaded_skill_names := [''tests''], evicted_paths := {''a.py'', ''b.py''},
      writing_delivery_hold_sent := True\<rparr>"

lemma json_ok_simps:
  "json_ok (texts_json xs)" "json_ok (option_json x)" "json_ok (usage_json u)" "float_ok f \<Longrightarrow> json_ok (float_json f)"
  by (auto simp: texts_json_def option_json_def usage_json_def float_json_def float_ok_def dec_ok_def split: option.splits)

lemma snapshot_items_ok: "distinct (map fst snaps) \<Longrightarrow> json_ok (JObj (snapshot_items used snaps))"
proof (induction used snaps rule: snapshot_items.induct)
  case (2 used key v rest)
  have "fst ` set (snapshot_items n d) \<subseteq> fst ` set d" for n d
    by (induction n d rule: snapshot_items.induct) (auto simp: Let_def)
  then have "key \<notin> fst ` set (snapshot_items n rest)" for n
    using 2(2) by auto
  with 2 show ?case by (auto simp: Let_def)
qed simp

lemma state_json_ok:
  assumes "checkpointable st"
  shows "json_ok (JObj (serialize_state st))"
proof -
  have ok: "budget_ok st" "policy_ok st" "product_ok st" "reads_ok st"
    using assms by (simp_all add: checkpointable_def)
  have "list_all (\<lambda>(k, v). json_ok v) (budget_entries st)"
    using ok(1) by (simp add: budget_entries_def budget_ok_def json_ok_simps del: json_ok.simps(3))
  moreover have "list_all (\<lambda>(k, v). json_ok v) (policy_entries st)"
    using ok(2) by (simp add: policy_entries_def policy_ok_def json_ok_simps del: json_ok.simps(3) split: option.splits)
  moreover have "list_all (\<lambda>(k, v). json_ok v) (product_entries st)"
    using ok(2,3) snapshot_items_ok [of "s1_snapshots (core st)" 0]
    by (simp add: product_entries_def product_ok_def policy_ok_def snapshots_ok_def Let_def snapshot_payload_def
        json_ok_simps json_ok.simps(3) [of "[]"] del: json_ok.simps(3))
  moreover have "list_all (\<lambda>(k, v). json_ok v) (read_entries st)"
    using ok(4) json_ok_registry [of "read_registry st"]
    by (auto simp add: read_entries_def reads_ok_def json_ok_simps json_ok.simps(3) [of "[p, q]" for p q]
        simp del: json_ok.simps(3))
  moreover have "list_all (\<lambda>(k, v). json_ok v) (repro_entries st @ writing_entries st)"
    by (simp add: repro_entries_def writing_entries_def json_ok_simps)
  ultimately have "list_all (\<lambda>(k, v). json_ok v) (serialize_state st)"
    by (simp add: serialize_state_def)
  then show ?thesis
    using distinct_keys [of st] by (simp add: list_all_iff)
qed

lemma load_text_back: "checkpointable st \<Longrightarrow> load_text (json_dumps_ascii (JObj (serialize_state st))) = Some (restored st)"
  using json_roundtrip [OF state_json_ok [of st]] by (simp add: load_text_def state_back)

text \<open>
  C19: a parked turn resumes as it was. A state a checkpoint can represent, saved over any
  earlier row of its run and loaded again, comes back field by field, through the JSON text and
  the codec, except for the flag of the delivery hold; with it comes the interrupt payload, and
  when none was given the payload that was stored before.
\<close>

theorem checkpoint_restores:
  assumes "checkpointable st" and "\<And>p. interrupt_payload = Some p \<Longrightarrow> json_ok (JObj p)"
    and "\<And>row t. table rid = Some row \<Longrightarrow> ck_interrupt row = Some t \<Longrightarrow> \<exists>v. json_loads t = Some v"
  shows "load_checkpoint rid (save_checkpoint rid tid st step_index interrupt_payload table)
     = Some (Some (restored st,
         if interrupt_payload \<noteq> None \<and> interrupt_payload \<noteq> Some [] then map_option JObj interrupt_payload
         else Option.bind (table rid) (\<lambda>row. Option.bind (ck_interrupt row) json_loads)))"
proof -
  have dumped: "json_loads (json_dumps_ascii (JObj p)) = Some (JObj p)" if "interrupt_payload = Some p" for p
    using json_roundtrip [OF assms(2) [OF that]] by simp
  have old: "\<exists>v. json_loads t = Some v" if "table rid = Some row" "ck_interrupt row = Some t" for row t
    using assms(3) that by blast
  show ?thesis
    using load_text_back [OF assms(1)] dumped
    by (auto simp: load_checkpoint_def save_checkpoint_def Let_def dest: old split: option.splits)
qed

text \<open>The checkpoint files of the writing host keep the same, and the step.\<close>

lemma file_checkpoint_restores:
  assumes "checkpointable st" and "\<And>p. interrupt_payload = Some p \<Longrightarrow> json_ok (JObj p)"
  shows "file_load (turn_id st) (file_save st step_index interrupt_payload files)
     = Some (restored st, interrupt_payload, step_index)"
proof -
  let ?d = "[(''schema_version'', JInt 1), (''step_index'', JInt step_index),
        (''interrupt_payload'', case interrupt_payload of None \<Rightarrow> JNull | Some p \<Rightarrow> JObj p),
        (''state'', JObj (serialize_state st))]"
  have "json_ok (JObj ?d)"
    using assms state_json_ok [OF assms(1)] by (simp del: json_ok.simps(3) add: json_ok.simps(3) [of ?d] split: option.splits)
  then have "json_loads (json_dumps (JObj ?d)) = Some (JObj ?d)"
    by (rule json_loads_dumps)
  moreover have "migrate_checkpoint (JObj ?d) = Some ?d"
    by (simp add: migrate_checkpoint_def int_or_zero_def CHECKPOINT_SCHEMA_def)
  ultimately show ?thesis
    using state_back [OF assms(1)]
    by (simp add: file_load_def file_save_def int_or_zero_def split: option.splits)
qed

text \<open>
  Two losses. The delivery hold, which is meant to stop a turn once, is forgotten over an
  approval; and the text of a file that begins like the mark of an encoded snapshot comes back
  as bytes.
\<close>

lemma hold_is_forgotten:
  "checkpointable st \<Longrightarrow> map_option writing_delivery_hold_sent (deserialize_state (serialize_state st)) = Some False"
  by (simp add: state_back restored_def)

lemma snapshot_text_becomes_bytes:
  assumes "length t < SNAPSHOT_BUDGET - 4"
  shows "snapshot_load (JObj (snapshot_payload [(path, JStr (''b64:'' @ t))])) = [(path, JObj [(''b64'', JStr t)])]"
  using assms by (simp add: snapshot_load_def snapshot_payload_def snapshot_text_def snapshot_value_def SNAPSHOT_BUDGET_def starts_with_def)

lemma sample_checkpointable: "checkpointable sample_state"
  unfolding checkpointable_def
proof (intro conjI)
  show "identity_ok sample_state" by code_simp
  show "reads_ok sample_state"
    by (simp add: reads_ok_def sample_state_def new_agent_state_def registry_ok_def nonblank_def py_string)
qed (simp_all add: sample_state_def new_agent_state_def new_turn_state_def budget_ok_def policy_ok_def product_ok_def
    repro_ok_def float_ok_def dec_ok_def snapshots_ok_def py_string)

lemma checkpoint_restores_witness:
  "load_checkpoint ''r'' (save_checkpoint ''r'' ''t'' sample_state 3 (Some [(''kind'', JStr ''approval'')]) (\<lambda>_. None))
     = Some (Some (restored sample_state, Some (JObj [(''kind'', JStr ''approval'')])))"
  using checkpoint_restores [OF sample_checkpointable, of "Some [(''kind'', JStr ''approval'')]" "\<lambda>_. None" "''r''" "''t''" 3]
  by simp

end
