(* ===== verification/TextFidelity.thy ===== *)
theory TextFidelity
  imports PyValue
begin

text \<open>
  How an edit touches a file (\<open>services/runtime/app/tools/core/text_fidelity.py\<close>): bytes become
  text with LF line ends, spans are located in the text, all of them or none are replaced, and
  the text becomes bytes with the line ends and the encoding the file had. Bytes are characters
  of 8 bits. The codecs of Python's library are the parameter \<open>lib\<close>; nothing is assumed of
  them, because the code compares the bytes after a round trip itself.
\<close>

type_synonym bytes = "char list"

record codecs =
  lib_decode :: "str \<Rightarrow> bytes \<Rightarrow> str option"
  lib_encode :: "str \<Rightarrow> str \<Rightarrow> bytes option"

section \<open>Line ends\<close>

definition LF :: char where "LF = CHR 0x0A"
definition CR :: char where "CR = CHR 0x0D"

text \<open>\<open>text.replace("\r\n", "\n").replace("\r", "\n")\<close>.\<close>

fun crlf_to_lf :: "str \<Rightarrow> str" where
  "crlf_to_lf (c # d # cs) = (if c = CR \<and> d = LF then LF # crlf_to_lf cs else c # crlf_to_lf (d # cs))"
| "crlf_to_lf cs = cs"

definition cr_to_lf :: "str \<Rightarrow> str" where
  "cr_to_lf s = replace_char CR LF s"

definition to_lf :: "str \<Rightarrow> str" where
  "to_lf s = cr_to_lf (crlf_to_lf s)"

text \<open>\<open>text.replace("\n", "\r\n")\<close>.\<close>

definition to_crlf :: "str \<Rightarrow> str" where
  "to_crlf s = concat (map (\<lambda>c. if c = LF then [CR, LF] else [c]) s)"

fun count_crlf :: "bytes \<Rightarrow> nat" where
  "count_crlf (c # d # cs) = (if c = CR \<and> d = LF then Suc (count_crlf cs) else count_crlf (d # cs))"
| "count_crlf cs = 0"

definition majority_crlf :: "bytes \<Rightarrow> bool" where
  "majority_crlf body \<longleftrightarrow> count_crlf body > count_list body LF - count_crlf body"

section \<open>Bytes and text\<close>

record loaded_text =
  lt_text :: str
  lt_crlf :: bool
  lt_encoding :: str
  lt_bom :: bool

definition BOM :: bytes where
  "BOM = [CHR 0xEF, CHR 0xBB, CHR 0xBF]"

text \<open>\<open>coding[:=]\s*([A-Za-z0-9_.-]+)\<close> in the first two lines, leftmost match, greedy name.\<close>

definition codec_char :: "char \<Rightarrow> bool" where
  "codec_char c \<longleftrightarrow> (let n = (of_char c :: nat) in (48 \<le> n \<and> n \<le> 57) \<or> (65 \<le> n \<and> n \<le> 90) \<or> (97 \<le> n \<and> n \<le> 122)
     \<or> c \<in> set ''_.-'')"

definition byte_space :: "char \<Rightarrow> bool" where
  "byte_space c \<longleftrightarrow> (let n = (of_char c :: nat) in (9 \<le> n \<and> n \<le> 13) \<or> n = 32)"

definition coding_here :: "bytes \<Rightarrow> bytes option" where
  "coding_here s =
     (if starts_with s ''coding:'' \<or> starts_with s ''coding=''
      then (case takeWhile codec_char (dropWhile byte_space (drop 7 s)) of [] \<Rightarrow> None | name \<Rightarrow> Some name)
      else None)"

fun coding_search :: "bytes \<Rightarrow> bytes option" where
  "coding_search [] = None"
| "coding_search (c # cs) = (case coding_here (c # cs) of None \<Rightarrow> coding_search cs | Some name \<Rightarrow> Some name)"

definition declared_codec :: "bytes \<Rightarrow> str option" where
  "declared_codec body = coding_search (join [LF] (take 2 (split_on LF body)))"

text \<open>The codec and the text; None is \<open>unsupported_encoding\<close>.\<close>

definition decode_roundtrip :: "codecs \<Rightarrow> bytes \<Rightarrow> (str \<times> str) option" where
  "decode_roundtrip lib body =
     (case lib_decode lib ''utf-8'' body of
        Some t \<Rightarrow> if lib_encode lib ''utf-8'' t = Some body then Some (''utf-8'', t) else None
      | None \<Rightarrow> (case declared_codec body of None \<Rightarrow> None
          | Some codec \<Rightarrow> (case lib_decode lib codec body of None \<Rightarrow> None
              | Some t \<Rightarrow> if lib_encode lib codec t = Some body then Some (codec, t) else None)))"

definition load_text_bytes :: "codecs \<Rightarrow> bytes \<Rightarrow> loaded_text option" where
  "load_text_bytes lib raw =
     (let bom = starts_with raw BOM; body = (if bom then drop 3 raw else raw)
      in map_option (\<lambda>(codec, t). \<lparr>lt_text = to_lf t, lt_crlf = majority_crlf body, lt_encoding = codec, lt_bom = bom\<rparr>)
           (decode_roundtrip lib body))"

text \<open>None is a UnicodeError of the codec.\<close>

definition with_bom :: "loaded_text \<Rightarrow> bytes \<Rightarrow> bytes" where
  "with_bom loaded body = (if lt_bom loaded then BOM @ body else body)"

definition dump_text :: "codecs \<Rightarrow> loaded_text \<Rightarrow> str \<Rightarrow> bytes option" where
  "dump_text lib loaded text_lf =
     map_option (with_bom loaded)
       (lib_encode lib (lt_encoding loaded) (if lt_crlf loaded then to_crlf text_lf else text_lf))"

definition has_crlf :: "str \<Rightarrow> bool" where
  "has_crlf s \<longleftrightarrow> occurs_in [CR, LF] s"

definition encode_preserving :: "codecs \<Rightarrow> loaded_text \<Rightarrow> str \<Rightarrow> bytes option" where
  "encode_preserving lib loaded content =
     (if has_crlf content
      then map_option (with_bom loaded) (lib_encode lib (lt_encoding loaded) (to_crlf (to_lf content)))
      else dump_text lib loaded (cr_to_lf content))"

section \<open>Locating a span\<close>

text \<open>\<open>_find_exact\<close>, the scan at offset \<open>pos\<close>; matches do not overlap. Only called with a needle.\<close>

fun find_exact :: "nat \<Rightarrow> str \<Rightarrow> str \<Rightarrow> (nat \<times> nat) list" where
  "find_exact pos needle [] = []"
| "find_exact pos needle (c # cs) =
     (if needle \<noteq> [] \<and> starts_with (c # cs) needle
      then (pos, pos + length needle) # find_exact (pos + length needle) needle (drop (length needle - 1) cs)
      else find_exact (pos + 1) needle cs)"

definition lines_of :: "str \<Rightarrow> str list" where
  "lines_of s = (let ls = split_on LF s in if ends_with s [LF] then butlast ls else ls)"

text \<open>The window loop: the indices where the normalised lines agree.\<close>

fun line_starts :: "(str \<Rightarrow> str) \<Rightarrow> str list \<Rightarrow> bool \<Rightarrow> nat \<Rightarrow> str list \<Rightarrow> nat list" where
  "line_starts norm stripped replace_all index [] = []"
| "line_starts norm stripped replace_all index (l # ls) =
     (if length stripped > length (l # ls) then []
      else if map norm (take (length stripped) (l # ls)) = stripped
        then index # line_starts norm stripped replace_all (index + (if replace_all then length stripped else 1))
               (if replace_all then drop (length stripped - 1) ls else ls)
      else line_starts norm stripped replace_all (index + 1) ls)"

fun offsets_from :: "nat \<Rightarrow> str list \<Rightarrow> nat list" where
  "offsets_from cursor [] = []"
| "offsets_from cursor (l # ls) = cursor # offsets_from (cursor + length l + 1) ls"

definition line_offsets :: "str list \<Rightarrow> nat list" where
  "line_offsets ls = (if ls = [] then [0] else offsets_from 0 ls)"

text \<open>The range of the matched lines, with the line end behind them.\<close>

definition line_range :: "str \<Rightarrow> str list \<Rightarrow> nat \<Rightarrow> nat \<Rightarrow> nat \<times> nat" where
  "line_range s file_lines width line_index =
     (let offsets = line_offsets file_lines; end_line = line_index + width - 1;
          fin = offsets ! end_line + length (file_lines ! end_line)
      in (offsets ! line_index, if fin < length s \<and> s ! fin = LF then fin + 1 else fin))"

definition find_trailing :: "str \<Rightarrow> str \<Rightarrow> bool \<Rightarrow> (nat \<times> nat) list" where
  "find_trailing s old replace_all =
     (let file_lines = lines_of s; old_lines = lines_of old; stripped = map rstrip old_lines;
          starts = line_starts rstrip stripped replace_all 0 file_lines
      in if old_lines = [] \<or> (\<forall>l \<in> set stripped. l = []) then []
         else if \<not> replace_all \<and> length starts \<noteq> 1 then replicate (length starts) (0, 0)
         else map (line_range s file_lines (length old_lines)) starts)"

definition find_reindent :: "str \<Rightarrow> str \<Rightarrow> bool \<Rightarrow> (nat \<times> nat) list" where
  "find_reindent s old replace_all =
     (let file_lines = lines_of s; old_lines = lines_of old; stripped = map strip old_lines;
          starts = line_starts strip stripped replace_all 0 file_lines
      in if old_lines = [] \<or> (\<forall>l \<in> set stripped. l = []) then []
         else if \<not> replace_all \<and> length starts \<noteq> 1 then []
         else map (line_range s file_lines (length old_lines)) starts)"

datatype match_mode = Exact | Trailing_ws | Reindent

text \<open>The ranges, the count and the mode; an empty span has at least two matches.\<close>

definition locate :: "str \<Rightarrow> str \<Rightarrow> bool \<Rightarrow> bool \<Rightarrow> bool \<Rightarrow> (nat \<times> nat) list \<times> nat \<times> match_mode" where
  "locate s old trailing_ws replace_all reindent =
     (if old = [] then ([], max (length s + 1) 2, Exact)
      else (let exact = find_exact 0 old s in
        if exact \<noteq> [] then (exact, length exact, Exact)
        else if \<not> trailing_ws then ([], 0, Exact)
        else (let ranged = find_trailing s old replace_all in
          if ranged \<noteq> [] then (ranged, length ranged, Trailing_ws)
          else if reindent then
            (let ranged = find_reindent s old replace_all in
             if ranged \<noteq> [] then (ranged, length ranged, Reindent) else ([], 0, Exact))
          else ([], 0, Exact))))"

section \<open>Planning and applying\<close>

definition indent_char :: "char \<Rightarrow> bool" where
  "indent_char c \<longleftrightarrow> c = CHR '' '' \<or> c = CHR 0x09"

definition indent_of :: "str list \<Rightarrow> str" where
  "indent_of ls = (case find (\<lambda>l. strip l \<noteq> []) ls of None \<Rightarrow> [] | Some l \<Rightarrow> takeWhile indent_char l)"

definition reindent_line :: "str \<Rightarrow> str \<Rightarrow> str \<Rightarrow> str" where
  "reindent_line file_indent old_indent l =
     (if old_indent \<noteq> [] \<and> starts_with l old_indent then file_indent @ drop (length old_indent) l
      else if strip l = [] then l else file_indent @ dropWhile indent_char l)"

definition reindent_replacement :: "str \<Rightarrow> str \<Rightarrow> str \<Rightarrow> str" where
  "reindent_replacement file_chunk old new_text =
     join [LF] (map (reindent_line (indent_of (split_on LF file_chunk)) (indent_of (split_on LF old)))
       (split_on LF new_text))"

record span_plan =
  sp_start :: nat
  sp_end :: nat
  sp_new :: str
  sp_mode :: match_mode

datatype span_error =
    Span_missing nat str
  | Span_ambiguous nat nat str

datatype plan_failure =
    Span_failures "span_error list"
  | Overlapping

definition span_new_text :: "dict \<Rightarrow> str" where
  "span_new_text span = (case dict_get span ''new_text'' of JNull \<Rightarrow> [] | v \<Rightarrow> py_str v)"

text \<open>One span: its plans, or the failure that is noted.\<close>

definition plan_span :: "str \<Rightarrow> bool \<Rightarrow> bool \<Rightarrow> nat \<times> dict \<Rightarrow> span_error + span_plan list" where
  "plan_span s trailing_ws reindent = (\<lambda>(index, span).
     (let old = str_field span ''old_text'';
          new_text = span_new_text span;
          replace_all = truthy (dict_get span ''replace_all'');
          (ranges, count, mode) = locate s old trailing_ws replace_all reindent
      in if count = 0 then Inl (Span_missing index old)
         else if \<not> replace_all \<and> count > 1 then Inl (Span_ambiguous index count old)
         else Inr (map (\<lambda>(start, fin). \<lparr>sp_start = start, sp_end = fin,
                sp_new = (if mode = Reindent then reindent_replacement (take (fin - start) (drop start s)) old new_text
                          else new_text),
                sp_mode = mode\<rparr>) ranges)))"

fun overlapping :: "span_plan list \<Rightarrow> bool" where
  "overlapping (a # b # ps) \<longleftrightarrow> sp_start b < sp_end a \<or> overlapping (b # ps)"
| "overlapping _ \<longleftrightarrow> False"

definition plan_spans :: "str \<Rightarrow> dict list \<Rightarrow> bool \<Rightarrow> bool \<Rightarrow> plan_failure + span_plan list" where
  "plan_spans s spans trailing_ws reindent =
     (let outcomes = map (plan_span s trailing_ws reindent) (zip [0..<length spans] spans);
          failures = concat (map (\<lambda>x. case x of Inl e \<Rightarrow> [e] | Inr _ \<Rightarrow> []) outcomes);
          planned = sort_key sp_start (concat (map (\<lambda>x. case x of Inl _ \<Rightarrow> [] | Inr ps \<Rightarrow> ps) outcomes))
      in if failures \<noteq> [] then Inl (Span_failures failures)
         else if overlapping planned then Inl Overlapping
         else Inr planned)"

definition apply_span :: "span_plan \<Rightarrow> str \<Rightarrow> str" where
  "apply_span p s = take (sp_start p) s @ sp_new p @ drop (sp_end p) s"

definition apply_spans :: "str \<Rightarrow> span_plan list \<Rightarrow> str" where
  "apply_spans s planned = foldl (\<lambda>updated p. apply_span p updated) s (rev planned)"

section \<open>What the model is shown\<close>

definition line_of_offset :: "str \<Rightarrow> int \<Rightarrow> nat" where
  "line_of_offset s offset = count_list (take (nat (max offset 0)) s) LF + 1"

definition post_edit_excerpt :: "str \<Rightarrow> nat \<Rightarrow> nat \<Rightarrow> str" where
  "post_edit_excerpt s line radius =
     (let ls = lines_of s in
      if ls = [] then []
      else (let anchor = min (max line 1) (length ls); lo = max 1 (anchor - radius); hi = min (length ls) (anchor + radius)
        in join [LF] (map (\<lambda>n. show_int (int n) @ ''|'' @ ls ! (n - 1)) [lo..<Suc hi])))"

section \<open>Line ends come back\<close>

text \<open>Every line end is CR LF, and CR occurs nowhere else.\<close>

fun crlf_only :: "str \<Rightarrow> bool" where
  "crlf_only (c # d # cs) \<longleftrightarrow> (if c = CR then d = LF \<and> crlf_only cs else c \<noteq> LF \<and> crlf_only (d # cs))"
| "crlf_only [c] \<longleftrightarrow> c \<noteq> CR \<and> c \<noteq> LF"
| "crlf_only [] \<longleftrightarrow> True"

lemma CR_LF [simp]: "CR \<noteq> LF" "LF \<noteq> CR"
  by (simp_all add: CR_def LF_def)

lemma to_crlf_simps [simp]:
  "to_crlf [] = []" "to_crlf (LF # s) = CR # LF # to_crlf s" "c \<noteq> LF \<Longrightarrow> to_crlf (c # s) = c # to_crlf s"
  by (simp_all add: to_crlf_def)

lemma crlf_to_lf_no_cr: "CR \<notin> set s \<Longrightarrow> crlf_to_lf s = s"
  by (induction s rule: crlf_to_lf.induct) auto

lemma cr_to_lf_no_cr: "CR \<notin> set s \<Longrightarrow> cr_to_lf s = s"
  unfolding cr_to_lf_def replace_char_def by (rule map_idI) auto

lemma cr_to_lf_simps [simp]: "cr_to_lf [] = []" "cr_to_lf (c # s) = (if c = CR then LF else c) # cr_to_lf s"
  by (simp_all add: cr_to_lf_def replace_char_def)

lemma to_lf_no_cr: "CR \<notin> set (to_lf s)"
  by (auto simp: to_lf_def cr_to_lf_def replace_char_def)

lemma crlf_back: "crlf_only s \<Longrightarrow> to_crlf (to_lf s) = s"
  unfolding to_lf_def
  by (induction s rule: crlf_only.induct) (auto split: if_splits)

text \<open>
  C22: a file whose line ends are uniform keeps its bytes. If every line of the decoded text ends
  in the style the majority has, with no other CR, then loading the file and writing the
  text back gives the bytes that were read, the byte order mark and the encoding included; no
  law of the codecs is needed, because a text that does not encode to its bytes is refused.
\<close>

theorem unchanged_file_keeps_bytes:
  assumes "load_text_bytes lib raw = Some loaded"
    and "decode_roundtrip lib (if starts_with raw BOM then drop 3 raw else raw) = Some (codec, t)"
    and "if lt_crlf loaded then crlf_only t else CR \<notin> set t"
  shows "dump_text lib loaded (lt_text loaded) = Some raw"
proof -
  let ?body = "if starts_with raw BOM then drop 3 raw else raw"
  have loaded: "loaded = \<lparr>lt_text = to_lf t, lt_crlf = majority_crlf ?body, lt_encoding = codec, lt_bom = starts_with raw BOM\<rparr>"
    using assms(1,2) by (simp add: load_text_bytes_def Let_def)
  have enc: "lib_encode lib codec t = Some ?body"
    using assms(2) by (auto simp: decode_roundtrip_def split: option.splits if_splits)
  have "(if lt_crlf loaded then to_crlf (to_lf t) else to_lf t) = t"
    using assms(3) crlf_back [of t] by (auto simp: to_lf_def crlf_to_lf_no_cr cr_to_lf_no_cr split: if_splits)
  moreover have "with_bom loaded ?body = raw"
    by (auto simp: with_bom_def loaded starts_with_def BOM_def prefix_def)
  ultimately show ?thesis
    using enc by (simp add: dump_text_def loaded)
qed

definition plain_codec :: codecs where
  "plain_codec = \<lparr>lib_decode = (\<lambda>_ b. Some b), lib_encode = (\<lambda>_ t. Some t)\<rparr>"

lemma unchanged_file_keeps_bytes_witness:
  "Option.bind (load_text_bytes plain_codec (BOM @ [CHR ''a'', CR, LF, CHR ''b'', CR, LF]))
      (\<lambda>loaded. dump_text plain_codec loaded (lt_text loaded))
     = Some (BOM @ [CHR ''a'', CR, LF, CHR ''b'', CR, LF])"
proof -
  let ?t = "[CHR ''a'', CR, LF, CHR ''b'', CR, LF]"
  let ?loaded = "\<lparr>lt_text = [CHR ''a'', LF, CHR ''b'', LF], lt_crlf = True, lt_encoding = ''utf-8'', lt_bom = True\<rparr>"
  have load: "load_text_bytes plain_codec (BOM @ ?t) = Some ?loaded" by code_simp
  have decode: "decode_roundtrip plain_codec (if starts_with (BOM @ ?t) BOM then drop 3 (BOM @ ?t) else BOM @ ?t)
      = Some (''utf-8'', ?t)" by code_simp
  have "crlf_only ?t" by code_simp
  then have "dump_text plain_codec ?loaded (lt_text ?loaded) = Some (BOM @ ?t)"
    by (intro unchanged_file_keeps_bytes [OF load decode]) simp
  with load show ?thesis by simp
qed

section \<open>Located spans\<close>

lemma find_exact_range:
  assumes "(a, b) \<in> set (find_exact pos needle s)"
  shows "pos \<le> a \<and> a < b \<and> b = a + length needle \<and> b \<le> pos + length s
    \<and> take (length needle) (drop (a - pos) s) = needle"
  using assms
proof (induction pos needle s rule: find_exact.induct)
  case (2 pos needle c cs)
  show ?case
  proof (cases "needle \<noteq> [] \<and> starts_with (c # cs) needle")
    case True
    then obtain v where v: "c # cs = needle @ v" "needle \<noteq> []" by (auto simp: starts_with_def prefix_def)
    then have drop: "drop (length needle - 1) cs = v" and len: "length needle + length v = Suc (length cs)"
      by (cases needle; auto)+
    from True 2(3) consider "a = pos" "b = pos + length needle"
      | "(a, b) \<in> set (find_exact (pos + length needle) needle (drop (length needle - 1) cs))"
      by auto
    then show ?thesis
    proof cases
      case 1
      with v len show ?thesis by simp
    next
      case r: 2
      note ih = 2(1) [OF True r, unfolded drop]
      then have "a - pos = length needle + (a - (pos + length needle))" by linarith
      then have "drop (a - pos) (c # cs) = drop (a - (pos + length needle)) v"
        unfolding v(1) by simp
      with ih len show ?thesis by auto
    qed
  next
    case False
    with 2(3) have "(a, b) \<in> set (find_exact (pos + 1) needle cs)" by auto
    from 2(2) [OF False this] show ?thesis by (auto simp: drop_Cons' Suc_diff_Suc)
  qed
qed simp

lemma find_exact_none: "needle \<noteq> [] \<Longrightarrow> find_exact pos needle s = [] \<longleftrightarrow> \<not> occurs_in needle s"
  by (induction pos needle s rule: find_exact.induct) (auto simp: starts_with_def)

lemma offsets_length [simp]: "length (offsets_from cursor ls) = length ls"
  by (induction cursor ls rule: offsets_from.induct) auto

lemma split_never_empty [simp]: "split_on sep s \<noteq> []"
  by (induction s) (auto split: list.splits)

lemma join_split_on: "join [sep] (split_on sep s) = s"
proof (induction s)
  case (Cons c s)
  obtain w ws where w: "split_on sep s = w # ws" by (meson neq_Nil_conv split_never_empty)
  show ?case
    using Cons w by (cases ws) (auto split: list.splits)
qed simp

text \<open>Where a line of a joined text lies.\<close>

lemma offsets_shift: "i < length ls \<Longrightarrow> offsets_from cursor ls ! i = cursor + offsets_from 0 ls ! i"
proof (induction ls arbitrary: cursor i)
  case (Cons l ls)
  show ?case
  proof (cases i)
    case (Suc j)
    then have j: "j < length ls" using Cons.prems by simp
    from Cons.IH [OF j, of "cursor + length l + 1"] Cons.IH [OF j, of "length l + 1"] Suc
    show ?thesis by simp
  qed simp
qed simp

lemma offsets_0 [simp]: "offsets_from 0 (l # ls) ! 0 = 0"
  by simp

lemma offsets_Suc [simp]: "j < length ls \<Longrightarrow> offsets_from 0 (l # ls) ! Suc j = length l + 1 + offsets_from 0 ls ! j"
  using offsets_shift [of j ls "length l + 1"] by simp

lemma length_join_Cons: "length (join [sep] (l # ls)) = length l + (if ls = [] then 0 else Suc (length (join [sep] ls)))"
  by (cases ls) simp_all

lemma last_line_end: "Suc i = length ls \<Longrightarrow> offsets_from 0 ls ! i + length (ls ! i) = length (join [sep] ls)"
proof (induction ls arbitrary: i)
  case (Cons l ls)
  show ?case
  proof (cases i)
    case 0
    with Cons.prems show ?thesis by simp
  next
    case (Suc j)
    then have j: "Suc j = length ls" "ls \<noteq> []" using Cons.prems by auto
    have "offsets_from 0 (l # ls) ! i = length l + 1 + offsets_from 0 ls ! j" "(l # ls) ! i = ls ! j"
      unfolding Suc using j(1) by (intro offsets_Suc) auto
    with Cons.IH [OF j(1)] j(2) show ?thesis
      by (simp add: length_join_Cons del: join.simps offsets_from.simps)
  qed
qed simp

lemma line_end_char:
  assumes "Suc i < length ls"
  shows "offsets_from 0 ls ! i + length (ls ! i) < length (join [sep] ls)"
    and "join [sep] ls ! (offsets_from 0 ls ! i + length (ls ! i)) = sep"
proof -
  have "offsets_from 0 ls ! i + length (ls ! i) < length (join [sep] ls)
    \<and> join [sep] ls ! (offsets_from 0 ls ! i + length (ls ! i)) = sep"
    using assms
  proof (induction ls arbitrary: i)
    case (Cons l ls)
    then obtain m ms where ls: "ls = m # ms" by (cases ls) auto
    show ?case
    proof (cases i)
      case 0
      with ls show ?thesis by (simp add: nth_append)
    next
      case (Suc j)
      have "join [sep] (l # ls) = l @ sep # join [sep] ls"
        using ls by simp
      then show ?thesis
        using Cons.IH [of j] Cons.prems Suc by (simp add: nth_append del: join.simps offsets_from.simps(2))
    qed
  qed simp
  then show "offsets_from 0 ls ! i + length (ls ! i) < length (join [sep] ls)"
    and "join [sep] ls ! (offsets_from 0 ls ! i + length (ls ! i)) = sep" by blast+
qed

lemma line_inside: "i < length ls \<Longrightarrow> offsets_from 0 ls ! i + length (ls ! i) \<le> length (join [sep] ls)"
  using last_line_end [of i ls sep] line_end_char(1) [of i ls sep] by (cases "Suc i = length ls") auto

lemma offsets_mono: "i \<le> j \<Longrightarrow> j < length ls \<Longrightarrow> offsets_from 0 ls ! i \<le> offsets_from 0 ls ! j"
proof (induction ls arbitrary: i j)
  case (Cons l ls)
  show ?case
  proof (cases i)
    case (Suc k)
    then obtain m where "j = Suc m" using Cons.prems by (cases j) auto
    with Suc Cons show ?thesis by (simp del: offsets_from.simps)
  qed simp
qed simp

lemma lines_of_join:
  "lines_of s = split_on LF s \<or> (\<exists>w. split_on LF s = lines_of s @ [w])"
  by (auto simp: lines_of_def Let_def intro!: exI [of _ "last (split_on LF s)"])

lemma offsets_append: "offsets_from c (xs @ ys) = offsets_from c xs @ offsets_from (c + length (concat xs) + length xs) ys"
  by (induction c xs rule: offsets_from.induct) (simp_all add: add.assoc add.commute add.left_commute)

lemma line_of_text:
  assumes "i < length (lines_of s)"
  defines "fin \<equiv> offsets_from 0 (lines_of s) ! i + length (lines_of s ! i)"
  shows "fin \<le> length s" and "fin < length s \<Longrightarrow> s ! fin = LF"
proof -
  let ?ls = "split_on LF s"
  have i: "i < length ?ls" and fin: "fin = offsets_from 0 ?ls ! i + length (?ls ! i)"
    using lines_of_join [of s] assms by (auto simp: fin_def offsets_append nth_append)
  show "fin \<le> length s"
    using line_inside [OF i, of LF] by (simp add: join_split_on fin)
  show "s ! fin = LF" if "fin < length s"
  proof (cases "Suc i < length ?ls")
    case True
    then show ?thesis
      using line_end_char(2) [of i ?ls LF] by (simp add: join_split_on fin)
  next
    case False
    then have "Suc i = length ?ls" using i by simp
    from last_line_end [OF this, of LF] that show ?thesis by (simp add: join_split_on fin)
  qed
qed


section \<open>The plan\<close>

lemma line_starts_bound:
  "i \<in> set (line_starts norm stripped ra index ls) \<Longrightarrow> index \<le> i \<and> i + length stripped \<le> index + length ls"
proof (induction norm stripped ra index ls rule: line_starts.induct)
  case (2 norm stripped ra index l ls)
  consider "length stripped > length (l # ls)"
    | "length stripped \<le> length (l # ls)" "map norm (take (length stripped) (l # ls)) = stripped"
    | "length stripped \<le> length (l # ls)" "map norm (take (length stripped) (l # ls)) \<noteq> stripped"
    by linarith
  then show ?case
  proof cases
    case 2
    then consider "i = index"
      | "i \<in> set (line_starts norm stripped ra (index + (if ra then length stripped else 1))
             (if ra then drop (length stripped - 1) ls else ls))"
      using "2.prems" by (auto simp del: length_Cons)
    then show ?thesis
    proof cases
      case here: 1
      then show ?thesis using 2 by simp
    next
      case later: 2
      show ?thesis
        using "2.IH"(1) [OF _ _ later] 2 by (cases ra) auto
    qed
  next
    case 3
    then show ?thesis using "2.IH"(2) "2.prems" by (auto split: if_splits)
  qed (use "2.prems" in simp)
qed simp

text \<open>A range the line search returns ends behind a line end, or at the end of the text.\<close>

lemma line_range_facts:
  assumes "0 < width" and "i + width \<le> length (lines_of s)" and "line_range s (lines_of s) width i = (a, b)"
  shows "a \<le> b" and "b \<le> length s" and "b < length s \<Longrightarrow> a < b \<and> s ! (b - 1) = LF"
proof -
  let ?ls = "lines_of s" and ?last = "i + width - 1"
  let ?fin = "offsets_from 0 ?ls ! ?last + length (?ls ! ?last)"
  have last: "?last < length ?ls" "i \<le> ?last" using assms(1,2) by auto
  then have "?ls \<noteq> []" by auto
  then have ab: "a = offsets_from 0 ?ls ! i" "b = (if ?fin < length s \<and> s ! ?fin = LF then ?fin + 1 else ?fin)"
    using assms(3) by (auto simp: line_range_def line_offsets_def Let_def)
  note fin = line_of_text [OF last(1)]
  have "a \<le> ?fin" using offsets_mono [OF last(2,1)] ab(1) by simp
  then show "a \<le> b" using ab(2) by simp
  show "b \<le> length s" using fin(1) ab(2) by auto
  show "a < b \<and> s ! (b - 1) = LF" if "b < length s"
    using fin(2) that ab(2) \<open>a \<le> ?fin\<close> by (auto split: if_splits)
qed

lemma locate_range:
  assumes "locate s old tw ra ri = (ranges, count, mode)" and "(a, b) \<in> set ranges" and "ra \<or> count \<le> 1"
  shows "a \<le> b \<and> b \<le> length s"
    and "mode = Exact \<Longrightarrow> take (b - a) (drop a s) = old"
    and "mode \<noteq> Exact \<Longrightarrow> b < length s \<Longrightarrow> a < b \<and> s ! (b - 1) = LF"
proof -
  have lines: "a \<le> b \<and> b \<le> length s \<and> (b < length s \<longrightarrow> a < b \<and> s ! (b - 1) = LF)"
    if "(a, b) = line_range s (lines_of s) (length (lines_of old)) i" "lines_of old \<noteq> []"
      "i \<in> set (line_starts norm (map norm (lines_of old)) ra 0 (lines_of s))" for norm i
    using line_starts_bound [OF that(3)] line_range_facts [of "length (lines_of old)" i s a b] that(1,2) by auto
  consider (exact) "mode = Exact" "(a, b) \<in> set (find_exact 0 old s)"
    | (trailing) "mode = Trailing_ws" "(a, b) \<in> set (find_trailing s old ra)" "length (find_trailing s old ra) = count"
    | (reindent) "mode = Reindent" "(a, b) \<in> set (find_reindent s old ra)"
    using assms(1,2) by (auto simp: locate_def Let_def split: if_splits)
  then show "a \<le> b \<and> b \<le> length s" "mode = Exact \<Longrightarrow> take (b - a) (drop a s) = old"
    "mode \<noteq> Exact \<Longrightarrow> b < length s \<Longrightarrow> a < b \<and> s ! (b - 1) = LF"
  proof (atomize (full), cases)
    case exact
    then show "(a \<le> b \<and> b \<le> length s) \<and> (mode = Exact \<longrightarrow> take (b - a) (drop a s) = old)
        \<and> (mode \<noteq> Exact \<longrightarrow> b < length s \<longrightarrow> a < b \<and> s ! (b - 1) = LF)"
      using find_exact_range [of a b 0 old s] by auto
  next
    case trailing
    then show "(a \<le> b \<and> b \<le> length s) \<and> (mode = Exact \<longrightarrow> take (b - a) (drop a s) = old)
        \<and> (mode \<noteq> Exact \<longrightarrow> b < length s \<longrightarrow> a < b \<and> s ! (b - 1) = LF)"
      using assms(3) lines [of _ rstrip] by (auto simp: find_trailing_def Let_def split: if_splits)
  next
    case reindent
    then show "(a \<le> b \<and> b \<le> length s) \<and> (mode = Exact \<longrightarrow> take (b - a) (drop a s) = old)
        \<and> (mode \<noteq> Exact \<longrightarrow> b < length s \<longrightarrow> a < b \<and> s ! (b - 1) = LF)"
      using lines [of _ strip] by (auto simp: find_reindent_def Let_def split: if_splits)
  qed
qed

lemma plan_span_facts:
  assumes "plan_span s tw ri (index, span) = Inr ps" and "p \<in> set ps"
  shows "sp_start p \<le> sp_end p \<and> sp_end p \<le> length s"
    and "sp_mode p = Exact \<Longrightarrow> take (sp_end p - sp_start p) (drop (sp_start p) s) = str_field span ''old_text''"
    and "sp_mode p \<noteq> Reindent \<Longrightarrow> sp_new p = span_new_text span"
    and "sp_mode p \<noteq> Exact \<Longrightarrow> sp_end p < length s \<Longrightarrow> sp_start p < sp_end p \<and> s ! (sp_end p - 1) = LF"
proof -
  obtain ranges count mode where l: "locate s (str_field span ''old_text'') tw (truthy (dict_get span ''replace_all'')) ri = (ranges, count, mode)"
    by (metis prod_cases3)
  have few: "truthy (dict_get span ''replace_all'') \<or> count \<le> 1"
    using assms(1) l by (auto simp: plan_span_def Let_def split: if_splits)
  obtain a b where ab: "(a, b) \<in> set ranges" "sp_start p = a" "sp_end p = b" "sp_mode p = mode"
    "mode \<noteq> Reindent \<Longrightarrow> sp_new p = span_new_text span"
    using assms l by (auto simp: plan_span_def Let_def split: if_splits)
  note r = locate_range [OF l ab(1) few]
  show "sp_start p \<le> sp_end p \<and> sp_end p \<le> length s"
    "sp_mode p = Exact \<Longrightarrow> take (sp_end p - sp_start p) (drop (sp_start p) s) = str_field span ''old_text''"
    "sp_mode p \<noteq> Reindent \<Longrightarrow> sp_new p = span_new_text span"
    "sp_mode p \<noteq> Exact \<Longrightarrow> sp_end p < length s \<Longrightarrow> sp_start p < sp_end p \<and> s ! (sp_end p - 1) = LF"
    using r ab by simp_all
qed

lemma planned_from:
  assumes "plan_spans s spans tw ri = Inr planned" and "p \<in> set planned"
  obtains index span ps where "span \<in> set spans" "plan_span s tw ri (index, span) = Inr ps" "p \<in> set ps"
proof -
  have "planned = sort_key sp_start (concat (map (\<lambda>x. case x of Inl _ \<Rightarrow> [] | Inr ps \<Rightarrow> ps)
      (map (plan_span s tw ri) (zip [0..<length spans] spans))))"
    using assms(1) by (simp add: plan_spans_def Let_def split: if_splits)
  then have "p \<in> set (concat (map (\<lambda>x. case x of Inl _ \<Rightarrow> [] | Inr ps \<Rightarrow> ps)
      (map (plan_span s tw ri) (zip [0..<length spans] spans))))"
    using assms(2) by (metis set_sort)
  then obtain q ps where "q \<in> set (zip [0..<length spans] spans)" "plan_span s tw ri q = Inr ps" "p \<in> set ps"
    by (auto split: sum.splits) metis
  then show thesis
    using that by (metis prod.collapse set_zip_rightD)
qed

text \<open>The reference: a single pass from the left, \<open>i\<close> being the offset of the text that is left.\<close>

fun splice :: "nat \<Rightarrow> str \<Rightarrow> span_plan list \<Rightarrow> str" where
  "splice i s [] = s"
| "splice i s (p # ps) = take (sp_start p - i) s @ sp_new p @ splice (sp_end p) (drop (sp_end p - i) s) ps"

definition in_order :: "span_plan list \<Rightarrow> bool" where
  "in_order planned = sorted_wrt (\<lambda>p q. sp_end p \<le> sp_start q) planned"

lemma apply_spans_Cons: "apply_spans s (p # ps) = apply_span p (apply_spans s ps)"
  by (simp add: apply_spans_def)

lemma apply_spans_splice:
  assumes "in_order planned" and "\<forall>p \<in> set planned. i \<le> sp_start p \<and> sp_start p \<le> sp_end p \<and> sp_end p \<le> length s"
  shows "apply_spans s planned = take i s @ splice i (drop i s) planned"
  using assms
proof (induction planned arbitrary: i)
  case Nil
  then show ?case by (simp add: apply_spans_def)
next
  case (Cons p ps)
  have p: "i \<le> sp_start p" "sp_start p \<le> sp_end p" "sp_end p \<le> length s" using Cons.prems(2) by simp_all
  have "apply_spans s ps = take (sp_end p) s @ splice (sp_end p) (drop (sp_end p) s) ps"
    using Cons.prems by (intro Cons.IH) (auto simp: in_order_def)
  moreover have "take (sp_start p) s = take i s @ take (sp_start p - i) (drop i s)"
    using p(1) by (metis le_add_diff_inverse take_add)
  ultimately show ?case
    using p by (simp add: apply_spans_Cons apply_span_def min_def)
qed

lemma not_overlapping:
  assumes "\<not> overlapping ps" and "\<forall>p \<in> set ps. sp_start p \<le> sp_end p"
  shows "in_order ps"
  unfolding in_order_def using assms
proof (induction ps rule: overlapping.induct)
  case (1 a b ps)
  then have "sorted_wrt (\<lambda>p q. sp_end p \<le> sp_start q) (b # ps)" "sp_end a \<le> sp_start b" "sp_start b \<le> sp_end b"
    by auto
  then show ?case by fastforce
qed simp_all


lemma planned_each:
  assumes "plan_spans s spans trailing_ws reindent = Inr planned" and "p \<in> set planned"
  shows "sp_start p \<le> sp_end p \<and> sp_end p \<le> length s \<and> (sp_mode p = Exact \<longrightarrow> (\<exists>span \<in> set spans.
      take (sp_end p - sp_start p) (drop (sp_start p) s) = str_field span ''old_text''
      \<and> sp_new p = span_new_text span))"
proof -
  obtain index span ps where "span \<in> set spans" "plan_span s trailing_ws reindent (index, span) = Inr ps" "p \<in> set ps"
    using planned_from [OF assms] by blast
  with plan_span_facts [of s trailing_ws reindent index span ps p] show ?thesis by auto
qed

lemma planned_in_order:
  assumes "plan_spans s spans trailing_ws reindent = Inr planned"
  shows "in_order planned"
  using assms planned_each [OF assms]
  by (intro not_overlapping) (auto simp: plan_spans_def Let_def split: if_splits)

lemma apply_planned:
  assumes "plan_spans s spans trailing_ws reindent = Inr planned"
  shows "apply_spans s planned = splice 0 s planned"
  using apply_spans_splice [OF planned_in_order [OF assms], of 0 s] planned_each [OF assms] by simp

text \<open>
  C21: an edit replaces exactly the spans it names. A plan that \<open>plan_spans\<close> accepts lies inside
  the text, in order and without overlap; a span of an exact match is the text the caller gave,
  and it is replaced by the new text of that same entry. Applying the plan from the end, as
  the code does, is a single pass from the left: what lies between the spans is unchanged.
\<close>

theorem edit_is_one_splice:
  assumes "plan_spans s spans trailing_ws reindent = Inr planned"
  shows "apply_spans s planned = splice 0 s planned \<and> in_order planned
    \<and> (\<forall>p \<in> set planned. sp_start p \<le> sp_end p \<and> sp_end p \<le> length s
        \<and> (sp_mode p = Exact \<longrightarrow> (\<exists>span \<in> set spans.
              take (sp_end p - sp_start p) (drop (sp_start p) s) = str_field span ''old_text''
              \<and> sp_new p = span_new_text span)))"
  using apply_planned [OF assms] planned_in_order [OF assms] planned_each [OF assms] by blast

definition two_lines :: str where
  "two_lines = ''x  '' @ LF # ''y'' @ LF # ''z'' @ [LF]"

definition two_line_edit :: dict where
  "two_line_edit = [(''old_text'', JStr (''x'' @ LF # ''y'')), (''new_text'', JStr (''x'' @ LF # ''Y''))]"

lemma two_line_plan:
  "plan_spans two_lines [two_line_edit] True False
     = Inr [\<lparr>sp_start = 0, sp_end = 6, sp_new = ''x'' @ LF # ''Y'', sp_mode = Trailing_ws\<rparr>]"
  by code_simp

lemma edit_is_one_splice_witness:
  "\<exists>planned. plan_spans two_lines [[(''old_text'', JStr ''y''), (''new_text'', JStr ''long'')]] True False = Inr planned
    \<and> apply_spans two_lines planned = splice 0 two_lines planned
    \<and> splice 0 two_lines planned = ''x  '' @ LF # ''long'' @ LF # ''z'' @ [LF]"
proof -
  have plan: "plan_spans two_lines [[(''old_text'', JStr ''y''), (''new_text'', JStr ''long'')]] True False
      = Inr [\<lparr>sp_start = 4, sp_end = 5, sp_new = ''long'', sp_mode = Exact\<rparr>]"
    by code_simp
  have "splice 0 two_lines [\<lparr>sp_start = 4, sp_end = 5, sp_new = ''long'', sp_mode = Exact\<rparr>]
      = ''x  '' @ LF # ''long'' @ LF # ''z'' @ [LF]"
    by code_simp
  with plan edit_is_one_splice [OF plan] show ?thesis by blast
qed

text \<open>
  C40: a match that ignores trailing blanks takes the line end with it. Its span ends behind a
  line end (or at the end of the file) even when the text the caller gave does not, and the new
  text is put there as it is: the next line is joined to it.
\<close>

theorem trailing_match_takes_line_end:
  assumes "plan_spans s [span] True False = Inr planned" and "p \<in> set planned" and "sp_mode p = Trailing_ws"
    and "sp_end p < length s"
  shows "s ! (sp_end p - 1) = LF \<and> sp_start p < sp_end p \<and> sp_new p = span_new_text span"
proof -
  obtain index ps where "plan_span s True False (index, span) = Inr ps" "p \<in> set ps"
    using planned_from [OF assms(1,2)] by (metis empty_set list.simps(15) singletonD)
  from plan_span_facts [OF this] assms(3,4) show ?thesis by simp
qed

lemma trailing_match_takes_line_end_witness:
  "two_lines ! 5 = LF \<and> span_new_text two_line_edit = ''x'' @ LF # ''Y''
    \<and> map_sum id (apply_spans two_lines) (plan_spans two_lines [two_line_edit] True False) = Inr (''x'' @ LF # ''Yz'' @ [LF])"
proof -
  let ?p = "\<lparr>sp_start = 0, sp_end = 6, sp_new = ''x'' @ LF # ''Y'', sp_mode = Trailing_ws\<rparr>"
  have "two_lines ! (sp_end ?p - 1) = LF \<and> sp_start ?p < sp_end ?p \<and> sp_new ?p = span_new_text two_line_edit"
    by (rule trailing_match_takes_line_end [OF two_line_plan]) (simp_all add: two_lines_def)
  moreover have "apply_spans two_lines [?p] = ''x'' @ LF # ''Yz'' @ [LF]" by code_simp
  ultimately show ?thesis by (simp add: two_line_plan)
qed

text \<open>Two more gaps: a match that overlaps itself counts once, and CR LF in new text gets a second CR.\<close>

lemma overlapping_matches_count_once: "locate ''aaa'' ''aa'' True False False = ([(0, 2)], 1, Exact)"
  by code_simp

lemma dump_doubles_cr:
  "lt_crlf loaded \<Longrightarrow> dump_text lib loaded (u @ [CR, LF] @ v)
     = map_option (with_bom loaded) (lib_encode lib (lt_encoding loaded) (to_crlf u @ [CR, CR, LF] @ to_crlf v))"
  by (simp add: dump_text_def to_crlf_def)

text \<open>New content with a single CR LF gets it at every line, whatever the file had.\<close>

lemma one_crlf_rewrites_all:
  "has_crlf content \<Longrightarrow> encode_preserving lib loaded content
     = map_option (with_bom loaded) (lib_encode lib (lt_encoding loaded) (to_crlf (to_lf content)))"
  by (simp add: encode_preserving_def)

end
