(* ===== verification/EditFile.thy ===== *)
theory EditFile
  imports TextFidelity WorkPath ReadRegistry
begin

text \<open>
  The two tools that change a file, \<open>edit_file\<close> and \<open>write_file\<close>
  (\<open>services/runtime/app/tools/core/edit_tools.py\<close>). The disk maps resolved paths to nodes; a
  tool returns its outcome and the disk. Parameters are path resolution, the secret scan, the
  syntax gate, the codecs, the hash of a file and the diff text. The checks, the impact, the related
  tests and the patch check only add fields to an answer whose write is done, and are left out,
  like the texts of the answers. None is an exception (PermissionError, or an OSError of the
  write).
\<close>

section \<open>Surroundings and answers\<close>

datatype node = File bytes | Unreadable | Directory

type_synonym disk = "str list \<rightharpoonup> node"

record edit_env =
  ed_codecs :: codecs
  ed_resolve :: "str list \<Rightarrow> str list"
  ed_root :: "str list"
  ed_deploy :: "str list"
  ed_seed :: bool
  ed_secret :: "str \<Rightarrow> str \<Rightarrow> bool"
  ed_syntax :: "str \<Rightarrow> str \<Rightarrow> str \<Rightarrow> bool"
  ed_trailing :: bool
  ed_reindent :: bool
  ed_hash :: "str \<Rightarrow> str option"
  ed_diff :: "str \<Rightarrow> str"

datatype edit_answer =
    Metadata_path
  | Secret_blocked
  | Missing_file
  | Cannot_read
  | Unsupported_encoding
  | Span_failure plan_failure bool
  | Syntax_blocked
  | Cannot_encode
  | Edited str nat str
  | Crashed_after_write

text \<open>The entries of \<open>edits\<close>, or the one edit of the arguments.\<close>

definition edit_entries :: "str \<Rightarrow> str \<Rightarrow> dict \<Rightarrow> dict list" where
  "edit_entries old_text new_text kwargs =
     (case dict_get kwargs ''edits'' of
        JList (x # xs) \<Rightarrow> concat (map (\<lambda>item. case item of JObj d \<Rightarrow> [d] | _ \<Rightarrow> []) (x # xs))
      | _ \<Rightarrow> [[(''old_text'', JStr old_text), (''new_text'', JStr new_text),
               (''replace_all'', JBool (truthy (dict_get kwargs ''replace_all'')))]])"

definition edit_target :: "edit_env \<Rightarrow> str \<Rightarrow> str list option" where
  "edit_target env path =
     (if is_seed_corpus_path path then None
      else (case resolve_path (ed_resolve env) (ed_root env) (ed_deploy env) (ed_seed env) path of
          Inl _ \<Rightarrow> None | Inr target \<Rightarrow> Some target))"

fun mode_name :: "match_mode \<Rightarrow> str" where
  "mode_name Exact = ''exact''"
| "mode_name Trailing_ws = ''trailing_ws''"
| "mode_name Reindent = ''reindent''"

definition match_mode_of :: "span_plan list \<Rightarrow> str" where
  "match_mode_of planned = (case remdups (map sp_mode planned) of [m] \<Rightarrow> mode_name m | _ \<Rightarrow> ''mixed'')"

text \<open>
  The part after the file was loaded: plan, apply, syntax gate, encode. The excerpt shows five
  lines around the first span.
\<close>

definition edit_loaded ::
  "edit_env \<Rightarrow> registry \<Rightarrow> str \<Rightarrow> dict list \<Rightarrow> loaded_text \<Rightarrow> edit_answer + edit_answer \<times> bytes" where
  "edit_loaded env reg path spans loaded =
     (let s = lt_text loaded in
      case plan_spans s spans (ed_trailing env) (ed_reindent env) of
        Inl failure \<Rightarrow> Inl (Span_failure failure (file_changed_since_read (ed_hash env) reg path))
      | Inr planned \<Rightarrow>
          (let updated = apply_spans s planned in
           if ed_syntax env path s updated then Inl Syntax_blocked
           else (case dump_text (ed_codecs env) loaded updated of
               None \<Rightarrow> Inl Cannot_encode
             | Some payload \<Rightarrow>
                 Inr (if spans = [] then Crashed_after_write
                      else Edited (match_mode_of planned) (length payload)
                        (post_edit_excerpt updated (case planned of [] \<Rightarrow> 1 | p # _ \<Rightarrow> line_of_offset s (int (sp_start p))) 5),
                      payload))))"

definition edit_file ::
  "edit_env \<Rightarrow> registry \<Rightarrow> disk \<Rightarrow> str \<Rightarrow> str \<Rightarrow> str \<Rightarrow> dict \<Rightarrow> (edit_answer \<times> disk) option" where
  "edit_file env reg disk path old_text new_text kwargs =
     (let spans = edit_entries old_text new_text kwargs in
      if is_seed_corpus_path path then None
      else if write_path_block path then Some (Metadata_path, disk)
      else if \<exists>span \<in> set spans. ed_secret env (str_field span ''new_text'') path then Some (Secret_blocked, disk)
      else (case edit_target env path of None \<Rightarrow> None
        | Some target \<Rightarrow> (case disk target of
              None \<Rightarrow> Some (Missing_file, disk)
            | Some (File raw) \<Rightarrow> (case load_text_bytes (ed_codecs env) raw of
                  None \<Rightarrow> Some (Unsupported_encoding, disk)
                | Some loaded \<Rightarrow> (case edit_loaded env reg path spans loaded of
                      Inl answer \<Rightarrow> Some (answer, disk)
                    | Inr (answer, payload) \<Rightarrow> Some (answer, disk(target \<mapsto> File payload))))
            | Some _ \<Rightarrow> Some (Cannot_read, disk))))"

datatype write_answer =
    Write_metadata_path
  | Write_secret_blocked
  | Write_conflict dict
  | Write_cannot_read
  | Write_unsupported
  | Write_cannot_encode
  | Written str nat

definition shown_old_text :: "str \<Rightarrow> str" where
  "shown_old_text s = (if length s > 32000 then take 32000 s @ LF # ''...[truncated]'' else s)"

definition write_file ::
  "edit_env \<Rightarrow> registry \<Rightarrow> disk \<Rightarrow> str \<Rightarrow> str \<Rightarrow> (write_answer \<times> disk) option" where
  "write_file env reg disk path content =
     (if is_seed_corpus_path path then None
      else if write_path_block path then Some (Write_metadata_path, disk)
      else if ed_secret env content path then Some (Write_secret_blocked, disk)
      else (case write_conflicts_with_read (ed_hash env) (ed_diff env) reg path of
          Some conflict \<Rightarrow> Some (Write_conflict conflict, disk)
        | None \<Rightarrow> (case edit_target env path of None \<Rightarrow> None
            | Some target \<Rightarrow> (case disk target of
                  None \<Rightarrow> map_option (\<lambda>payload. (Written [] (length payload), disk(target \<mapsto> File payload)))
                    (lib_encode (ed_codecs env) ''utf-8'' content)
                | Some Directory \<Rightarrow> None
                | Some Unreadable \<Rightarrow> Some (Write_cannot_read, disk)
                | Some (File raw) \<Rightarrow> (case load_text_bytes (ed_codecs env) raw of
                      None \<Rightarrow> Some (Write_unsupported, disk)
                    | Some loaded \<Rightarrow> (case encode_preserving (ed_codecs env) loaded content of
                          None \<Rightarrow> Some (Write_cannot_encode, disk)
                        | Some payload \<Rightarrow> Some (Written (shown_old_text (lt_text loaded)) (length payload),
                              disk(target \<mapsto> File payload))))))))"

section \<open>All or nothing\<close>

lemma edit_target_inside: "edit_target env path = Some target \<Longrightarrow> prefix (ed_root env) target"
  by (auto simp: edit_target_def resolve_path_def relative_to_def Let_def split: if_splits option.splits sum.splits)

text \<open>
  C20: an edit writes its whole plan or nothing. Either the disk is as it was, or exactly one file
  inside the Work root has changed: every entry was located, no two overlapped, no entry was
  stopped by the secret scan, the syntax gate let the new text pass, and the file holds the old
  text with the planned spans replaced, encoded as it was read.
\<close>

theorem edit_writes_plan_or_nothing:
  assumes "edit_file env reg disk path old_text new_text kwargs = Some (answer, disk')"
  shows "disk' = disk \<or> (\<exists>target raw loaded planned payload.
      prefix (ed_root env) target \<and> disk target = Some (File raw)
      \<and> load_text_bytes (ed_codecs env) raw = Some loaded
      \<and> plan_spans (lt_text loaded) (edit_entries old_text new_text kwargs) (ed_trailing env) (ed_reindent env) = Inr planned
      \<and> (\<forall>span \<in> set (edit_entries old_text new_text kwargs). \<not> ed_secret env (str_field span ''new_text'') path)
      \<and> \<not> write_path_block path \<and> \<not> ed_syntax env path (lt_text loaded) (splice 0 (lt_text loaded) planned)
      \<and> dump_text (ed_codecs env) loaded (splice 0 (lt_text loaded) planned) = Some payload
      \<and> disk' = disk(target \<mapsto> File payload))"
proof (cases "disk' = disk")
  case False
  let ?spans = "edit_entries old_text new_text kwargs"
  from assms False obtain target raw loaded payload where r: "edit_target env path = Some target"
    "disk target = Some (File raw)" "load_text_bytes (ed_codecs env) raw = Some loaded"
    "edit_loaded env reg path ?spans loaded = Inr (answer, payload)" "disk' = disk(target \<mapsto> File payload)"
    "\<not> write_path_block path" "\<forall>span \<in> set ?spans. \<not> ed_secret env (str_field span ''new_text'') path"
    by (auto simp: edit_file_def Let_def split: if_splits option.splits node.splits sum.splits)
  then obtain planned where planned: "plan_spans (lt_text loaded) ?spans (ed_trailing env) (ed_reindent env) = Inr planned"
    "\<not> ed_syntax env path (lt_text loaded) (apply_spans (lt_text loaded) planned)"
    "dump_text (ed_codecs env) loaded (apply_spans (lt_text loaded) planned) = Some payload"
    by (auto simp: edit_loaded_def Let_def split: if_splits option.splits sum.splits)
  have "apply_spans (lt_text loaded) planned = splice 0 (lt_text loaded) planned"
    by (rule apply_planned [OF planned(1)])
  with r planned edit_target_inside [OF r(1)] show ?thesis by metis
qed simp

definition sample_env :: edit_env where
  "sample_env = \<lparr>ed_codecs = plain_codec, ed_resolve = id, ed_root = [''w''], ed_deploy = [''d''], ed_seed = False,
     ed_secret = (\<lambda>t p. False), ed_syntax = (\<lambda>p s t. False), ed_trailing = True, ed_reindent = False,
     ed_hash = (\<lambda>p. None), ed_diff = (\<lambda>p. [])\<rparr>"

definition sample_disk :: disk where
  "sample_disk = [[''w'', ''a.py''] \<mapsto> File (''x = 1'' @ [LF])]"

definition sample_loaded :: loaded_text where
  "sample_loaded = \<lparr>lt_text = ''x = 1'' @ [LF], lt_crlf = False, lt_encoding = ''utf-8'', lt_bom = False\<rparr>"

lemma sample_steps:
  "load_text_bytes plain_codec (''x = 1'' @ [LF]) = Some sample_loaded"
  "edit_loaded sample_env [] ''a.py'' (edit_entries ''1'' ''22'' []) sample_loaded
     = Inr (Edited ''exact'' 7 ''1|x = 22'', ''x = 22'' @ [LF])"
  "edit_target sample_env ''a.py'' = Some [''w'', ''a.py'']"
  "\<not> is_seed_corpus_path ''a.py''" "\<not> write_path_block ''a.py''"
  by code_simp+

lemma sample_edit:
  "edit_file sample_env [] sample_disk ''a.py'' ''1'' ''22'' []
    = Some (Edited ''exact'' 7 ''1|x = 22'', sample_disk([''w'', ''a.py''] \<mapsto> File (''x = 22'' @ [LF])))"
  using sample_steps
  by (simp add: edit_file_def Let_def sample_disk_def sample_env_def [THEN arg_cong [of _ _ ed_codecs], simplified]
      sample_env_def [THEN arg_cong [of _ _ ed_secret], simplified])

lemma edit_writes_plan_or_nothing_witness:
  "\<exists>planned. plan_spans (''x = 1'' @ [LF]) (edit_entries ''1'' ''22'' []) True False = Inr planned
    \<and> splice 0 (''x = 1'' @ [LF]) planned = ''x = 22'' @ [LF]"
proof -
  have changed: "sample_disk([''w'', ''a.py''] \<mapsto> File (''x = 22'' @ [LF])) \<noteq> sample_disk"
    by (simp add: sample_disk_def fun_eq_iff)
  from edit_writes_plan_or_nothing [OF sample_edit] changed
  obtain target raw loaded planned payload where w: "sample_disk target = Some (File raw)"
    "load_text_bytes plain_codec raw = Some loaded"
    "plan_spans (lt_text loaded) (edit_entries ''1'' ''22'' []) True False = Inr planned"
    "dump_text plain_codec loaded (splice 0 (lt_text loaded) planned) = Some payload"
    "sample_disk([''w'', ''a.py''] \<mapsto> File (''x = 22'' @ [LF])) = sample_disk(target \<mapsto> File payload)"
    by (auto simp: sample_env_def)
  from w(1) have target: "target = [''w'', ''a.py'']" "raw = ''x = 1'' @ [LF]"
    by (auto simp: sample_disk_def split: if_splits)
  then have "loaded = sample_loaded" using w(2) sample_steps(1) by simp
  moreover have "payload = ''x = 22'' @ [LF]"
    using fun_cong [OF w(5), of target] target(1) by simp
  ultimately show ?thesis
    using w(3,4) by (auto simp: sample_loaded_def dump_text_def with_bom_def plain_codec_def)
qed

end
