(* ===== verification/Spec2Isabelle.thy ===== *)
theory Spec2Isabelle
  imports RunStore AgentConversation AgentRegistry RunCommands Outbox Checkpoint EditFile
begin

text \<open>
  AgentPlatform: a platform that runs language-model agents on a user's work directory. A web
  client creates a turn through the api service, a runtime process claims the turn's run and
  executes it, the agent's tool calls pass a policy gate, and the events the runtime appends
  are projected into the views the client reads. This development models the three parts on
  which safety rests: the policy that decides every tool call (services/runtime/app/policy and
  the executor that calls it), the agent that asks for the calls and keeps the conversation
  (services/runtime/app/engine and context), and the life of a run in the database (claims,
  leases, events, projection). It proves what they guarantee and where they fall short.

  The tool policy, in the order a call meets it.

    \<^item> Prelude, PyValue: Python's string methods on lists of characters, JSON values with
      Python's truth, or, str, repr and int; reachable states of a step relation.
    \<^item> CommandAllowlist (packages/contracts, \<open>command_allowlist.py\<close>): the POSIX tokeniser
      \<open>shlex.split\<close> as a state machine, argument vectors, matching of stored prefixes. Matching
      is shown to be the prefix order on word lists and never to admit a compound command.
    \<^item> PolicyMatrix (\<open>policy/matrix.py\<close>): taint labels and their join, the classes of the tools,
      the emergency deny lists with their file, the decision matrix \<open>decide\<close>. The state is the
      record \<open>policy_store\<close>: the two sets of the process and the file, which may be missing,
      readable or unreadable.
    \<^item> TurnState, Taint (\<open>engine/state.py\<close>, \<open>policy/taint.py\<close>): the fields of a turn the policy
      reads and writes, the taint of messages and of the turn's window. The window is shown to
      be the maximum of everything that raised it, and summaries to inherit it.
    \<^item> WorkPath (\<open>tools/core/paths.py\<close>, \<open>policy/snapshot.py\<close>): paths, the jail of the Work root,
      the canonical arguments and the snapshot before a write. \<open>Path.resolve\<close> is a parameter.
    \<^item> ScenarioPolicy (\<open>policy/scenario_policy.py\<close>): what a scenario profile adds or tightens.
    \<^item> Detector (\<open>policy/detector.py\<close>, \<open>policy/ingress.py\<close>): the injection detector's signals, and
      the cap, the stamp and the isolation of a tool's result.
    \<^item> Egress (\<open>policy/egress.py\<close>, \<open>policy/egress_proxy.py\<close>): addresses as 32-bit and 128-bit words,
      the blocked networks as masks, URLs, the class of a fetch, the verdict of the proxy.
    \<^item> Gate, GateSafety (\<open>policy/gate.py\<close>): \<open>authorize\<close> as a chain of stages over a decision
      (matrix, local rule, scenario overlay, detector, permission mode, per-call rules), each
      stage the code between two assignments of \<open>decision\<close>; what a call that passes satisfies.
    \<^item> ToolExecutor (\<open>context/engine.py\<close>, \<open>policy/approval.py\<close>, \<open>policy/credentials.py\<close>): one tool
      call from the model's arguments to the stamped result, with grants and their hashes.

  The agent.

    \<^item> Json, Messages (\<open>model/openai_messages.py\<close>): \<open>json.dumps\<close> and \<open>json.loads\<close> with their round
      trip; roles and blocks of messages, the pairing of calls and results, the repair of a
      broken chain before it is sent.
    \<^item> ReadRegistry (\<open>engine/read_registry.py\<close>): what was read, which reads are refused, the form
      in a checkpoint.
    \<^item> Compaction, CompactionSafety (\<open>context/engine.py\<close>, \<open>context/pointers.py\<close>): the estimates and
      the stages that make a history fit the window; they keep calls and results paired, lose no
      label and note every file whose body left the window.
    \<^item> ChildJoin (\<open>engine/child_spawn.py\<close>, \<open>engine/tool_batch.py\<close>, \<open>controller/child_join.py\<close>): calls
      that are handed to children, their grouping and the splice of their results.
    \<^item> AgentState (\<open>engine/state.py\<close>): every field of a turn; VerifyReceipt
      (\<open>engine/verify_receipt.py\<close>): what a turn owes before it may finish.
    \<^item> AgentTools (\<open>AgentEngine._run_tool\<close>): one call, from the guards to the message that answers
      it, parks it or ends the turn. AgentBatch (\<open>_run_tool_batch\<close>): the calls of one reply, alone
      and in parallel groups on copies of the state. AgentApproval
      (\<open>_resume_after_approval\<close> of \<open>controller/turn_controller.py\<close>): what happens to a parked call
      after the user decided.
    \<^item> AgentFrame, AgentSafety: what a batch leaves alone and what it guarantees; AgentLoop
      (\<open>AgentEngine.run\<close>, \<open>engine/product_finish.py\<close>, \<open>engine/steer_inbox.py\<close>): the loop, which ends
      within the step limit; AgentConversation: every request of a run is paired; AgentRegistry:
      the read registry stays well typed.
    \<^item> Checkpoint (\<open>engine/checkpoint_codec.py\<close>, \<open>controller/checkpoint_store.py\<close>): the form a
      parked turn takes in the database and in files, and what comes back from it.
    \<^item> TextFidelity (\<open>tools/core/text_fidelity.py\<close>), EditFile (\<open>tools/core/edit_tools.py\<close>): how the
      two tools that change a file locate, check and write an edit.

  The life of a run.

    \<^item> Projector (services/api, \<open>projection/projector.py\<close>, \<open>run_status.py\<close>,
      \<open>session_projector.py\<close>): the fold of the event log into the client's view, the transaction
      that stores it, and when a turn is projected again (\<open>refresh_view\<close>, \<open>stale_turn\<close>).
    \<^item> RunStore (\<open>run_lock.py\<close>, \<open>turn_dispatch.py\<close>, \<open>lease_reclaim.py\<close>, \<open>claim_timeout.py\<close>,
      \<open>event_sequence.py\<close>, \<open>events_retention.py\<close>, \<open>event_partitions.py\<close>, \<open>turns.py\<close>, \<open>admission.py\<close>
      and the write-backs of the controller): each SQL statement as an update of a list of rows,
      and the protocol as a step relation in which runners, projectors, sweeps and the retention
      act in any order. A projector reads the log, reads the status and writes in three steps; what
      it writes is what \<open>read_projection\<close> folds, and that it never writes the initial status back
      is a consequence. The protocol assumes that new identifiers are fresh, that \<open>start_turn\<close>
      accepts a turn after a claim and that other events follow that acceptance. The invariants
      are proved once for every row operation through the locales \<open>row_operation\<close> and
      \<open>logging_operation\<close>.
    \<^item> RunCommands (services/api, the commands of a run): a command is written once, claimed,
      dispatched and marked; which commands reach the runtime and which are lost. Outbox (the
      jobs the api runs after a transaction): the table, and a step relation of any number of
      workers that claim, report or die within the ten minutes of the sweep; claims exclude each
      other there and retries are bounded, and lemmas show what a late report and a dying worker do.

  Interfaces are locales, each interpreted on the model: \<open>command_matcher\<close> (the matcher),
  \<open>label_join\<close> (taint labels), \<open>tightener\<close> (the stages that may only make a decision more
  severe: overlay and detector), \<open>row_operation\<close> and its extension \<open>logging_operation\<close> (the updates of a run), \<open>json_encoder\<close> (the two
  ways to write a character), \<open>tool_surroundings\<close> (what a call relies on: the executor does not
  touch the conversation), \<open>call_frame\<close> (a relation on turn states that every step of a call
  respects; instances: the step counters stay, the window never falls).

  An exception of the source is None, or a constructor of an error type where the code tells
  errors apart. All functions are total and executable; the recursions are structural or on a
  decreasing number. Only the loop of the agent has fuel: \<open>run_loop\<close> consumes one \<open>step_input\<close>
  for each iteration and yields \<open>Unfinished\<close> when they run out, and as many inputs as the turn
  has steps left are shown to be enough. Parameters stand for what the sources call and do not
  contain: path resolution and files, the DNS resolver, the detector service, the digest of
  the arguments, the schema validator, the tool handlers, the replies of the model, the
  cancel flag, the profile registry, the clock, the texts that are not ASCII.
  Not modelled: audit records, metrics, log lines, notifications, sockets, the wall clock of a
  step, the streaming of replies and the events of the engine, the tools that do not edit a file, the search for related tests, the parsing of test output
  and problem texts, retrieval, the writing heuristics on natural language, the evaluation
  harness and the web front end: they are input and output, heuristics on text, or glue around
  libraries. Characters are 8 bits wide, and floats are decimal numbers without exponent.

  Findings of the model, each a theorem or lemma. Policy: a read-only prefix admits what stands
  behind it, unless that is a destructive command or names egress hosts; the rule against
  writing into \<open>.git\<close> compares texts, which an absolute path or a leading dot and slash passes; a denial with egress hosts is offered for approval; an emergency deny on an
  unreadable policy file reopens it; the approval for executable configuration never fires on a
  \<open>path\<close>; a dot directory in a profile loses its dot; mapped loopback addresses pass. Runs: a late
  projector reopens a finished turn until the next refresh or pass over stale turns; a projection forgets \<open>waiting_child\<close>; a reclaimed run can
  still complete; a command sent again while it is held is lost; a late failure reopens a done
  job; a job whose worker always dies never fails. Agent: the result of an approved call is neither redacted nor labelled; a
  second approval of a child repeats its first call; calls after a parked one are never
  answered; a pond tool behind another call that asks for a fresh retry is never answered; parallel calls do not raise the window; cached results (other than reads of files) outlive edits; a parked test
  command pays the verification debt; the results of children lose their label. Edits: a match that
  ignores trailing blanks joins the next line; CR LF in new text is doubled. Checkpoints: the delivery
  hold is forgotten; a snapshot that begins with b64: changes its kind.
\<close>

section \<open>The store and the projection\<close>

text \<open>The terminal events as the sweeps write them, with the payload they carry.\<close>

definition reclaim_event :: "int \<Rightarrow> str \<Rightarrow> turn_event" where
  "reclaim_event n message = \<lparr>ev_sequence = n, ev_type = ''turn.failed'',
     ev_payload = [(''termination_reason'', JStr ''runner_lost''), (''message'', JStr (take 1024 message))]\<rparr>"

definition timeout_event :: "int \<Rightarrow> str \<Rightarrow> turn_event" where
  "timeout_event n message = \<lparr>ev_sequence = n, ev_type = ''turn.failed'',
     ev_payload = [(''termination_reason'', JStr ''start_timeout''), (''message'', JStr message)]\<rparr>"

text \<open>
  C28: the sweeps write the columns the projection would. Whatever the projection of the log so
  far is, folding in the event that a lease sweep (or a claim timeout) appends gives the turn
  status, the run status and the reason which that sweep stores in the same transaction, so a
  later projection changes none of them; and it is that event the sweep appends.
\<close>

theorem sweeps_agree_with_projection:
  "rn_events (reclaim_row message r) = rn_events r @ [reclaim_event (next_sequence (rn_events r)) message]
   \<and> rn_events (timeout_row message r) = rn_events r @ [timeout_event (next_sequence (rn_events r)) message]
   \<and> (\<exists>p'. project_event p (reclaim_event n message) = Some p'
       \<and> pj_status p' = rn_turn_status (reclaim_row message r)
       \<and> map_turn_to_run_status (pj_status p') = rn_status (reclaim_row message r)
       \<and> pj_reason p' = rn_reason (reclaim_row message r))
   \<and> (\<exists>p'. project_event p (timeout_event n message) = Some p'
       \<and> pj_status p' = rn_turn_status (timeout_row message r)
       \<and> map_turn_to_run_status (pj_status p') = rn_status (timeout_row message r)
       \<and> pj_reason p' = rn_reason (timeout_row message r))"
  by (simp add: project_event_def is_nested_def main_event_def terminal_event_def reclaim_event_def
      timeout_event_def reclaim_row_def timeout_row_def extract_termination_reason_def
      map_turn_to_run_status_def TURN_TO_RUN_STATUS_def insert_event_def)

end
